theory Spec2Isabelle
  imports Complex_Main "HOL-Library.Monad_Syntax"
begin

section \<open>The heat solver of PS2p2/heat.c\<close>

text \<open>
  The program is an MPI code: one copy of it runs on every rank of a two-dimensional,
  non-periodic Cartesian communicator. The embedding keeps the state of every rank in one
  value (\<open>world\<close>), so that the effect of the communication calls on all ranks can be
  stated. Conventions:
  \<^item> C \<open>int\<close> values are \<open>int\<close> (no value of the program comes near the 32-bit range for
    the grid sizes it is run on); the step counter, which is never negative, is a \<open>nat\<close>;
    ranks are \<open>nat\<close>.
  \<^item> A \<open>float*\<close> array obtained from \<open>calloc\<close> is a list; it is read with \<open>rd\<close> and written
    with \<open>wr\<close> at an \<open>int\<close> index. An access outside the allocation is undefined behaviour
    in C: here such a write leaves the list as it is and such a read is unspecified.
  \<^item> Everything that only moves data is polymorphic in the cell type. The functions that
    compute with temperatures take them as \<open>real\<close>: the rounding of C \<open>float\<close> arithmetic
    is not modelled. Where the value a computation stores matters beyond the range of
    \<open>float\<close>, the stencil is also given over \<open>c_float\<close>, with overflow, the infinities
    and NaN (\<open>ftcs_solver_float\<close>); the two agree wherever no operation overflows
    (\<open>ftcs_solver_float_finite\<close>).
  \<^item> The constants \<open>GRID_SIZE\<close> (256 by 256 in the source) and \<open>dims\<close> (chosen by
    \<open>MPI_Dims_create\<close> from the number of ranks) are the fields of a configuration \<open>cfg\<close>;
    \<open>heat_cfg\<close> below is the configuration of the source for a given mesh.
\<close>

subsection \<open>Constants and configuration\<close>

record cfg =
  GRID_SIZE0 :: int
  GRID_SIZE1 :: int
  dims0 :: int
  dims1 :: int

definition heat_cfg :: "int \<Rightarrow> int \<Rightarrow> cfg" where
  "heat_cfg d0 d1 = \<lparr>GRID_SIZE0 = 256, GRID_SIZE1 = 256, dims0 = d0, dims1 = d1\<rparr>"

definition MERCURY :: real where "MERCURY = 0.0619"
definition COPPER :: real where "COPPER = 0.116"
definition TIN :: real where "TIN = 0.040"
definition ALUMINIUM :: real where "ALUMINIUM = 0.098"

definition NSTEPS :: nat where "NSTEPS = 10000"
definition CUTOFF :: nat where "CUTOFF = 5000"
definition SNAPSHOT :: nat where "SNAPSHOT = 500"
definition BORDER :: int where "BORDER = 1"

text \<open>\<open>h = 5e-2\<close>, \<open>dt = 2.5e-3\<close>.\<close>

definition h :: real where "h = 0.05"
definition dt :: real where "dt = 0.0025"

text \<open>\<open>size\<close>: the number of ranks; \<open>MPI_Dims_create\<close> returns \<open>dims\<close> whose product it is.\<close>

definition world_size :: "cfg \<Rightarrow> nat" where
  "world_size c = nat (dims0 c * dims1 c)"

text \<open>\<open>local_grid_size[i] = GRID_SIZE[i] / dims[i]\<close> (lines 250-251).\<close>

definition local_grid_size0 :: "cfg \<Rightarrow> int" where
  "local_grid_size0 c = GRID_SIZE0 c div dims0 c"

definition local_grid_size1 :: "cfg \<Rightarrow> int" where
  "local_grid_size1 c = GRID_SIZE1 c div dims1 c"

subsection \<open>The Cartesian communicator\<close>

text \<open>
  Modelled from the spec: \<open>MPI_Cart_coords\<close>, \<open>MPI_Cart_rank\<close> and \<open>MPI_Cart_shift\<close> are
  library calls whose code is not in the repository. The spec (4.1) has each worker get
  its coordinate pair by a row-major linearisation of the mesh, and the neighbour one step
  along an axis, which at a mesh edge is the "no neighbour" sentinel since \<open>periods\<close> is
  \<open>{false, false}\<close>. Row-major as MPI defines it: the last coordinate varies fastest.
  The sentinel \<open>MPI_PROC_NULL\<close> is \<open>None\<close>.
\<close>

definition MPI_Cart_rank :: "cfg \<Rightarrow> int \<times> int \<Rightarrow> nat" where
  "MPI_Cart_rank c xy = nat (fst xy * dims1 c + snd xy)"

definition MPI_Cart_coords :: "cfg \<Rightarrow> nat \<Rightarrow> int \<times> int" where
  "MPI_Cart_coords c r = (int r div dims1 c, int r mod dims1 c)"

definition in_mesh :: "cfg \<Rightarrow> int \<times> int \<Rightarrow> bool" where
  "in_mesh c xy = (0 \<le> fst xy \<and> fst xy < dims0 c \<and> 0 \<le> snd xy \<and> snd xy < dims1 c)"

definition peer :: "cfg \<Rightarrow> int \<times> int \<Rightarrow> nat option" where
  "peer c xy = (if in_mesh c xy then Some (MPI_Cart_rank c xy) else None)"

text \<open>\<open>MPI_Cart_shift(cart, direction, disp, &source, &dest)\<close> called on rank \<open>r\<close>.\<close>

definition MPI_Cart_shift :: "cfg \<Rightarrow> nat \<Rightarrow> nat \<Rightarrow> int \<Rightarrow> nat option \<times> nat option" where
  "MPI_Cart_shift c r direction disp =
     (let (x, y) = MPI_Cart_coords c r in
      if direction = 0 then (peer c (x - disp, y), peer c (x + disp, y))
      else (peer c (x, y - disp), peer c (x, y + disp)))"

text \<open>Lines 245-253 of \<open>main\<close>, on rank \<open>r\<close>.\<close>

definition coords :: "cfg \<Rightarrow> nat \<Rightarrow> int \<times> int" where
  "coords c r = MPI_Cart_coords c r"

definition north :: "cfg \<Rightarrow> nat \<Rightarrow> nat option" where
  "north c r = fst (MPI_Cart_shift c r 1 1)"

definition south :: "cfg \<Rightarrow> nat \<Rightarrow> nat option" where
  "south c r = snd (MPI_Cart_shift c r 1 1)"

definition west :: "cfg \<Rightarrow> nat \<Rightarrow> nat option" where
  "west c r = fst (MPI_Cart_shift c r 0 1)"

definition east :: "cfg \<Rightarrow> nat \<Rightarrow> nat option" where
  "east c r = snd (MPI_Cart_shift c r 0 1)"

definition local_origin0 :: "cfg \<Rightarrow> nat \<Rightarrow> int" where
  "local_origin0 c r = fst (coords c r) * local_grid_size0 c"

definition local_origin1 :: "cfg \<Rightarrow> nat \<Rightarrow> int" where
  "local_origin1 c r = snd (coords c r) * local_grid_size1 c"

subsection \<open>Indexing functions (lines 117-141)\<close>

definition ti :: "cfg \<Rightarrow> int \<Rightarrow> int \<Rightarrow> int" where
  "ti c x y = y * GRID_SIZE0 c + x"

definition mi :: "cfg \<Rightarrow> int \<Rightarrow> int \<Rightarrow> int" where
  "mi c x y = (y + (BORDER - 1)) * (GRID_SIZE0 c + 2 * (BORDER - 1)) + x + (BORDER - 1)"

definition lmi :: "cfg \<Rightarrow> int \<Rightarrow> int \<Rightarrow> int" where
  "lmi c x y = (y + (BORDER - 1)) * (local_grid_size0 c + 2 * (BORDER - 1)) + x + (BORDER - 1)"

definition lti :: "cfg \<Rightarrow> int \<Rightarrow> int \<Rightarrow> int" where
  "lti c x y = (y + BORDER) * (local_grid_size0 c + 2 * BORDER) + x + BORDER"

definition inside :: "cfg \<Rightarrow> nat \<Rightarrow> int \<Rightarrow> int \<Rightarrow> bool" where
  "inside c r x y =
     (x \<ge> local_origin0 c r \<and> x < local_origin0 c r + local_grid_size0 c \<and>
      y \<ge> local_origin1 c r \<and> y < local_origin1 c r + local_grid_size1 c)"

subsection \<open>Arrays\<close>

definition rd :: "'a list \<Rightarrow> int \<Rightarrow> 'a" where
  "rd xs i = (if 0 \<le> i \<and> i < int (length xs) then xs ! nat i else undefined)"

definition wr :: "'a list \<Rightarrow> int \<Rightarrow> 'a \<Rightarrow> 'a list" where
  "wr xs i v = (if 0 \<le> i \<and> i < int (length xs) then xs[nat i := v] else xs)"

text \<open>A sequence of stores, first to last.\<close>

definition writes :: "(int \<times> 'a) list \<Rightarrow> 'a list \<Rightarrow> 'a list" where
  "writes ws xs = fold (\<lambda>iv b. wr b (fst iv) (snd iv)) ws xs"

text \<open>\<open>calloc(n, sizeof(float))\<close>: \<open>n\<close> cells, all zero.\<close>

definition calloc :: "int \<Rightarrow> 'a::zero list" where
  "calloc n = replicate (nat n) 0"

subsection \<open>The state\<close>

text \<open>
  What every rank owns: \<open>local_material\<close> and the two buffers \<open>local_temp[0]\<close>,
  \<open>local_temp[1]\<close>. What only rank 0 uses: \<open>material\<close>, \<open>temperature\<close>, \<open>displs\<close>,
  \<open>sendcounts\<close>.
\<close>

record 'a proc =
  local_material :: "'a list"
  local_temp :: "nat \<Rightarrow> 'a list"

record 'a world =
  procs :: "nat \<Rightarrow> 'a proc"
  material :: "'a list"
  temperature :: "'a list"
  displs :: "int list"
  sendcounts :: "int list"

text \<open>A function of the source that touches only the rank's own arrays, run on every rank.\<close>

definition on_all :: "cfg \<Rightarrow> (nat \<Rightarrow> 'a proc \<Rightarrow> 'a proc) \<Rightarrow> 'a world \<Rightarrow> 'a world" where
  "on_all c f W = W\<lparr>procs := (\<lambda>r. if r < world_size c then f r (procs W r) else procs W r)\<rparr>"

subsection \<open>\<open>ftcs_solver\<close> (lines 143-157)\<close>

definition ftcs_cell :: "cfg \<Rightarrow> nat \<Rightarrow> int \<Rightarrow> int \<Rightarrow> real proc \<Rightarrow> real proc" where
  "ftcs_cell c step x y p =
     (let inb = local_temp p (step mod 2);
          outb = local_temp p ((step + 1) mod 2)
      in p\<lparr>local_temp := (local_temp p)((step + 1) mod 2 :=
            wr outb (lti c x y)
              (rd inb (lti c x y) + rd (local_material p) (lmi c x y) *
                 (rd inb (lti c (x + 1) y) +
                  rd inb (lti c (x - 1) y) +
                  rd inb (lti c x (y + 1)) +
                  rd inb (lti c x (y - 1)) -
                  4 * rd inb (lti c x y))))\<rparr>)"

definition ftcs_solver :: "cfg \<Rightarrow> nat \<Rightarrow> real proc \<Rightarrow> real proc" where
  "ftcs_solver c step p =
     fold (\<lambda>x. fold (\<lambda>y. ftcs_cell c step x y) [0..local_grid_size1 c - 1])
       [0..local_grid_size0 c - 1] p"

subsection \<open>The arithmetic of C \<open>float\<close>\<close>

text \<open>
  The values of a C \<open>float\<close> (IEEE 754 binary32): the finite numbers, the two infinities
  and NaN. A result beyond \<open>FLT_MAX\<close> in magnitude overflows to an infinity, the sum of the
  two infinities and the product of an infinity and zero are NaN, and an operation on NaN
  gives NaN. The rounding of a result inside the range and the sign of zero are not
  modelled: a finite result is the real number.
\<close>

datatype c_float = Finite real | PInf | NInf | NaN

definition FLT_MAX :: real where
  "FLT_MAX = 340282346638528859811704183484516925440"

definition overflow :: "real \<Rightarrow> c_float" where
  "overflow v = (if FLT_MAX < v then PInf else if v < - FLT_MAX then NInf else Finite v)"

fun fadd :: "c_float \<Rightarrow> c_float \<Rightarrow> c_float" where
  "fadd NaN b = NaN"
| "fadd a NaN = NaN"
| "fadd PInf NInf = NaN"
| "fadd NInf PInf = NaN"
| "fadd PInf b = PInf"
| "fadd a PInf = PInf"
| "fadd NInf b = NInf"
| "fadd a NInf = NInf"
| "fadd (Finite a) (Finite b) = overflow (a + b)"

fun fneg :: "c_float \<Rightarrow> c_float" where
  "fneg (Finite a) = Finite (- a)"
| "fneg PInf = NInf"
| "fneg NInf = PInf"
| "fneg NaN = NaN"

definition fsub :: "c_float \<Rightarrow> c_float \<Rightarrow> c_float" where
  "fsub a b = fadd a (fneg b)"

fun fmul :: "c_float \<Rightarrow> c_float \<Rightarrow> c_float" where
  "fmul NaN b = NaN"
| "fmul a NaN = NaN"
| "fmul (Finite a) (Finite b) = overflow (a * b)"
| "fmul (Finite a) PInf = (if a = 0 then NaN else if 0 < a then PInf else NInf)"
| "fmul (Finite a) NInf = (if a = 0 then NaN else if 0 < a then NInf else PInf)"
| "fmul PInf (Finite b) = (if b = 0 then NaN else if 0 < b then PInf else NInf)"
| "fmul NInf (Finite b) = (if b = 0 then NaN else if 0 < b then NInf else PInf)"
| "fmul PInf PInf = PInf"
| "fmul PInf NInf = NInf"
| "fmul NInf PInf = NInf"
| "fmul NInf NInf = PInf"

text \<open>
  \<open>ftcs_solver\<close> (lines 143-157) with the cells as C \<open>float\<close> values: the same loops and the
  same expression, the operations in the order in which C evaluates them; the constant
  \<open>4\<close> is converted to \<open>float\<close>.
\<close>

definition ftcs_cell_float :: "cfg \<Rightarrow> nat \<Rightarrow> int \<Rightarrow> int \<Rightarrow> c_float proc \<Rightarrow> c_float proc" where
  "ftcs_cell_float c step x y p =
     (let inb = local_temp p (step mod 2);
          outb = local_temp p ((step + 1) mod 2)
      in p\<lparr>local_temp := (local_temp p)((step + 1) mod 2 :=
            wr outb (lti c x y)
              (fadd (rd inb (lti c x y))
                 (fmul (rd (local_material p) (lmi c x y))
                    (fsub (fadd (fadd (fadd (rd inb (lti c (x + 1) y))
                                            (rd inb (lti c (x - 1) y)))
                                      (rd inb (lti c x (y + 1))))
                                (rd inb (lti c x (y - 1))))
                          (fmul (Finite 4) (rd inb (lti c x y)))))))\<rparr>)"

definition ftcs_solver_float :: "cfg \<Rightarrow> nat \<Rightarrow> c_float proc \<Rightarrow> c_float proc" where
  "ftcs_solver_float c step p =
     fold (\<lambda>x. fold (\<lambda>y. ftcs_cell_float c step x y) [0..local_grid_size1 c - 1])
       [0..local_grid_size0 c - 1] p"

subsection \<open>Derived datatypes (\<open>commit_vector_types\<close>, lines 160-177)\<close>

text \<open>
  Modelled from the spec: an MPI derived datatype is geometric metadata (spec 4.3), here
  the list of the offsets of its elements, in units of one \<open>float\<close> and in the order in
  which they are sent, and its extent. \<open>MPI_Type_vector(count, blocklength, stride)\<close> is
  \<open>count\<close> blocks of \<open>blocklength\<close> elements, the blocks \<open>stride\<close> elements apart.
\<close>

record dtype =
  typemap :: "int list"
  extent :: int

definition MPI_FLOAT :: dtype where
  "MPI_FLOAT = \<lparr>typemap = [0], extent = 1\<rparr>"

definition MPI_Type_vector :: "int \<Rightarrow> int \<Rightarrow> int \<Rightarrow> dtype" where
  "MPI_Type_vector count blocklength stride =
     \<lparr>typemap = map (\<lambda>ij. fst ij * stride + snd ij)
                  (List.product [0..count - 1] [0..blocklength - 1]),
      extent = (count - 1) * stride + blocklength\<rparr>"

definition MPI_Type_create_resized :: "dtype \<Rightarrow> int \<Rightarrow> int \<Rightarrow> dtype" where
  "MPI_Type_create_resized ty lb ext = ty\<lparr>extent := ext\<rparr>"

definition border_row :: "cfg \<Rightarrow> dtype" where
  "border_row c = MPI_Type_vector (local_grid_size0 c) 1 1"

definition border_col :: "cfg \<Rightarrow> dtype" where
  "border_col c = MPI_Type_vector (local_grid_size1 c) 1 (local_grid_size0 c + 2)"

definition scatter_big_cart :: "cfg \<Rightarrow> dtype" where
  "scatter_big_cart c =
     MPI_Type_vector (local_grid_size1 c) (local_grid_size0 c) (GRID_SIZE0 c)"

text \<open>The new extent is \<open>sizeof(float)\<close>: one element.\<close>

definition localCart :: "cfg \<Rightarrow> dtype" where
  "localCart c = MPI_Type_create_resized (scatter_big_cart c) 0 1"

definition gather_Temp :: "cfg \<Rightarrow> dtype" where
  "gather_Temp c =
     MPI_Type_vector (local_grid_size1 c) (local_grid_size0 c) (local_grid_size0 c + 2)"

text \<open>
  The cells a communication call touches when it is given the address \<open>&buf[start]\<close>,
  a count and a datatype; what it reads from them (the message), and how it stores a
  message into them.
\<close>

definition cells_of :: "int \<Rightarrow> int \<Rightarrow> dtype \<Rightarrow> int list" where
  "cells_of start count ty =
     concat (map (\<lambda>k. map (\<lambda>off. start + k * extent ty + off) (typemap ty)) [0..count - 1])"

definition pack :: "'a list \<Rightarrow> int \<Rightarrow> int \<Rightarrow> dtype \<Rightarrow> 'a list" where
  "pack buf start count ty = map (rd buf) (cells_of start count ty)"

definition unpack :: "'a list \<Rightarrow> int \<Rightarrow> int \<Rightarrow> dtype \<Rightarrow> 'a list \<Rightarrow> 'a list" where
  "unpack buf start count ty msg = writes (zip (cells_of start count ty) msg) buf"

subsection \<open>Point-to-point communication\<close>

text \<open>
  Modelled from the spec: \<open>MPI_Send\<close> and \<open>MPI_Recv\<close> are library calls. A rank sees the
  transport through its endpoint: for every peer, the messages that peer has sent to it
  and that it has not received yet (\<open>inbox\<close>), and the messages it has sent to that peer
  (\<open>outbox\<close>), oldest first; all calls of the program use the same tag and communicator.
  A send hands the packed cells to the transport and returns (standard-mode sends of the
  rows and columns exchanged here are buffered). A receive takes the oldest message of
  its source and stores it; with nothing to take it blocks, which is the result \<open>None\<close>.
  A send or receive whose peer is the "no neighbour" sentinel is a no-op (spec 4.4).
\<close>

record 'a endpoint =
  inbox :: "nat \<Rightarrow> 'a list list"
  outbox :: "nat \<Rightarrow> 'a list list"

definition MPI_Send ::
  "'a list \<Rightarrow> int \<Rightarrow> int \<Rightarrow> dtype \<Rightarrow> nat option \<Rightarrow> 'a endpoint \<Rightarrow> 'a endpoint" where
  "MPI_Send buf start count ty dest e =
     (case dest of
        None \<Rightarrow> e
      | Some d \<Rightarrow> e\<lparr>outbox := (outbox e)(d := outbox e d @ [pack buf start count ty])\<rparr>)"

definition MPI_Recv ::
  "'a list \<Rightarrow> int \<Rightarrow> int \<Rightarrow> dtype \<Rightarrow> nat option \<Rightarrow> 'a endpoint
     \<Rightarrow> ('a list \<times> 'a endpoint) option" where
  "MPI_Recv buf start count ty src e =
     (case src of
        None \<Rightarrow> Some (buf, e)
      | Some s \<Rightarrow>
          (case inbox e s of
             [] \<Rightarrow> None
           | m # ms \<Rightarrow> Some (unpack buf start count ty m, e\<lparr>inbox := (inbox e)(s := ms)\<rparr>)))"

text \<open>
  The two calls as \<open>border_exchange\<close> makes them: \<open>MPI_Send(&local_temp[b][start], 1, ty,
  dest, 1, cart)\<close> and \<open>MPI_Recv(&local_temp[b][start], 1, ty, src, 1, cart,
  MPI_STATUS_IGNORE)\<close>, on the arrays and the endpoint of one rank.
\<close>

definition send_from ::
  "nat \<Rightarrow> int \<Rightarrow> dtype \<Rightarrow> nat option \<Rightarrow> 'a proc \<times> 'a endpoint \<Rightarrow> 'a proc \<times> 'a endpoint" where
  "send_from b start ty dest pe =
     (fst pe, MPI_Send (local_temp (fst pe) b) start 1 ty dest (snd pe))"

definition recv_into ::
  "nat \<Rightarrow> int \<Rightarrow> dtype \<Rightarrow> nat option \<Rightarrow> 'a proc \<times> 'a endpoint
     \<Rightarrow> ('a proc \<times> 'a endpoint) option" where
  "recv_into b start ty src pe =
     (case MPI_Recv (local_temp (fst pe) b) start 1 ty src (snd pe) of
        None \<Rightarrow> None
      | Some be \<Rightarrow> Some ((fst pe)\<lparr>local_temp := (local_temp (fst pe))(b := fst be)\<rparr>, snd be))"

subsection \<open>\<open>border_exchange\<close> (lines 179-212)\<close>

text \<open>
  The eight calls of rank \<open>r\<close>, in the order of the source. \<open>inb\<close> and \<open>outb\<close> are the
  indices of the buffers the source names \<open>in\<close> and \<open>out\<close>.
\<close>

definition border_exchange_rank ::
  "cfg \<Rightarrow> nat \<Rightarrow> nat \<Rightarrow> 'a proc \<times> 'a endpoint \<Rightarrow> ('a proc \<times> 'a endpoint) option" where
  "border_exchange_rank c r step pe0 =
     (let inb = step mod 2; outb = (step + 1) mod 2 in
      do {
        let pe = send_from outb (lti c 0 0) (border_row c) (north c r) pe0;
        pe \<leftarrow> recv_into inb (lti c 0 (- 1)) (border_row c) (north c r) pe;
        pe \<leftarrow> recv_into inb (lti c 0 (local_grid_size1 c)) (border_row c) (south c r) pe;
        let pe = send_from outb (lti c 0 (local_grid_size1 c)) (border_row c) (south c r) pe;
        let pe = send_from outb (lti c 0 0) (border_col c) (west c r) pe;
        pe \<leftarrow> recv_into inb (lti c (- 1) 0) (border_col c) (west c r) pe;
        pe \<leftarrow> recv_into inb (lti c (local_grid_size0 c) 0) (border_col c) (east c r) pe;
        Some (send_from outb (lti c (local_grid_size0 c - 1) 0) (border_col c) (east c r) pe)
      })"

text \<open>
  The messages rank \<open>r\<close> hands to the transport during the call: its four sends, which
  read the buffer \<open>out\<close> only, while its receives store into \<open>in\<close> only.
\<close>

definition border_sends :: "cfg \<Rightarrow> nat \<Rightarrow> nat \<Rightarrow> 'a proc \<Rightarrow> nat \<Rightarrow> 'a list list" where
  "border_sends c r step p =
     (let outb = (step + 1) mod 2;
          pe = (p, \<lparr>inbox = (\<lambda>s. []), outbox = (\<lambda>d. [])\<rparr>);
          pe = send_from outb (lti c 0 0) (border_row c) (north c r) pe;
          pe = send_from outb (lti c 0 (local_grid_size1 c)) (border_row c) (south c r) pe;
          pe = send_from outb (lti c 0 0) (border_col c) (west c r) pe;
          pe = send_from outb (lti c (local_grid_size0 c - 1) 0) (border_col c) (east c r) pe
      in outbox (snd pe))"

text \<open>
  The call on all ranks. The inbox of a rank holds what the other ranks send to it during
  the call; the result is \<open>None\<close> when a receive of some rank finds no message.
\<close>

definition arriving :: "cfg \<Rightarrow> nat \<Rightarrow> 'a world \<Rightarrow> nat \<Rightarrow> nat \<Rightarrow> 'a list list" where
  "arriving c step W r s =
     (if s < world_size c then border_sends c s step (procs W s) r else [])"

definition border_exchange_at ::
  "cfg \<Rightarrow> nat \<Rightarrow> 'a world \<Rightarrow> nat \<Rightarrow> ('a proc \<times> 'a endpoint) option" where
  "border_exchange_at c step W r =
     border_exchange_rank c r step
       (procs W r, \<lparr>inbox = arriving c step W r, outbox = (\<lambda>d. [])\<rparr>)"

definition border_exchange :: "cfg \<Rightarrow> nat \<Rightarrow> 'a world \<Rightarrow> 'a world option" where
  "border_exchange c step W =
     (if list_all (\<lambda>r. border_exchange_at c step W r \<noteq> None) [0..<world_size c]
      then Some (on_all c (\<lambda>r p. fst (the (border_exchange_at c step W r))) W)
      else None)"

subsection \<open>Collective communication (lines 215-236)\<close>

text \<open>
  Modelled from the spec: \<open>MPI_Scatterv\<close> and \<open>MPI_Gatherv\<close> with root 0 (spec 4.6). The
  block of rank \<open>r\<close> starts \<open>displs[r]\<close> extents of the root's datatype after the address
  given for the root's array and holds \<open>sendcounts[r]\<close> elements of that datatype.
\<close>

definition root_start :: "'a world \<Rightarrow> int \<Rightarrow> dtype \<Rightarrow> nat \<Rightarrow> int" where
  "root_start W start ty r = start + rd (displs W) (int r) * extent ty"

definition gather_temp :: "cfg \<Rightarrow> nat \<Rightarrow> 'a world \<Rightarrow> 'a world" where
  "gather_temp c step W =
     W\<lparr>temperature :=
         fold (\<lambda>r t. unpack t (root_start W (ti c 0 0) (localCart c) r)
                        (rd (sendcounts W) (int r)) (localCart c)
                        (pack (local_temp (procs W r) (step mod 2)) (lti c 0 0) 1 (gather_Temp c)))
           [0..<world_size c] (temperature W)\<rparr>"

definition scatter_temp :: "cfg \<Rightarrow> 'a world \<Rightarrow> 'a world" where
  "scatter_temp c W =
     on_all c (\<lambda>r p. p\<lparr>local_temp := (local_temp p)(0 :=
        unpack (local_temp p 0) (lti c 0 0) 1 (gather_Temp c)
          (pack (temperature W) (root_start W (ti c 0 0) (localCart c) r)
             (rd (sendcounts W) (int r)) (localCart c)))\<rparr>) W"

subsection \<open>\<open>helpFunctionForDisplacement\<close> (lines 462-481), on rank 0\<close>

definition displacement_entry :: "cfg \<Rightarrow> int \<Rightarrow> int \<Rightarrow> 'a world \<Rightarrow> 'a world" where
  "displacement_entry c y x W =
     (let position = int (MPI_Cart_rank c (x, y));
          dis_y = local_grid_size1 c * GRID_SIZE0 c * y;
          dis_x = local_grid_size0 c * x
      in W\<lparr>displs := wr (displs W) position (dis_y + dis_x),
           sendcounts := wr (sendcounts W) position 1\<rparr>)"

definition helpFunctionForDisplacement :: "cfg \<Rightarrow> 'a world \<Rightarrow> 'a world" where
  "helpFunctionForDisplacement c W =
     fold (\<lambda>y. fold (\<lambda>x. displacement_entry c y x) [0..dims0 c - 1]) [0..dims1 c - 1] W"

definition scatter_material :: "cfg \<Rightarrow> 'a world \<Rightarrow> 'a world" where
  "scatter_material c W0 =
     (let W = helpFunctionForDisplacement c W0 in
      on_all c (\<lambda>r p. p\<lparr>local_material :=
        unpack (local_material p) (lmi c 0 0) (local_grid_size1 c * local_grid_size0 c) MPI_FLOAT
          (pack (material W) (root_start W (mi c 0 0) (localCart c) r)
             (rd (sendcounts W) (int r)) (localCart c))\<rparr>) W)"

subsection \<open>Initialisation and the external heat source (lines 311-370)\<close>

definition external_heat_cell :: "cfg \<Rightarrow> nat \<Rightarrow> nat \<Rightarrow> int \<Rightarrow> int \<Rightarrow> real proc \<Rightarrow> real proc" where
  "external_heat_cell c r step x y p =
     (if inside c r x y
      then p\<lparr>local_temp := (local_temp p)(step mod 2 :=
             wr (local_temp p (step mod 2))
               (lti c (x - local_origin0 c r) (y - local_origin1 c r)) 100)\<rparr>
      else p)"

definition external_heat :: "cfg \<Rightarrow> nat \<Rightarrow> nat \<Rightarrow> real proc \<Rightarrow> real proc" where
  "external_heat c r step p =
     fold (\<lambda>x. fold (\<lambda>y. external_heat_cell c r step x y)
                 [GRID_SIZE1 c div 2 - GRID_SIZE1 c div 16 .. GRID_SIZE1 c div 2 + GRID_SIZE1 c div 16])
       [GRID_SIZE0 c div 4 .. 3 * GRID_SIZE0 c div 4] p"

definition init_local_cell :: "cfg \<Rightarrow> int \<Rightarrow> int \<Rightarrow> real proc \<Rightarrow> real proc" where
  "init_local_cell c x y p0 =
     (let p = p0\<lparr>local_temp := (local_temp p0)(1 := wr (local_temp p0 1) (lti c x y) 10)\<rparr>
      in p\<lparr>local_temp := (local_temp p)(0 := wr (local_temp p 0) (lti c x y) 10)\<rparr>)"

definition init_local_temp :: "cfg \<Rightarrow> real proc \<Rightarrow> real proc" where
  "init_local_temp c p =
     fold (\<lambda>x. fold (\<lambda>y. init_local_cell c x y) [- BORDER .. local_grid_size1 c + BORDER - 1])
       [- BORDER .. local_grid_size0 c + BORDER - 1] p"

text \<open>
  The loops of \<open>init_temp_material\<close> store into \<open>material\<close> alone, or into \<open>material\<close> and
  \<open>temperature\<close>; \<open>fill\<close> is one such loop nest over \<open>x\<close> (outer) and \<open>y\<close> (inner).
\<close>

definition fill_material :: "cfg \<Rightarrow> real \<Rightarrow> int \<Rightarrow> int \<Rightarrow> real world \<Rightarrow> real world" where
  "fill_material c m x y W = W\<lparr>material := wr (material W) (mi c x y) m\<rparr>"

definition fill_temperature :: "cfg \<Rightarrow> real \<Rightarrow> int \<Rightarrow> int \<Rightarrow> real world \<Rightarrow> real world" where
  "fill_temperature c t x y W = W\<lparr>temperature := wr (temperature W) (ti c x y) t\<rparr>"

definition init_temp_material :: "cfg \<Rightarrow> real world \<Rightarrow> real world" where
  "init_temp_material c W0 =
     (let W = fold (\<lambda>x. fold (\<lambda>y. fill_material c (MERCURY * (dt / h * h)) x y)
                           [- (BORDER - 1) .. GRID_SIZE1 c + (BORDER - 1) - 1])
                [- (BORDER - 1) .. GRID_SIZE0 c + (BORDER - 1) - 1] W0;
          W = fold (\<lambda>x. fold (\<lambda>y W. fill_material c (MERCURY * (dt / h * h)) x y
                                      (fill_temperature c 20 x y W))
                           [0 .. GRID_SIZE1 c - 1])
                [0 .. GRID_SIZE0 c - 1] W;
          W = fold (\<lambda>x. fold (\<lambda>y W. fill_temperature c 60 x y
                                      (fill_material c (COPPER * (dt / (h * h))) x y W))
                           [GRID_SIZE1 c div 8 .. 3 * GRID_SIZE1 c div 8 - 1])
                [5 * GRID_SIZE0 c div 8 .. 7 * GRID_SIZE0 c div 8 - 1] W;
          W = fold (\<lambda>x. fold (\<lambda>y W. fill_temperature c 60 x y
                                      (fill_material c (TIN * (dt / (h * h))) x y W))
                           [5 * GRID_SIZE1 c div 8 .. 7 * GRID_SIZE1 c div 8 - 1])
                [GRID_SIZE0 c div 8 .. GRID_SIZE0 c div 2 - GRID_SIZE0 c div 8 - 1] W;
          W = fold (\<lambda>x. fold (\<lambda>y W. fill_temperature c 100 x y
                                      (fill_material c (ALUMINIUM * (dt / (h * h))) x y W))
                           [GRID_SIZE1 c div 2 - GRID_SIZE1 c div 16 ..
                            GRID_SIZE1 c div 2 + GRID_SIZE1 c div 16])
                [GRID_SIZE0 c div 4 .. 3 * GRID_SIZE0 c div 4] W
      in W)"

subsection \<open>\<open>main\<close> (lines 238-308)\<close>

text \<open>The allocations of lines 257-276, on all ranks.\<close>

definition allocate :: "cfg \<Rightarrow> real world" where
  "allocate c =
     \<lparr>procs = (\<lambda>r.
        \<lparr>local_material =
           calloc ((local_grid_size0 c + 2 * (BORDER - 1)) * (local_grid_size1 c + 2 * (BORDER - 1))),
         local_temp =
           (\<lambda>b. calloc ((local_grid_size0 c + 2 * BORDER) * (local_grid_size1 c + 2 * BORDER)))\<rparr>),
      material = calloc ((GRID_SIZE0 c + 2 * (BORDER - 1)) * (GRID_SIZE1 c + 2 * (BORDER - 1))),
      temperature = calloc (GRID_SIZE0 c * GRID_SIZE1 c),
      displs = calloc (int (world_size c)),
      sendcounts = calloc (int (world_size c))\<rparr>"

text \<open>
  Lines 257-279. The function that fills the global arrays on rank 0 is a parameter, so
  that a run can start from a field other than the one of \<open>init_temp_material\<close>, such as
  a uniform temperature \<open>t\<close> over a uniform material \<open>m\<close>.
\<close>

definition uniform_fields :: "cfg \<Rightarrow> real \<Rightarrow> real \<Rightarrow> real world \<Rightarrow> real world" where
  "uniform_fields c t m W =
     W\<lparr>temperature := replicate (nat (GRID_SIZE0 c * GRID_SIZE1 c)) t,
       material := replicate (nat (GRID_SIZE0 c * GRID_SIZE1 c)) m\<rparr>"

definition startup :: "cfg \<Rightarrow> (real world \<Rightarrow> real world) \<Rightarrow> real world" where
  "startup c init =
     scatter_temp c (scatter_material c (on_all c (\<lambda>r. init_local_temp c) (init (allocate c))))"

text \<open>
  Lines 287-288: the border exchange and the stencil update of one step; and one iteration
  of the integration loop (lines 283-296), without the file output.
\<close>

definition exchange_and_update :: "cfg \<Rightarrow> nat \<Rightarrow> real world \<Rightarrow> real world option" where
  "exchange_and_update c step W0 =
     do {
       W \<leftarrow> border_exchange c step W0;
       Some (on_all c (\<lambda>r. ftcs_solver c step) W)
     }"

definition iteration :: "cfg \<Rightarrow> nat \<Rightarrow> real world \<Rightarrow> real world option" where
  "iteration c step W0 =
     (let W = (if step < CUTOFF then on_all c (\<lambda>r. external_heat c r step) W0 else W0) in
      do {
        W \<leftarrow> exchange_and_update c step W;
        Some (if step mod SNAPSHOT = 0 then gather_temp c step W else W)
      })"

fun iterations :: "cfg \<Rightarrow> nat list \<Rightarrow> real world \<Rightarrow> real world option" where
  "iterations c [] W = Some W"
| "iterations c (step # steps) W =
     (case iteration c step W of None \<Rightarrow> None | Some W' \<Rightarrow> iterations c steps W')"

definition main :: "cfg \<Rightarrow> real world option" where
  "main c = iterations c [0..<NSTEPS] (startup c (init_temp_material c))"
section \<open>Auxiliary notions for the statements\<close>

text \<open>The value \<open>ftcs_solver\<close> stores at the local coordinate \<open>xy\<close>.\<close>

definition ftcs_value :: "cfg \<Rightarrow> real list \<Rightarrow> real list \<Rightarrow> int \<times> int \<Rightarrow> real" where
  "ftcs_value c inb mat xy =
     rd inb (lti c (fst xy) (snd xy)) + rd mat (lmi c (fst xy) (snd xy)) *
       (rd inb (lti c (fst xy + 1) (snd xy)) +
        rd inb (lti c (fst xy - 1) (snd xy)) +
        rd inb (lti c (fst xy) (snd xy + 1)) +
        rd inb (lti c (fst xy) (snd xy - 1)) -
        4 * rd inb (lti c (fst xy) (snd xy)))"

text \<open>What \<open>main\<close> establishes before the loop: a mesh, and arrays of the allocated sizes.\<close>

definition valid_cfg :: "cfg \<Rightarrow> bool" where
  "valid_cfg c = (0 < dims0 c \<and> 0 < dims1 c \<and> 0 \<le> GRID_SIZE0 c \<and> 0 \<le> GRID_SIZE1 c)"

definition alloc_proc :: "cfg \<Rightarrow> 'a proc \<Rightarrow> bool" where
  "alloc_proc c p =
     (int (length (local_temp p 0)) = (local_grid_size0 c + 2) * (local_grid_size1 c + 2) \<and>
      int (length (local_temp p 1)) = (local_grid_size0 c + 2) * (local_grid_size1 c + 2) \<and>
      int (length (local_material p)) = local_grid_size0 c * local_grid_size1 c)"

subsection \<open>Small configurations and states\<close>

text \<open>One rank that owns a 2 by 2 grid: its buffers have 4 by 4 cells.\<close>

definition ex_cfg :: cfg where
  "ex_cfg = \<lparr>GRID_SIZE0 = 2, GRID_SIZE1 = 2, dims0 = 1, dims1 = 1\<rparr>"

definition ex_proc :: "real proc" where
  "ex_proc =
     \<lparr>local_material = [1 / 10, 1 / 10, 2 / 10, 2 / 10],
      local_temp = (\<lambda>b. if b = 0 then [0, 1, 2, 3, 4, 5, 7, 7, 8, 9, 10, 11, 12, 13, 14, 15]
                         else replicate 16 10)\<rparr>"

text \<open>The mesh coordinates \<open>(y, x)\<close> in the order in which the loops of \<open>helpFunctionForDisplacement\<close> visit them.\<close>

definition mesh_order :: "cfg \<Rightarrow> (int \<times> int) list" where
  "mesh_order c = List.product [0..dims1 c - 1] [0..dims0 c - 1]"

text \<open>A 2 by 2 mesh over a 4 by 4 grid.\<close>

definition mesh2x2 :: cfg where
  "mesh2x2 = \<lparr>GRID_SIZE0 = 4, GRID_SIZE1 = 4, dims0 = 2, dims1 = 2\<rparr>"

text \<open>The arrays of all ranks and of the root have the sizes \<open>main\<close> allocates.\<close>

definition allocated :: "cfg \<Rightarrow> 'a world \<Rightarrow> bool" where
  "allocated c W =
     (list_all (\<lambda>r. alloc_proc c (procs W r)) [0..<world_size c] \<and>
      int (length (temperature W)) = GRID_SIZE0 c * GRID_SIZE1 c \<and>
      int (length (material W)) = GRID_SIZE0 c * GRID_SIZE1 c \<and>
      length (displs W) = world_size c \<and>
      length (sendcounts W) = world_size c)"

text \<open>\<open>displs\<close> and \<open>sendcounts\<close> hold what \<open>helpFunctionForDisplacement\<close> stores.\<close>

definition tables_ready :: "cfg \<Rightarrow> 'a world \<Rightarrow> bool" where
  "tables_ready c W =
     list_all (\<lambda>yx. rd (displs W) (int (MPI_Cart_rank c (snd yx, fst yx))) =
                      local_grid_size1 c * GRID_SIZE0 c * fst yx + local_grid_size0 c * snd yx \<and>
                    rd (sendcounts W) (int (MPI_Cart_rank c (snd yx, fst yx))) = 1)
       (mesh_order c)"

text \<open>The interior coordinates \<open>(y, x)\<close> of a rank, row by row.\<close>

definition block :: "cfg \<Rightarrow> (int \<times> int) list" where
  "block c = List.product [0..local_grid_size1 c - 1] [0..local_grid_size0 c - 1]"

text \<open>The 2 by 2 mesh with the tables filled and a field of sixteen different values on the root.\<close>

definition field16 :: "real world" where
  "field16 = helpFunctionForDisplacement mesh2x2
     ((allocate mesh2x2)\<lparr>temperature := [1, 2, 3, 4, 5, 6, 7, 8, 9, 10, 11, 12, 13, 14, 15, 16]\<rparr>)"

text \<open>Local coordinates: the cells a rank owns, and the ghost cells around them.\<close>

definition interior :: "cfg \<Rightarrow> int \<Rightarrow> int \<Rightarrow> bool" where
  "interior c x y = (0 \<le> x \<and> x < local_grid_size0 c \<and> 0 \<le> y \<and> y < local_grid_size1 c)"

definition ghost :: "cfg \<Rightarrow> int \<Rightarrow> int \<Rightarrow> bool" where
  "ghost c x y =
     (- 1 \<le> x \<and> x \<le> local_grid_size0 c \<and> - 1 \<le> y \<and> y \<le> local_grid_size1 c \<and>
      \<not> interior c x y)"

text \<open>
  The effect of receiving a row or a column that a neighbour packed: the cells of row \<open>y0\<close>
  (column \<open>x0\<close>) of \<open>buf\<close> get the cells of row \<open>y1\<close> (column \<open>x1\<close>) of \<open>src\<close>; and the
  buffer \<open>in\<close> of rank \<open>r\<close> once its four receives are done.
\<close>

definition row_copy :: "cfg \<Rightarrow> 'a list \<Rightarrow> int \<Rightarrow> 'a list \<Rightarrow> int \<Rightarrow> 'a list" where
  "row_copy c buf y0 src y1 =
     writes (map (\<lambda>x. (lti c x y0, rd src (lti c x y1))) [0..local_grid_size0 c - 1]) buf"

definition col_copy :: "cfg \<Rightarrow> 'a list \<Rightarrow> int \<Rightarrow> 'a list \<Rightarrow> int \<Rightarrow> 'a list" where
  "col_copy c buf x0 src x1 =
     writes (map (\<lambda>y. (lti c x0 y, rd src (lti c x1 y))) [0..local_grid_size1 c - 1]) buf"

definition halo_buffer :: "cfg \<Rightarrow> nat \<Rightarrow> 'a world \<Rightarrow> nat \<Rightarrow> 'a list" where
  "halo_buffer c step W r =
     (let outb = (\<lambda>n. local_temp (procs W n) ((step + 1) mod 2));
          b = local_temp (procs W r) (step mod 2);
          b = (case north c r of None \<Rightarrow> b
               | Some n \<Rightarrow> row_copy c b (- 1) (outb n) (local_grid_size1 c));
          b = (case south c r of None \<Rightarrow> b
               | Some s \<Rightarrow> row_copy c b (local_grid_size1 c) (outb s) 0);
          b = (case west c r of None \<Rightarrow> b
               | Some w \<Rightarrow> col_copy c b (- 1) (outb w) (local_grid_size0 c - 1));
          b = (case east c r of None \<Rightarrow> b
               | Some e \<Rightarrow> col_copy c b (local_grid_size0 c) (outb e) 0)
      in b)"

text \<open>What one receive does to the buffer and to the inbox.\<close>

definition recv_buf :: "'a list \<Rightarrow> int \<Rightarrow> dtype \<Rightarrow> nat option \<Rightarrow> (nat \<Rightarrow> 'a list list) \<Rightarrow> 'a list" where
  "recv_buf buf start ty src ib =
     (case src of None \<Rightarrow> buf | Some s \<Rightarrow> unpack buf start 1 ty (hd (ib s)))"

definition after_recv :: "nat option \<Rightarrow> (nat \<Rightarrow> 'a list list) \<Rightarrow> nat \<Rightarrow> 'a list list" where
  "after_recv src ib = (case src of None \<Rightarrow> ib | Some s \<Rightarrow> ib(s := tl (ib s)))"

text \<open>
  An initialiser of the global arrays that leaves the arrays of the ranks and the sizes
  of the root's arrays as \<open>main\<close> allocated them.
\<close>

definition keeps_layout :: "cfg \<Rightarrow> (real world \<Rightarrow> real world) \<Rightarrow> bool" where
  "keeps_layout c init =
     (procs (init (allocate c)) = procs (allocate c) \<and>
      length (displs (init (allocate c))) = world_size c \<and>
      length (sendcounts (init (allocate c))) = world_size c \<and>
      int (length (material (init (allocate c)))) = GRID_SIZE0 c * GRID_SIZE1 c \<and>
      int (length (temperature (init (allocate c)))) = GRID_SIZE0 c * GRID_SIZE1 c)"

text \<open>
  An 8 by 8 grid on a 2 by 2 mesh, four ranks with \<open>local_grid_size = [4, 4]\<close>, started as
  \<open>main\<close> does from a uniform temperature 20.0 over a uniform material \<open>m\<close>.
\<close>

definition mesh8 :: cfg where
  "mesh8 = \<lparr>GRID_SIZE0 = 8, GRID_SIZE1 = 8, dims0 = 2, dims1 = 2\<rparr>"

definition scenario8 :: "real \<Rightarrow> real world" where
  "scenario8 m = startup mesh8 (uniform_fields mesh8 20 m)"

text \<open>The value \<open>ftcs_solver\<close> stores at the local coordinate \<open>xy\<close>, in C \<open>float\<close>.\<close>

definition ftcs_value_float :: "cfg \<Rightarrow> c_float list \<Rightarrow> c_float list \<Rightarrow> int \<times> int \<Rightarrow> c_float" where
  "ftcs_value_float c inb mat xy =
     fadd (rd inb (lti c (fst xy) (snd xy)))
       (fmul (rd mat (lmi c (fst xy) (snd xy)))
          (fsub (fadd (fadd (fadd (rd inb (lti c (fst xy + 1) (snd xy)))
                                  (rd inb (lti c (fst xy - 1) (snd xy))))
                            (rd inb (lti c (fst xy) (snd xy + 1))))
                      (rd inb (lti c (fst xy) (snd xy - 1))))
                (fmul (Finite 4) (rd inb (lti c (fst xy) (snd xy))))))"

text \<open>
  One rank that owns a 2 by 2 grid, every cell of both buffers at \<open>2 ^ 127\<close>, a value of
  \<open>float\<close> below \<open>FLT_MAX\<close>, over a uniform material \<open>1 / 8\<close>.
\<close>

definition ex_huge :: "c_float proc" where
  "ex_huge = \<lparr>local_material = replicate 4 (Finite (1 / 8)),
              local_temp = (\<lambda>b. replicate 16 (Finite (2 ^ 127)))\<rparr>"

definition ex_uniform_float :: "c_float proc" where
  "ex_uniform_float = \<lparr>local_material = replicate 4 (Finite (1 / 8)),
                       local_temp = (\<lambda>b. replicate 16 (Finite 20))\<rparr>"

text \<open>
  The arrays of a rank read as C \<open>float\<close> values, and the results of the operations of the
  stencil expression at the local coordinate \<open>xy\<close>, in the order in which C evaluates them.
\<close>

definition to_float :: "real proc \<Rightarrow> c_float proc" where
  "to_float p = \<lparr>local_material = map Finite (local_material p),
                 local_temp = (\<lambda>b. map Finite (local_temp p b))\<rparr>"

definition ftcs_partial_results :: "cfg \<Rightarrow> real list \<Rightarrow> real list \<Rightarrow> int \<times> int \<Rightarrow> real list" where
  "ftcs_partial_results c inb mat xy =
     (let ctr = rd inb (lti c (fst xy) (snd xy));
          s1 = rd inb (lti c (fst xy + 1) (snd xy)) + rd inb (lti c (fst xy - 1) (snd xy));
          s2 = s1 + rd inb (lti c (fst xy) (snd xy + 1));
          s3 = s2 + rd inb (lti c (fst xy) (snd xy - 1));
          q = 4 * ctr;
          d = s3 - q;
          pr = rd mat (lmi c (fst xy) (snd xy)) * d
      in [s1, s2, s3, q, d, pr, ctr + pr])"

text \<open>The state of an iteration of the loop of \<open>main\<close> after its call of \<open>external_heat\<close>.\<close>

definition heated :: "cfg \<Rightarrow> nat \<Rightarrow> real world \<Rightarrow> real world" where
  "heated c step W = (if step < CUTOFF then on_all c (\<lambda>r. external_heat c r step) W else W)"
section \<open>Arrays and loops\<close>

lemma length_wr [simp]: "length (wr xs i v) = length xs"
  by (simp add: wr_def)

lemma rd_wr_same: "0 \<le> i \<Longrightarrow> i < int (length xs) \<Longrightarrow> rd (wr xs i v) i = v"
  by (simp add: rd_def wr_def)

lemma rd_wr_other: "i \<noteq> j \<Longrightarrow> rd (wr xs i v) j = rd xs j"
  by (auto simp: rd_def wr_def nat_eq_iff)

lemma wr_rd_id [simp]: "wr xs i (rd xs i) = xs"
  by (simp add: rd_def wr_def)

lemma list_eq_rdI:
  assumes "length xs = length ys"
    and "\<And>i. 0 \<le> i \<Longrightarrow> i < int (length xs) \<Longrightarrow> rd xs i = rd ys i"
  shows "xs = ys"
proof (rule nth_equalityI)
  show "length xs = length ys" by fact
next
  fix k assume k: "k < length xs"
  have "rd xs (int k) = rd ys (int k)" using k assms(2) by simp
  then show "xs ! k = ys ! k" using k assms(1) by (simp add: rd_def)
qed

lemma writes_Nil [simp]: "writes [] xs = xs"
  by (simp add: writes_def)

lemma writes_Cons [simp]: "writes (w # ws) xs = writes ws (wr xs (fst w) (snd w))"
  by (simp add: writes_def)

lemma writes_append: "writes (ws @ vs) xs = writes vs (writes ws xs)"
  by (simp add: writes_def)

lemma length_writes [simp]: "length (writes ws xs) = length xs"
  by (induction ws arbitrary: xs) auto

lemma rd_writes_notin: "i \<notin> fst ` set ws \<Longrightarrow> rd (writes ws xs) i = rd xs i"
  by (induction ws arbitrary: xs) (auto simp: rd_wr_other)

lemma rd_writes_in:
  "distinct (map fst ws) \<Longrightarrow> (i, v) \<in> set ws \<Longrightarrow> 0 \<le> i \<Longrightarrow> i < int (length xs)
   \<Longrightarrow> rd (writes ws xs) i = v"
proof (induction ws arbitrary: xs)
  case Nil
  then show ?case by simp
next
  case (Cons w ws)
  show ?case
  proof (cases "w = (i, v)")
    case True
    then have "i \<notin> fst ` set ws" using Cons.prems(1) by auto
    then show ?thesis using True Cons.prems by (simp add: rd_writes_notin rd_wr_same)
  next
    case False
    then show ?thesis using Cons by auto
  qed
qed

lemma writes_same:
  "(\<And>i v. (i, v) \<in> set ws \<Longrightarrow> v = rd xs i) \<Longrightarrow> writes ws xs = xs"
proof (induction ws)
  case Nil
  then show ?case by simp
next
  case (Cons w ws)
  have "snd w = rd xs (fst w)" using Cons.prems[of "fst w" "snd w"] by simp
  then have "wr xs (fst w) (snd w) = xs" by simp
  moreover have "writes ws xs = xs" using Cons by simp
  ultimately show ?case by simp
qed

lemma fold_fold_product:
  "fold (\<lambda>x. fold (\<lambda>y. f x y) ys) xs = fold (\<lambda>xy. f (fst xy) (snd xy)) (List.product xs ys)"
  by (induction xs) (auto simp: fold_map comp_def)

lemma lin_inj:
  fixes m :: int
  assumes "0 \<le> a" "a < m" "0 \<le> b" "b < m" "q * m + a = q' * m + b"
  shows "q = q' \<and> a = b"
proof -
  have m: "m \<noteq> 0" using assms by auto
  have A: "(q * m + a) div m = q" using assms(1,2) m by (simp add: div_pos_pos_trivial)
  have B: "(q' * m + b) div m = q'" using assms(3,4) m by (simp add: div_pos_pos_trivial)
  have "(q * m + a) div m = (q' * m + b) div m" by (simp only: assms(5))
  then have "q = q'" by (simp only: A B)
  then show ?thesis using assms(5) by simp
qed


section \<open>The stencil update\<close>

lemma parity_neq: "(step + 1) mod 2 \<noteq> step mod (2::nat)"
  by presburger

lemma ftcs_cell_eq:
  "ftcs_cell c step x y p =
     p\<lparr>local_temp := (local_temp p)((step + 1) mod 2 :=
        wr (local_temp p ((step + 1) mod 2)) (lti c x y)
          (ftcs_value c (local_temp p (step mod 2)) (local_material p) (x, y)))\<rparr>"
  by (simp add: ftcs_cell_def ftcs_value_def Let_def)

lemma ftcs_cells:
  "fold (\<lambda>xy. ftcs_cell c step (fst xy) (snd xy)) cs p =
     p\<lparr>local_temp := (local_temp p)((step + 1) mod 2 :=
        writes (map (\<lambda>xy. (lti c (fst xy) (snd xy),
                           ftcs_value c (local_temp p (step mod 2)) (local_material p) xy)) cs)
          (local_temp p ((step + 1) mod 2)))\<rparr>"
proof (induction cs arbitrary: p)
  case Nil
  then show ?case by simp
next
  case (Cons a cs)
  let ?p = "ftcs_cell c step (fst a) (snd a) p"
  have keep: "local_temp ?p (step mod 2) = local_temp p (step mod 2)"
    "local_material ?p = local_material p"
    using parity_neq[of step] by (simp_all add: ftcs_cell_eq)
  have "fold (\<lambda>xy. ftcs_cell c step (fst xy) (snd xy)) (a # cs) p =
        fold (\<lambda>xy. ftcs_cell c step (fst xy) (snd xy)) cs ?p"
    by simp
  also have "\<dots> = ?p\<lparr>local_temp := (local_temp ?p)((step + 1) mod 2 :=
        writes (map (\<lambda>xy. (lti c (fst xy) (snd xy),
                           ftcs_value c (local_temp ?p (step mod 2)) (local_material ?p) xy)) cs)
          (local_temp ?p ((step + 1) mod 2)))\<rparr>"
    by (rule Cons.IH)
  also have "\<dots> = p\<lparr>local_temp := (local_temp p)((step + 1) mod 2 :=
        writes (map (\<lambda>xy. (lti c (fst xy) (snd xy),
                           ftcs_value c (local_temp p (step mod 2)) (local_material p) xy)) (a # cs))
          (local_temp p ((step + 1) mod 2)))\<rparr>"
    unfolding keep by (simp add: ftcs_cell_eq)
  finally show ?case .
qed

lemma ftcs_solver_eq:
  "ftcs_solver c step p =
     p\<lparr>local_temp := (local_temp p)((step + 1) mod 2 :=
        writes (map (\<lambda>xy. (lti c (fst xy) (snd xy),
                           ftcs_value c (local_temp p (step mod 2)) (local_material p) xy))
                  (List.product [0..local_grid_size0 c - 1] [0..local_grid_size1 c - 1]))
          (local_temp p ((step + 1) mod 2)))\<rparr>"
  unfolding ftcs_solver_def fold_fold_product by (rule ftcs_cells)


lemma lin_range:
  fixes m :: int
  assumes "0 \<le> a" "a < m" "0 \<le> q" "q < n"
  shows "0 \<le> q * m + a" "q * m + a < m * n"
proof -
  show "0 \<le> q * m + a" using assms by simp
  have "q * m + a < (q + 1) * m" using assms by (simp add: algebra_simps)
  also have "\<dots> \<le> n * m" using assms by (intro mult_right_mono) auto
  finally show "q * m + a < m * n" by (simp add: mult.commute)
qed

lemma lgs_nonneg:
  assumes "valid_cfg c"
  shows "0 \<le> local_grid_size0 c" "0 \<le> local_grid_size1 c"
  using assms by (simp_all add: valid_cfg_def local_grid_size0_def local_grid_size1_def pos_imp_zdiv_nonneg_iff)

lemma lti_inj:
  assumes "- 1 \<le> x" "x \<le> local_grid_size0 c" "- 1 \<le> x'" "x' \<le> local_grid_size0 c"
    and "lti c x y = lti c x' y'"
  shows "x = x' \<and> y = y'"
proof -
  have "(y + 1) * (local_grid_size0 c + 2) + (x + 1) = (y' + 1) * (local_grid_size0 c + 2) + (x' + 1)"
    using assms(5) by (simp add: lti_def BORDER_def)
  from lin_inj[OF _ _ _ _ this] assms(1-4) show ?thesis by auto
qed

lemma lti_range:
  assumes "- 1 \<le> x" "x \<le> local_grid_size0 c" "- 1 \<le> y" "y \<le> local_grid_size1 c"
  shows "0 \<le> lti c x y" "lti c x y < (local_grid_size0 c + 2) * (local_grid_size1 c + 2)"
proof -
  have e: "lti c x y = (y + 1) * (local_grid_size0 c + 2) + (x + 1)"
    by (simp add: lti_def BORDER_def)
  show "0 \<le> lti c x y" unfolding e using assms by (intro lin_range(1)[where n = "local_grid_size1 c + 2"]) auto
  show "lti c x y < (local_grid_size0 c + 2) * (local_grid_size1 c + 2)"
    unfolding e using assms by (intro lin_range(2)) auto
qed

lemma lti_inj_on_interior:
  "inj_on (\<lambda>xy. lti c (fst xy) (snd xy)) ({- 1..local_grid_size0 c} \<times> UNIV)"
  by (rule inj_onI) (auto dest: lti_inj simp: prod_eq_iff)

lemma distinct_lti_cells:
  assumes "distinct cs" "fst ` set cs \<subseteq> {- 1..local_grid_size0 c}"
  shows "distinct (map (\<lambda>xy. lti c (fst xy) (snd xy)) cs)"
proof -
  have "inj_on (\<lambda>xy. lti c (fst xy) (snd xy)) (set cs)"
    by (rule inj_on_subset[OF lti_inj_on_interior]) (use assms(2) in auto)
  then show ?thesis using assms(1) by (simp add: distinct_map)
qed

lemma in_set_mapI: "x \<in> set xs \<Longrightarrow> y = f x \<Longrightarrow> y \<in> set (map f xs)"
  by auto

lemma ftcs_solver_in_unchanged:
  "local_temp (ftcs_solver c step p) (step mod 2) = local_temp p (step mod 2)"
  using parity_neq[of step] by (simp add: ftcs_solver_eq)

lemma ftcs_solver_material_unchanged:
  "local_material (ftcs_solver c step p) = local_material p"
  by (simp add: ftcs_solver_eq)

lemma ftcs_solver_length:
  "length (local_temp (ftcs_solver c step p) b) = length (local_temp p b)"
  by (simp add: ftcs_solver_eq)

lemma ftcs_solver_interior:
  assumes "int (length (local_temp p ((step + 1) mod 2))) =
             (local_grid_size0 c + 2) * (local_grid_size1 c + 2)"
    and "0 \<le> x" "x < local_grid_size0 c" "0 \<le> y" "y < local_grid_size1 c"
  shows "rd (local_temp (ftcs_solver c step p) ((step + 1) mod 2)) (lti c x y) =
         ftcs_value c (local_temp p (step mod 2)) (local_material p) (x, y)"
proof -
  let ?cs = "List.product [0..local_grid_size0 c - 1] [0..local_grid_size1 c - 1]"
  let ?ws = "map (\<lambda>xy. (lti c (fst xy) (snd xy),
                ftcs_value c (local_temp p (step mod 2)) (local_material p) xy)) ?cs"
  have d: "distinct (map fst ?ws)"
    using distinct_lti_cells[of ?cs c] by (auto simp: comp_def distinct_product)
  have m: "(lti c x y, ftcs_value c (local_temp p (step mod 2)) (local_material p) (x, y)) \<in> set ?ws"
  proof -
    have "(x, y) \<in> set ?cs" using assms(2-5) by simp
    then show ?thesis by (rule in_set_mapI) simp
  qed
  have r: "0 \<le> lti c x y" "lti c x y < int (length (local_temp p ((step + 1) mod 2)))"
    using lti_range[of x c y] assms by auto
  show ?thesis
    using rd_writes_in[OF d m r] by (simp add: ftcs_solver_eq)
qed

lemma ftcs_solver_other:
  assumes "\<not> (0 \<le> x \<and> x < local_grid_size0 c \<and> 0 \<le> y \<and> y < local_grid_size1 c)"
    and "- 1 \<le> x" "x \<le> local_grid_size0 c"
  shows "rd (local_temp (ftcs_solver c step p) b) (lti c x y) = rd (local_temp p b) (lti c x y)"
proof (cases "b = (step + 1) mod 2")
  case True
  let ?cs = "List.product [0..local_grid_size0 c - 1] [0..local_grid_size1 c - 1]"
  let ?ws = "map (\<lambda>xy. (lti c (fst xy) (snd xy),
                ftcs_value c (local_temp p (step mod 2)) (local_material p) xy)) ?cs"
  have "lti c x y \<notin> fst ` set ?ws"
  proof
    assume "lti c x y \<in> fst ` set ?ws"
    then obtain x' y' where xy: "0 \<le> x'" "x' \<le> local_grid_size0 c - 1" "0 \<le> y'"
      "y' \<le> local_grid_size1 c - 1" "lti c x y = lti c x' y'"
      by (auto simp: image_iff)
    from lti_inj[OF assms(2,3) _ _ xy(5)] xy(1,2) have "x = x' \<and> y = y'" by auto
    with xy assms(1) show False by auto
  qed
  then show ?thesis using True by (simp add: ftcs_solver_eq rd_writes_notin)
next
  case False
  then show ?thesis by (simp add: ftcs_solver_eq)
qed


lemma lmi_range:
  assumes "0 \<le> x" "x < local_grid_size0 c" "0 \<le> y" "y < local_grid_size1 c"
  shows "0 \<le> lmi c x y" "lmi c x y < local_grid_size0 c * local_grid_size1 c"
proof -
  have e: "lmi c x y = y * local_grid_size0 c + x" by (simp add: lmi_def BORDER_def)
  show "0 \<le> lmi c x y" unfolding e using assms by simp
  show "lmi c x y < local_grid_size0 c * local_grid_size1 c"
    unfolding e using assms by (intro lin_range(2)) auto
qed

lemma rd_in_set: "0 \<le> i \<Longrightarrow> i < int (length xs) \<Longrightarrow> rd xs i \<in> set xs"
  by (simp add: rd_def)

lemma alloc_proc_length:
  "alloc_proc c p \<Longrightarrow>
   int (length (local_temp p (step mod 2))) = (local_grid_size0 c + 2) * (local_grid_size1 c + 2)"
proof -
  assume a: "alloc_proc c p"
  have "step mod 2 = 0 \<or> step mod 2 = 1" by presburger
  then show ?thesis using a by (auto simp: alloc_proc_def)
qed

text \<open>
  C3. For every step \<open>s\<close>, \<open>ftcs_solver\<close> leaves the buffer \<open>s mod 2\<close> and the local
  material as they are, and stores into the buffer \<open>(s + 1) mod 2\<close>, at every interior
  local coordinate \<open>(x, y)\<close>, the value
  \<open>in[x,y] + material[x,y] * (in[x+1,y] + in[x-1,y] + in[x,y+1] + in[x,y-1] - 4*in[x,y])\<close>
  computed from the buffer \<open>s mod 2\<close> and the local material alone.
\<close>

theorem ftcs_solver_step:
  assumes "alloc_proc c p"
  shows "local_temp (ftcs_solver c s p) (s mod 2) = local_temp p (s mod 2) \<and>
         local_material (ftcs_solver c s p) = local_material p \<and>
         (\<forall>x y. 0 \<le> x \<and> x < local_grid_size0 c \<and> 0 \<le> y \<and> y < local_grid_size1 c \<longrightarrow>
            rd (local_temp (ftcs_solver c s p) ((s + 1) mod 2)) (lti c x y) =
              rd (local_temp p (s mod 2)) (lti c x y) + rd (local_material p) (lmi c x y) *
                (rd (local_temp p (s mod 2)) (lti c (x + 1) y) +
                 rd (local_temp p (s mod 2)) (lti c (x - 1) y) +
                 rd (local_temp p (s mod 2)) (lti c x (y + 1)) +
                 rd (local_temp p (s mod 2)) (lti c x (y - 1)) -
                 4 * rd (local_temp p (s mod 2)) (lti c x y)))"
proof (intro conjI allI impI)
  show "local_temp (ftcs_solver c s p) (s mod 2) = local_temp p (s mod 2)"
    by (rule ftcs_solver_in_unchanged)
  show "local_material (ftcs_solver c s p) = local_material p"
    by (rule ftcs_solver_material_unchanged)
next
  fix x y
  assume xy: "0 \<le> x \<and> x < local_grid_size0 c \<and> 0 \<le> y \<and> y < local_grid_size1 c"
  have len: "int (length (local_temp p ((s + 1) mod 2))) =
               (local_grid_size0 c + 2) * (local_grid_size1 c + 2)"
    using alloc_proc_length[OF assms, of "s + 1"] .
  show "rd (local_temp (ftcs_solver c s p) ((s + 1) mod 2)) (lti c x y) =
              rd (local_temp p (s mod 2)) (lti c x y) + rd (local_material p) (lmi c x y) *
                (rd (local_temp p (s mod 2)) (lti c (x + 1) y) +
                 rd (local_temp p (s mod 2)) (lti c (x - 1) y) +
                 rd (local_temp p (s mod 2)) (lti c x (y + 1)) +
                 rd (local_temp p (s mod 2)) (lti c x (y - 1)) -
                 4 * rd (local_temp p (s mod 2)) (lti c x y))"
    using ftcs_solver_interior[OF len, of x y] xy by (simp add: ftcs_value_def)
qed

theorem ftcs_solver_step_witness:
  "alloc_proc ex_cfg ex_proc \<and>
   local_temp (ftcs_solver ex_cfg 0 ex_proc) 0 = local_temp ex_proc 0 \<and>
   local_material (ftcs_solver ex_cfg 0 ex_proc) = local_material ex_proc \<and>
   rd (local_temp (ftcs_solver ex_cfg 0 ex_proc) 1) (lti ex_cfg 0 0) = 51 / 10"
proof -
  have a: "alloc_proc ex_cfg ex_proc"
    by (simp add: alloc_proc_def ex_cfg_def ex_proc_def local_grid_size0_def local_grid_size1_def)
  have v: "rd (local_temp ex_proc 0) (lti ex_cfg 0 0) + rd (local_material ex_proc) (lmi ex_cfg 0 0) *
                (rd (local_temp ex_proc 0) (lti ex_cfg (0 + 1) 0) +
                 rd (local_temp ex_proc 0) (lti ex_cfg (0 - 1) 0) +
                 rd (local_temp ex_proc 0) (lti ex_cfg 0 (0 + 1)) +
                 rd (local_temp ex_proc 0) (lti ex_cfg 0 (0 - 1)) -
                 4 * rd (local_temp ex_proc 0) (lti ex_cfg 0 0)) = 51 / 10"
    by (simp add: ex_cfg_def ex_proc_def lti_def lmi_def BORDER_def local_grid_size0_def rd_def)
  have g: "0 \<le> (0::int) \<and> 0 < local_grid_size0 ex_cfg \<and> 0 \<le> (0::int) \<and> 0 < local_grid_size1 ex_cfg"
    by (simp add: ex_cfg_def local_grid_size0_def local_grid_size1_def)
  from ftcs_solver_step[OF a, of 0] g v show ?thesis using a by simp
qed



section \<open>The stencil in C float arithmetic\<close>

lemma ftcs_cell_float_eq:
  "ftcs_cell_float c step x y p =
     p\<lparr>local_temp := (local_temp p)((step + 1) mod 2 :=
        wr (local_temp p ((step + 1) mod 2)) (lti c x y)
          (ftcs_value_float c (local_temp p (step mod 2)) (local_material p) (x, y)))\<rparr>"
  by (simp add: ftcs_cell_float_def ftcs_value_float_def Let_def)

lemma ftcs_cells_float:
  "fold (\<lambda>xy. ftcs_cell_float c step (fst xy) (snd xy)) cs p =
     p\<lparr>local_temp := (local_temp p)((step + 1) mod 2 :=
        writes (map (\<lambda>xy. (lti c (fst xy) (snd xy),
                           ftcs_value_float c (local_temp p (step mod 2)) (local_material p) xy)) cs)
          (local_temp p ((step + 1) mod 2)))\<rparr>"
proof (induction cs arbitrary: p)
  case Nil
  then show ?case by simp
next
  case (Cons a cs)
  let ?p = "ftcs_cell_float c step (fst a) (snd a) p"
  have keep: "local_temp ?p (step mod 2) = local_temp p (step mod 2)"
    "local_material ?p = local_material p"
    using parity_neq[of step] by (simp_all add: ftcs_cell_float_eq)
  have "fold (\<lambda>xy. ftcs_cell_float c step (fst xy) (snd xy)) (a # cs) p =
        fold (\<lambda>xy. ftcs_cell_float c step (fst xy) (snd xy)) cs ?p"
    by simp
  also have "\<dots> = ?p\<lparr>local_temp := (local_temp ?p)((step + 1) mod 2 :=
        writes (map (\<lambda>xy. (lti c (fst xy) (snd xy),
                           ftcs_value_float c (local_temp ?p (step mod 2)) (local_material ?p) xy)) cs)
          (local_temp ?p ((step + 1) mod 2)))\<rparr>"
    by (rule Cons.IH)
  also have "\<dots> = p\<lparr>local_temp := (local_temp p)((step + 1) mod 2 :=
        writes (map (\<lambda>xy. (lti c (fst xy) (snd xy),
                           ftcs_value_float c (local_temp p (step mod 2)) (local_material p) xy)) (a # cs))
          (local_temp p ((step + 1) mod 2)))\<rparr>"
    unfolding keep by (simp add: ftcs_cell_float_eq)
  finally show ?case .
qed

lemma ftcs_solver_float_eq:
  "ftcs_solver_float c step p =
     p\<lparr>local_temp := (local_temp p)((step + 1) mod 2 :=
        writes (map (\<lambda>xy. (lti c (fst xy) (snd xy),
                           ftcs_value_float c (local_temp p (step mod 2)) (local_material p) xy))
                  (List.product [0..local_grid_size0 c - 1] [0..local_grid_size1 c - 1]))
          (local_temp p ((step + 1) mod 2)))\<rparr>"
  unfolding ftcs_solver_float_def fold_fold_product by (rule ftcs_cells_float)

lemma ftcs_solver_float_interior:
  assumes "int (length (local_temp p ((step + 1) mod 2))) =
             (local_grid_size0 c + 2) * (local_grid_size1 c + 2)"
    and "0 \<le> x" "x < local_grid_size0 c" "0 \<le> y" "y < local_grid_size1 c"
  shows "rd (local_temp (ftcs_solver_float c step p) ((step + 1) mod 2)) (lti c x y) =
         ftcs_value_float c (local_temp p (step mod 2)) (local_material p) (x, y)"
proof -
  let ?cs = "List.product [0..local_grid_size0 c - 1] [0..local_grid_size1 c - 1]"
  let ?ws = "map (\<lambda>xy. (lti c (fst xy) (snd xy),
                ftcs_value_float c (local_temp p (step mod 2)) (local_material p) xy)) ?cs"
  have d: "distinct (map fst ?ws)"
    using distinct_lti_cells[of ?cs c] by (auto simp: comp_def distinct_product)
  have m: "(lti c x y, ftcs_value_float c (local_temp p (step mod 2)) (local_material p) (x, y)) \<in> set ?ws"
  proof -
    have "(x, y) \<in> set ?cs" using assms(2-5) by simp
    then show ?thesis by (rule in_set_mapI) simp
  qed
  have r: "0 \<le> lti c x y" "lti c x y < int (length (local_temp p ((step + 1) mod 2)))"
    using lti_range[of x c y] assms by auto
  show ?thesis
    using rd_writes_in[OF d m r] by (simp add: ftcs_solver_float_eq)
qed

lemma overflow_in: "\<bar>v\<bar> \<le> FLT_MAX \<Longrightarrow> overflow v = Finite v"
  by (auto simp: overflow_def)

lemma FLT_MAX_pos: "0 < FLT_MAX"
  by (simp add: FLT_MAX_def)

lemma uniform_value_float:
  assumes "\<bar>cst\<bar> \<le> FLT_MAX / 4"
  shows "fadd (Finite cst)
           (fmul (Finite m)
              (fsub (fadd (fadd (fadd (Finite cst) (Finite cst)) (Finite cst)) (Finite cst))
                    (fmul (Finite 4) (Finite cst)))) = Finite cst"
proof -
  have b: "\<bar>cst + cst\<bar> \<le> FLT_MAX" "\<bar>cst + cst + cst\<bar> \<le> FLT_MAX"
    "\<bar>cst + cst + cst + cst\<bar> \<le> FLT_MAX" "\<bar>4 * cst\<bar> \<le> FLT_MAX" "\<bar>cst\<bar> \<le> FLT_MAX"
    "\<bar>0::real\<bar> \<le> FLT_MAX"
    using assms FLT_MAX_pos by (auto simp: abs_le_iff)
  have s: "fadd (fadd (fadd (Finite cst) (Finite cst)) (Finite cst)) (Finite cst) =
           Finite (cst + cst + cst + cst)"
    by (simp only: fadd.simps overflow_in[OF b(1)] overflow_in[OF b(2)] overflow_in[OF b(3)])
  have q: "fmul (Finite 4) (Finite cst) = Finite (4 * cst)"
    by (simp only: fmul.simps overflow_in[OF b(4)])
  have e: "cst + cst + cst + cst + - (4 * cst) = 0" "m * 0 = 0" "cst + 0 = cst"
    by simp_all
  have z: "fsub (Finite (cst + cst + cst + cst)) (Finite (4 * cst)) = Finite 0"
    by (simp only: fsub_def fneg.simps fadd.simps e overflow_in[OF b(6)])
  have mz: "fmul (Finite m) (Finite 0) = Finite 0"
    by (simp only: fmul.simps e overflow_in[OF b(6)])
  show ?thesis
    unfolding s q z mz by (simp only: fadd.simps e overflow_in[OF b(5)])
qed

text \<open>
  C8. When every cell of the input buffer, ghost cells included, holds the finite value
  \<open>cst\<close> with \<open>\<bar>cst\<bar> \<le> FLT_MAX / 4\<close> and every cell of the local material holds the
  finite value \<open>m\<close>, one call of \<open>ftcs_solver\<close> leaves \<open>cst\<close> at every interior coordinate
  of the output buffer.
\<close>

theorem ftcs_uniform_field_float:
  assumes "alloc_proc c p"
    and "set (local_temp p (s mod 2)) \<subseteq> {Finite cst}"
    and "set (local_material p) \<subseteq> {Finite m}"
    and "\<bar>cst\<bar> \<le> FLT_MAX / 4"
    and "0 \<le> x" "x < local_grid_size0 c" "0 \<le> y" "y < local_grid_size1 c"
  shows "rd (local_temp (ftcs_solver_float c s p) ((s + 1) mod 2)) (lti c x y) = Finite cst"
proof -
  have len: "int (length (local_temp p ((s + 1) mod 2))) =
               (local_grid_size0 c + 2) * (local_grid_size1 c + 2)"
    using alloc_proc_length[OF assms(1), of "s + 1"] .
  have leni: "int (length (local_temp p (s mod 2))) =
               (local_grid_size0 c + 2) * (local_grid_size1 c + 2)"
    using alloc_proc_length[OF assms(1), of s] .
  have cell: "rd (local_temp p (s mod 2)) (lti c x' y') = Finite cst"
    if "- 1 \<le> x'" "x' \<le> local_grid_size0 c" "- 1 \<le> y'" "y' \<le> local_grid_size1 c" for x' y'
    using rd_in_set[of "lti c x' y'" "local_temp p (s mod 2)"] lti_range[OF that] leni assms(2)
    by auto
  have mat: "rd (local_material p) (lmi c x y) = Finite m"
    using rd_in_set[of "lmi c x y" "local_material p"] lmi_range[OF assms(5-8)] assms(1,3)
    by (auto simp: alloc_proc_def)
  have "ftcs_value_float c (local_temp p (s mod 2)) (local_material p) (x, y) = Finite cst"
    unfolding ftcs_value_float_def fst_conv snd_conv mat
    using assms(5-8) by (simp only: cell uniform_value_float[OF assms(4)])
  then show ?thesis using ftcs_solver_float_interior[OF len assms(5-8)] by simp
qed

theorem ftcs_uniform_field_float_witness:
  "alloc_proc ex_cfg ex_uniform_float \<and>
   set (local_temp ex_uniform_float (0 mod 2)) \<subseteq> {Finite 20} \<and>
   set (local_material ex_uniform_float) \<subseteq> {Finite (1 / 8)} \<and>
   \<bar>20\<bar> \<le> FLT_MAX / 4 \<and>
   rd (local_temp (ftcs_solver_float ex_cfg 0 ex_uniform_float) ((0 + 1) mod 2)) (lti ex_cfg 1 1) =
     Finite 20"
proof -
  have a: "alloc_proc ex_cfg ex_uniform_float"
    by (simp add: alloc_proc_def ex_cfg_def ex_uniform_float_def local_grid_size0_def
        local_grid_size1_def)
  have t: "set (local_temp ex_uniform_float (0 mod 2)) \<subseteq> {Finite 20}"
    by (simp add: ex_uniform_float_def)
  have m: "set (local_material ex_uniform_float) \<subseteq> {Finite (1 / 8)}"
    by (simp add: ex_uniform_float_def)
  have b: "\<bar>20\<bar> \<le> FLT_MAX / 4"
    by (simp add: FLT_MAX_def)
  have g: "(0::int) \<le> 1" "1 < local_grid_size0 ex_cfg" "1 < local_grid_size1 ex_cfg"
    by (simp_all add: ex_cfg_def local_grid_size0_def local_grid_size1_def)
  from ftcs_uniform_field_float[OF a t m b g(1) g(2) g(1) g(3)] a t m b show ?thesis by blast
qed

text \<open>
  With every cell of both buffers at \<open>2 ^ 127\<close> and the material at \<open>1 / 8\<close>, the sum of
  the neighbours and the product \<open>4 * in[lti(x, y)]\<close> overflow to infinity and their
  difference is NaN: \<open>ftcs_solver\<close> stores NaN at the interior cell \<open>(1, 1)\<close>.
\<close>

theorem ftcs_uniform_field_overflow:
  "alloc_proc ex_cfg ex_huge \<and>
   set (local_temp ex_huge (0 mod 2)) \<subseteq> {Finite (2 ^ 127)} \<and>
   set (local_material ex_huge) \<subseteq> {Finite (1 / 8)} \<and>
   2 ^ 127 \<le> FLT_MAX \<and>
   rd (local_temp (ftcs_solver_float ex_cfg 0 ex_huge) ((0 + 1) mod 2)) (lti ex_cfg 1 1) = NaN \<and>
   rd (local_temp (ftcs_solver_float ex_cfg 0 ex_huge) ((0 + 1) mod 2)) (lti ex_cfg 1 1) \<noteq>
     Finite (2 ^ 127)"
proof -
  have a: "alloc_proc ex_cfg ex_huge"
    by (simp add: alloc_proc_def ex_cfg_def ex_huge_def local_grid_size0_def local_grid_size1_def)
  have t: "set (local_temp ex_huge (0 mod 2)) \<subseteq> {Finite (2 ^ 127)}"
    by (simp add: ex_huge_def)
  have m: "set (local_material ex_huge) \<subseteq> {Finite (1 / 8)}"
    by (simp add: ex_huge_def)
  have b: "(2::real) ^ 127 \<le> FLT_MAX"
    by (simp add: FLT_MAX_def)
  have len: "int (length (local_temp ex_huge ((0 + 1) mod 2))) =
               (local_grid_size0 ex_cfg + 2) * (local_grid_size1 ex_cfg + 2)"
    by (simp add: ex_cfg_def ex_huge_def local_grid_size0_def local_grid_size1_def)
  have g: "(0::int) \<le> 1" "1 < local_grid_size0 ex_cfg" "1 < local_grid_size1 ex_cfg"
    by (simp_all add: ex_cfg_def local_grid_size0_def local_grid_size1_def)
  have o: "overflow 340282366920938463463374607431768211456 = PInf"
    by (simp add: overflow_def FLT_MAX_def)
  have o4: "overflow 680564733841876926926749214863536422912 = PInf"
    by (simp add: overflow_def FLT_MAX_def)
  have v: "ftcs_value_float ex_cfg (local_temp ex_huge (0 mod 2)) (local_material ex_huge) (1, 1) = NaN"
    by (simp add: ftcs_value_float_def ex_huge_def ex_cfg_def lti_def lmi_def BORDER_def
        local_grid_size0_def local_grid_size1_def rd_def fsub_def o o4)
  have r: "rd (local_temp (ftcs_solver_float ex_cfg 0 ex_huge) ((0 + 1) mod 2)) (lti ex_cfg 1 1) = NaN"
    unfolding ftcs_solver_float_interior[OF len g(1) g(2) g(1) g(3)] by (rule v)
  show ?thesis using a t m b r by simp
qed

lemma rd_map: "0 \<le> i \<Longrightarrow> i < int (length xs) \<Longrightarrow> rd (map f xs) i = f (rd xs i)"
  by (simp add: rd_def)

lemma to_float_simps:
  "local_material (to_float p) = map Finite (local_material p)"
  "local_temp (to_float p) b = map Finite (local_temp p b)"
  by (simp_all add: to_float_def)

lemma alloc_proc_to_float: "alloc_proc c (to_float p) = alloc_proc c p"
  by (simp add: alloc_proc_def to_float_simps)

lemma ftcs_value_float_finite:
  assumes "int (length inb) = (local_grid_size0 c + 2) * (local_grid_size1 c + 2)"
    and "int (length mat) = local_grid_size0 c * local_grid_size1 c"
    and "0 \<le> x" "x < local_grid_size0 c" "0 \<le> y" "y < local_grid_size1 c"
    and "set (ftcs_partial_results c inb mat (x, y)) \<subseteq> {v. \<bar>v\<bar> \<le> FLT_MAX}"
  shows "ftcs_value_float c (map Finite inb) (map Finite mat) (x, y) =
         Finite (ftcs_value c inb mat (x, y))"
proof -
  have cell: "rd (map Finite inb) (lti c x' y') = Finite (rd inb (lti c x' y'))"
    if "- 1 \<le> x'" "x' \<le> local_grid_size0 c" "- 1 \<le> y'" "y' \<le> local_grid_size1 c" for x' y'
    using lti_range[OF that] assms(1) by (simp add: rd_map)
  have m: "rd (map Finite mat) (lmi c x y) = Finite (rd mat (lmi c x y))"
    using lmi_range[OF assms(3-6)] assms(2) by (simp add: rd_map)
  define ctr where "ctr = rd inb (lti c x y)"
  define e where "e = rd inb (lti c (x + 1) y)"
  define w where "w = rd inb (lti c (x - 1) y)"
  define s where "s = rd inb (lti c x (y + 1))"
  define n where "n = rd inb (lti c x (y - 1))"
  define k where "k = rd mat (lmi c x y)"
  have c: "rd (map Finite inb) (lti c x y) = Finite ctr"
    "rd (map Finite inb) (lti c (x + 1) y) = Finite e"
    "rd (map Finite inb) (lti c (x - 1) y) = Finite w"
    "rd (map Finite inb) (lti c x (y + 1)) = Finite s"
    "rd (map Finite inb) (lti c x (y - 1)) = Finite n"
    "rd (map Finite mat) (lmi c x y) = Finite k"
    unfolding ctr_def e_def w_def s_def n_def k_def
    using assms(3-6) by (simp_all add: cell m)
  have b: "\<bar>e + w\<bar> \<le> FLT_MAX" "\<bar>e + w + s\<bar> \<le> FLT_MAX" "\<bar>e + w + s + n\<bar> \<le> FLT_MAX"
    "\<bar>4 * ctr\<bar> \<le> FLT_MAX" "\<bar>e + w + s + n + - (4 * ctr)\<bar> \<le> FLT_MAX"
    "\<bar>k * (e + w + s + n + - (4 * ctr))\<bar> \<le> FLT_MAX"
    "\<bar>ctr + k * (e + w + s + n + - (4 * ctr))\<bar> \<le> FLT_MAX"
    using assms(7)
    unfolding ftcs_partial_results_def Let_def fst_conv snd_conv
      ctr_def[symmetric] e_def[symmetric] w_def[symmetric] s_def[symmetric] n_def[symmetric]
      k_def[symmetric]
    by simp_all
  have "ftcs_value_float c (map Finite inb) (map Finite mat) (x, y) =
        Finite (ctr + k * (e + w + s + n + - (4 * ctr)))"
    unfolding ftcs_value_float_def fst_conv snd_conv c fsub_def
    by (simp only: fadd.simps fmul.simps fneg.simps overflow_in[OF b(1)] overflow_in[OF b(2)]
        overflow_in[OF b(3)] overflow_in[OF b(4)] overflow_in[OF b(5)] overflow_in[OF b(6)]
        overflow_in[OF b(7)])
  also have "ctr + k * (e + w + s + n + - (4 * ctr)) = ftcs_value c inb mat (x, y)"
    unfolding ftcs_value_def fst_conv snd_conv ctr_def e_def w_def s_def n_def k_def by simp
  finally show ?thesis .
qed

lemma ftcs_solver_float_finite:
  assumes "alloc_proc c p"
    and "0 \<le> x" "x < local_grid_size0 c" "0 \<le> y" "y < local_grid_size1 c"
    and "set (ftcs_partial_results c (local_temp p (s mod 2)) (local_material p) (x, y)) \<subseteq>
           {v. \<bar>v\<bar> \<le> FLT_MAX}"
  shows "rd (local_temp (ftcs_solver_float c s (to_float p)) ((s + 1) mod 2)) (lti c x y) =
         Finite (rd (local_temp (ftcs_solver c s p) ((s + 1) mod 2)) (lti c x y))"
proof -
  have len: "int (length (local_temp p ((s + 1) mod 2))) =
               (local_grid_size0 c + 2) * (local_grid_size1 c + 2)"
    using alloc_proc_length[OF assms(1), of "s + 1"] .
  have leni: "int (length (local_temp p (s mod 2))) =
               (local_grid_size0 c + 2) * (local_grid_size1 c + 2)"
    using alloc_proc_length[OF assms(1), of s] .
  have lenf: "int (length (local_temp (to_float p) ((s + 1) mod 2))) =
               (local_grid_size0 c + 2) * (local_grid_size1 c + 2)"
    unfolding to_float_simps length_map by (rule len)
  have lenm: "int (length (local_material p)) = local_grid_size0 c * local_grid_size1 c"
    using assms(1) by (simp add: alloc_proc_def)
  show ?thesis
    unfolding ftcs_solver_float_interior[OF lenf assms(2-5)] ftcs_solver_interior[OF len assms(2-5)]
      to_float_simps
    by (rule ftcs_value_float_finite[OF leni lenm assms(2-6)])
qed

section \<open>Datatypes and the mesh\<close>

lemma product_singleton: "List.product xs [y] = map (\<lambda>x. (x, y)) xs"
  by (induction xs) auto

lemma cells_of_one: "cells_of start 1 ty = map (\<lambda>off. start + off) (typemap ty)"
  by (simp add: cells_of_def upto.simps)

lemma cells_border_row:
  "cells_of (lti c x0 y) 1 (border_row c) = map (\<lambda>x. lti c (x0 + x) y) [0..local_grid_size0 c - 1]"
  by (simp add: cells_of_one border_row_def MPI_Type_vector_def upto.simps[of 0 0]
      product_singleton comp_def lti_def)

lemma cells_border_col:
  "cells_of (lti c x y0) 1 (border_col c) = map (\<lambda>y. lti c x (y0 + y)) [0..local_grid_size1 c - 1]"
  by (simp add: cells_of_one border_col_def MPI_Type_vector_def upto.simps[of 0 0]
      product_singleton comp_def lti_def BORDER_def algebra_simps)

lemma cells_gather_Temp:
  "cells_of (lti c 0 0) 1 (gather_Temp c) =
     map (\<lambda>yx. lti c (snd yx) (fst yx))
       (List.product [0..local_grid_size1 c - 1] [0..local_grid_size0 c - 1])"
  by (simp add: cells_of_one gather_Temp_def MPI_Type_vector_def comp_def lti_def BORDER_def
      algebra_simps)

lemma cells_localCart:
  "cells_of (ti c 0 0 + d * extent (localCart c)) 1 (localCart c) =
     map (\<lambda>yx. d + ti c (snd yx) (fst yx))
       (List.product [0..local_grid_size1 c - 1] [0..local_grid_size0 c - 1])"
  by (simp add: cells_of_one localCart_def scatter_big_cart_def MPI_Type_create_resized_def
      MPI_Type_vector_def comp_def ti_def algebra_simps)

lemma zip_map_same: "zip (map f xs) (map g xs) = map (\<lambda>x. (f x, g x)) xs"
  by (induction xs) auto

lemma rank_coords:
  assumes "0 < dims1 c"
  shows "MPI_Cart_rank c (MPI_Cart_coords c r) = r"
  using assms by (simp add: MPI_Cart_rank_def MPI_Cart_coords_def)

lemma coords_rank:
  assumes "in_mesh c xy"
  shows "MPI_Cart_coords c (MPI_Cart_rank c xy) = xy"
proof -
  have nn: "0 \<le> fst xy * dims1 c + snd xy" using assms by (simp add: in_mesh_def)
  have "(fst xy * dims1 c + snd xy) div dims1 c = fst xy"
    "(fst xy * dims1 c + snd xy) mod dims1 c = snd xy"
    using assms by (simp_all add: in_mesh_def div_pos_pos_trivial)
  then show ?thesis using nn by (simp add: MPI_Cart_rank_def MPI_Cart_coords_def prod_eq_iff)
qed

lemma rank_inj:
  assumes "in_mesh c xy" "in_mesh c xy'" "MPI_Cart_rank c xy = MPI_Cart_rank c xy'"
  shows "xy = xy'"
  by (metis coords_rank assms)

lemma rank_less:
  assumes "in_mesh c xy"
  shows "MPI_Cart_rank c xy < world_size c"
proof -
  have "fst xy * dims1 c + snd xy < dims1 c * dims0 c"
    using assms by (intro lin_range(2)) (auto simp: in_mesh_def)
  moreover have "0 \<le> fst xy * dims1 c + snd xy" using assms by (simp add: in_mesh_def)
  ultimately show ?thesis by (simp add: MPI_Cart_rank_def world_size_def mult.commute)
qed

lemma coords_in_mesh:
  assumes "valid_cfg c" "r < world_size c"
  shows "in_mesh c (MPI_Cart_coords c r)"
proof -
  have d: "0 < dims0 c" "0 < dims1 c" using assms(1) by (simp_all add: valid_cfg_def)
  have lt: "int r < dims0 c * dims1 c" using assms(2) by (simp add: world_size_def)
  have "int r div dims1 c < dims0 c"
  proof (rule ccontr)
    assume "\<not> int r div dims1 c < dims0 c"
    then have "dims0 c * dims1 c \<le> (int r div dims1 c) * dims1 c"
      using d by (intro mult_right_mono) auto
    also have "\<dots> \<le> int r"
    proof -
      have m: "0 \<le> int r mod dims1 c" using d by simp
      have e: "int r div dims1 c * dims1 c + int r mod dims1 c = int r" by (rule div_mult_mod_eq)
      from m e show ?thesis by linarith
    qed
    finally show False using lt by simp
  qed
  moreover have "0 \<le> int r div dims1 c" using d by (simp add: pos_imp_zdiv_nonneg_iff)
  ultimately show ?thesis using d by (simp add: in_mesh_def MPI_Cart_coords_def)
qed

section \<open>The displacement table\<close>

lemma displacement_cells:
  "fold (\<lambda>yx. displacement_entry c (fst yx) (snd yx)) cs W =
     W\<lparr>displs := writes (map (\<lambda>yx. (int (MPI_Cart_rank c (snd yx, fst yx)),
                         local_grid_size1 c * GRID_SIZE0 c * fst yx + local_grid_size0 c * snd yx)) cs)
                    (displs W),
       sendcounts := writes (map (\<lambda>yx. (int (MPI_Cart_rank c (snd yx, fst yx)), 1)) cs)
                    (sendcounts W)\<rparr>"
proof (induction cs arbitrary: W)
  case Nil
  then show ?case by simp
next
  case (Cons a cs)
  show ?case
    unfolding fold_simps Cons.IH by (simp add: displacement_entry_def Let_def)
qed

lemma helpFunctionForDisplacement_eq:
  "helpFunctionForDisplacement c W =
     W\<lparr>displs := writes (map (\<lambda>yx. (int (MPI_Cart_rank c (snd yx, fst yx)),
                         local_grid_size1 c * GRID_SIZE0 c * fst yx + local_grid_size0 c * snd yx))
                         (mesh_order c))
                    (displs W),
       sendcounts := writes (map (\<lambda>yx. (int (MPI_Cart_rank c (snd yx, fst yx)), 1)) (mesh_order c))
                    (sendcounts W)\<rparr>"
  unfolding helpFunctionForDisplacement_def fold_fold_product mesh_order_def
  by (rule displacement_cells)

lemma mesh_order_set: "(y, x) \<in> set (mesh_order c) \<longleftrightarrow> in_mesh c (x, y)"
  by (auto simp: mesh_order_def in_mesh_def)

lemma distinct_mesh_ranks:
  "distinct (map (\<lambda>yx. int (MPI_Cart_rank c (snd yx, fst yx))) (mesh_order c))"
proof -
  have "inj_on (\<lambda>yx. int (MPI_Cart_rank c (snd yx, fst yx))) (set (mesh_order c))"
  proof (rule inj_onI)
    fix a b
    assume a: "a \<in> set (mesh_order c)" and b: "b \<in> set (mesh_order c)"
      and e: "int (MPI_Cart_rank c (snd a, fst a)) = int (MPI_Cart_rank c (snd b, fst b))"
    have "in_mesh c (snd a, fst a)" "in_mesh c (snd b, fst b)"
      using a b mesh_order_set[of "fst a" "snd a" c] mesh_order_set[of "fst b" "snd b" c] by auto
    from rank_inj[OF this] e show "a = b" by (auto simp: prod_eq_iff)
  qed
  moreover have "distinct (mesh_order c)" by (simp add: mesh_order_def distinct_product)
  ultimately show ?thesis by (simp add: distinct_map)
qed

lemma help_displs:
  assumes "length (displs W) = world_size c" "in_mesh c (x, y)"
  shows "rd (displs (helpFunctionForDisplacement c W)) (int (MPI_Cart_rank c (x, y))) =
           local_grid_size1 c * GRID_SIZE0 c * y + local_grid_size0 c * x"
proof -
  let ?ws = "map (\<lambda>yx. (int (MPI_Cart_rank c (snd yx, fst yx)),
                local_grid_size1 c * GRID_SIZE0 c * fst yx + local_grid_size0 c * snd yx))
                (mesh_order c)"
  have d: "distinct (map fst ?ws)" using distinct_mesh_ranks[of c] by (simp add: comp_def)
  have m: "(int (MPI_Cart_rank c (x, y)),
            local_grid_size1 c * GRID_SIZE0 c * y + local_grid_size0 c * x) \<in> set ?ws"
    using assms(2) mesh_order_set[of y x c] by (intro in_set_mapI[where x = "(y, x)"]) auto
  have r: "0 \<le> int (MPI_Cart_rank c (x, y))" "int (MPI_Cart_rank c (x, y)) < int (length (displs W))"
    using rank_less[OF assms(2)] assms(1) by auto
  show ?thesis using rd_writes_in[OF d m r] by (simp add: helpFunctionForDisplacement_eq)
qed

lemma help_sendcounts:
  assumes "length (sendcounts W) = world_size c" "in_mesh c (x, y)"
  shows "rd (sendcounts (helpFunctionForDisplacement c W)) (int (MPI_Cart_rank c (x, y))) = 1"
proof -
  let ?ws = "map (\<lambda>yx. (int (MPI_Cart_rank c (snd yx, fst yx)), 1::int)) (mesh_order c)"
  have d: "distinct (map fst ?ws)" using distinct_mesh_ranks[of c] by (simp add: comp_def)
  have m: "(int (MPI_Cart_rank c (x, y)), 1) \<in> set ?ws"
    using assms(2) mesh_order_set[of y x c] by (intro in_set_mapI[where x = "(y, x)"]) auto
  have r: "0 \<le> int (MPI_Cart_rank c (x, y))" "int (MPI_Cart_rank c (x, y)) < int (length (sendcounts W))"
    using rank_less[OF assms(2)] assms(1) by auto
  show ?thesis using rd_writes_in[OF d m r] by (simp add: helpFunctionForDisplacement_eq)
qed

lemma help_frame:
  "procs (helpFunctionForDisplacement c W) = procs W"
  "temperature (helpFunctionForDisplacement c W) = temperature W"
  "material (helpFunctionForDisplacement c W) = material W"
  "length (displs (helpFunctionForDisplacement c W)) = length (displs W)"
  "length (sendcounts (helpFunctionForDisplacement c W)) = length (sendcounts W)"
  by (simp_all add: helpFunctionForDisplacement_eq)

text \<open>
  C6. \<open>helpFunctionForDisplacement\<close> visits the mesh coordinates row by row (\<open>y\<close> outer,
  \<open>x\<close> inner) and leaves, for the rank that owns the mesh coordinate \<open>(x, y)\<close>, the
  displacement \<open>y * local_grid_size[1] * GRID_SIZE[0] + x * local_grid_size[0]\<close> and the
  send count 1. On a 2 by 2 mesh over a 4 by 4 grid the rank at \<open>(1, 1)\<close> gets the
  displacement 10 (the instance proved after the theorem).
\<close>

theorem displacement_table:
  assumes "length (displs W) = world_size c" "length (sendcounts W) = world_size c"
    and "in_mesh c (x, y)"
  shows "helpFunctionForDisplacement c W =
           fold (\<lambda>yx. displacement_entry c (fst yx) (snd yx)) (mesh_order c) W \<and>
         rd (displs (helpFunctionForDisplacement c W)) (int (MPI_Cart_rank c (x, y))) =
           y * local_grid_size1 c * GRID_SIZE0 c + x * local_grid_size0 c \<and>
         rd (sendcounts (helpFunctionForDisplacement c W)) (int (MPI_Cart_rank c (x, y))) = 1"
  using help_displs[OF assms(1,3)] help_sendcounts[OF assms(2,3)]
  by (simp add: helpFunctionForDisplacement_def fold_fold_product mesh_order_def algebra_simps)

theorem displacement_table_witness:
  "length (displs (allocate mesh2x2)) = world_size mesh2x2 \<and>
   length (sendcounts (allocate mesh2x2)) = world_size mesh2x2 \<and>
   in_mesh mesh2x2 (1, 1) \<and>
   local_grid_size0 mesh2x2 = 2 \<and> local_grid_size1 mesh2x2 = 2 \<and>
   mesh_order mesh2x2 = [(0, 0), (0, 1), (1, 0), (1, 1)] \<and>
   rd (displs (helpFunctionForDisplacement mesh2x2 (allocate mesh2x2)))
      (int (MPI_Cart_rank mesh2x2 (1, 1))) = 10 \<and>
   rd (sendcounts (helpFunctionForDisplacement mesh2x2 (allocate mesh2x2)))
      (int (MPI_Cart_rank mesh2x2 (1, 1))) = 1"
proof -
  have l: "length (displs (allocate mesh2x2)) = world_size mesh2x2"
    "length (sendcounts (allocate mesh2x2)) = world_size mesh2x2"
    by (simp_all add: allocate_def calloc_def)
  have m: "in_mesh mesh2x2 (1, 1)" by (simp add: in_mesh_def mesh2x2_def)
  have g: "local_grid_size0 mesh2x2 = 2" "local_grid_size1 mesh2x2 = 2"
    by (simp_all add: local_grid_size0_def local_grid_size1_def mesh2x2_def)
  have o: "mesh_order mesh2x2 = [(0, 0), (0, 1), (1, 0), (1, 1)]"
    by (simp add: mesh_order_def mesh2x2_def upto.simps)
  have G: "GRID_SIZE0 mesh2x2 = 4" by (simp add: mesh2x2_def)
  note t = displacement_table[OF l m]
  have d: "rd (displs (helpFunctionForDisplacement mesh2x2 (allocate mesh2x2)))
      (int (MPI_Cart_rank mesh2x2 (1, 1))) = 10"
    using t[THEN conjunct2, THEN conjunct1] by (simp add: g G)
  have s: "rd (sendcounts (helpFunctionForDisplacement mesh2x2 (allocate mesh2x2)))
      (int (MPI_Cart_rank mesh2x2 (1, 1))) = 1"
    using t[THEN conjunct2, THEN conjunct2] .
  show ?thesis using l m g o d s by (intro conjI)
qed

section \<open>Scatter and gather\<close>

lemma block_set:
  "(y, x) \<in> set (block c) \<longleftrightarrow> 0 \<le> x \<and> x < local_grid_size0 c \<and> 0 \<le> y \<and> y < local_grid_size1 c"
  by (auto simp: block_def)

lemma distinct_block: "distinct (block c)"
  by (simp add: block_def distinct_product)

lemma allocated_proc: "allocated c W \<Longrightarrow> r < world_size c \<Longrightarrow> alloc_proc c (procs W r)"
  by (simp add: allocated_def list_all_iff)

lemma tables_at_rank:
  assumes "valid_cfg c" "tables_ready c W" "r < world_size c"
  shows "rd (displs W) (int r) = ti c (local_origin0 c r) (local_origin1 c r)"
    and "rd (sendcounts W) (int r) = 1"
proof -
  obtain x y where xy: "MPI_Cart_coords c r = (x, y)" by (cases "MPI_Cart_coords c r")
  have m: "in_mesh c (x, y)" using coords_in_mesh[OF assms(1,3)] xy by simp
  have r: "MPI_Cart_rank c (x, y) = r"
    using rank_coords[of c r] assms(1) xy by (simp add: valid_cfg_def)
  have "(y, x) \<in> set (mesh_order c)" using m by (simp add: mesh_order_set)
  with assms(2) have
    "rd (displs W) (int (MPI_Cart_rank c (x, y))) =
       local_grid_size1 c * GRID_SIZE0 c * y + local_grid_size0 c * x \<and>
     rd (sendcounts W) (int (MPI_Cart_rank c (x, y))) = 1"
    by (auto simp: tables_ready_def list_all_iff)
  then show "rd (displs W) (int r) = ti c (local_origin0 c r) (local_origin1 c r)"
    and "rd (sendcounts W) (int r) = 1"
    using r xy by (simp_all add: ti_def local_origin0_def local_origin1_def coords_def algebra_simps)
qed

lemma tables_ready_help:
  assumes "length (displs W) = world_size c" "length (sendcounts W) = world_size c"
  shows "tables_ready c (helpFunctionForDisplacement c W)"
  unfolding tables_ready_def list_all_iff
proof (intro ballI)
  fix yx assume "yx \<in> set (mesh_order c)"
  then have m: "in_mesh c (snd yx, fst yx)"
    using mesh_order_set[of "fst yx" "snd yx" c] by simp
  show "rd (displs (helpFunctionForDisplacement c W)) (int (MPI_Cart_rank c (snd yx, fst yx))) =
          local_grid_size1 c * GRID_SIZE0 c * fst yx + local_grid_size0 c * snd yx \<and>
        rd (sendcounts (helpFunctionForDisplacement c W)) (int (MPI_Cart_rank c (snd yx, fst yx))) = 1"
    using help_displs[OF assms(1) m] help_sendcounts[OF assms(2) m] by simp
qed

lemma unpack_gather_Temp:
  "unpack buf (lti c 0 0) 1 (gather_Temp c) msg =
     writes (zip (map (\<lambda>yx. lti c (snd yx) (fst yx)) (block c)) msg) buf"
  by (simp add: unpack_def cells_gather_Temp block_def)

lemma pack_gather_Temp:
  "pack buf (lti c 0 0) 1 (gather_Temp c) = map (\<lambda>yx. rd buf (lti c (snd yx) (fst yx))) (block c)"
  by (simp add: pack_def cells_gather_Temp block_def comp_def)

lemma root_cells:
  assumes "rd (sendcounts W) (int r) = 1"
  shows "cells_of (root_start W (ti c 0 0) (localCart c) r) (rd (sendcounts W) (int r)) (localCart c) =
           map (\<lambda>yx. rd (displs W) (int r) + ti c (snd yx) (fst yx)) (block c)"
  unfolding assms root_start_def by (simp add: cells_localCart block_def)

lemma distinct_local_block: "distinct (map (\<lambda>yx. lti c (snd yx) (fst yx)) (block c))"
proof -
  have "inj_on (\<lambda>yx. lti c (snd yx) (fst yx)) (set (block c))"
  proof (rule inj_onI)
    fix a b assume a: "a \<in> set (block c)" and b: "b \<in> set (block c)"
      and e: "lti c (snd a) (fst a) = lti c (snd b) (fst b)"
    have "- 1 \<le> snd a" "snd a \<le> local_grid_size0 c" "- 1 \<le> snd b" "snd b \<le> local_grid_size0 c"
      using a b block_set[of "fst a" "snd a" c] block_set[of "fst b" "snd b" c] by auto
    from lti_inj[OF this e] show "a = b" by (simp add: prod_eq_iff)
  qed
  then show ?thesis using distinct_block by (simp add: distinct_map)
qed

lemma scatter_temp_frame:
  "temperature (scatter_temp c W) = temperature W"
  "material (scatter_temp c W) = material W"
  "displs (scatter_temp c W) = displs W"
  "sendcounts (scatter_temp c W) = sendcounts W"
  "local_temp (procs (scatter_temp c W) r) (Suc 0) = local_temp (procs W r) (Suc 0)"
  "local_material (procs (scatter_temp c W) r) = local_material (procs W r)"
  "length (local_temp (procs (scatter_temp c W) r) b) = length (local_temp (procs W r) b)"
  by (simp_all add: scatter_temp_def on_all_def unpack_def)

lemma scatter_temp_buf0:
  assumes "r < world_size c"
  shows "local_temp (procs (scatter_temp c W) r) 0 =
           writes (zip (map (\<lambda>yx. lti c (snd yx) (fst yx)) (block c))
                       (pack (temperature W) (root_start W (ti c 0 0) (localCart c) r)
                          (rd (sendcounts W) (int r)) (localCart c)))
             (local_temp (procs W r) 0)"
  using assms by (simp add: scatter_temp_def on_all_def unpack_gather_Temp)

lemma scatter_temp_ghost:
  assumes "\<not> (0 \<le> x \<and> x < local_grid_size0 c \<and> 0 \<le> y \<and> y < local_grid_size1 c)"
    and "- 1 \<le> x" "x \<le> local_grid_size0 c"
  shows "rd (local_temp (procs (scatter_temp c W) r) 0) (lti c x y) =
         rd (local_temp (procs W r) 0) (lti c x y)"
proof (cases "r < world_size c")
  case True
  let ?ws = "zip (map (\<lambda>yx. lti c (snd yx) (fst yx)) (block c))
                       (pack (temperature W) (root_start W (ti c 0 0) (localCart c) r)
                          (rd (sendcounts W) (int r)) (localCart c))"
  have "lti c x y \<notin> fst ` set ?ws"
  proof
    assume "lti c x y \<in> fst ` set ?ws"
    then have "lti c x y \<in> set (map (\<lambda>yx. lti c (snd yx) (fst yx)) (block c))"
      by (auto dest: set_zip_leftD)
    then obtain x' y' where xy: "(y', x') \<in> set (block c)" "lti c x y = lti c x' y'" by auto
    have b: "0 \<le> x'" "x' < local_grid_size0 c" "0 \<le> y'" "y' < local_grid_size1 c"
      using xy(1) by (simp_all add: block_set)
    from lti_inj[OF assms(2,3) _ _ xy(2)] b have "x = x' \<and> y = y'" by auto
    with b assms(1) show False by auto
  qed
  then show ?thesis using True by (simp add: scatter_temp_buf0 rd_writes_notin)
next
  case False
  then show ?thesis by (simp add: scatter_temp_def on_all_def)
qed

lemma scatter_temp_cell:
  assumes "r < world_size c" "rd (sendcounts W) (int r) = 1"
    and "int (length (local_temp (procs W r) 0)) = (local_grid_size0 c + 2) * (local_grid_size1 c + 2)"
    and "0 \<le> x" "x < local_grid_size0 c" "0 \<le> y" "y < local_grid_size1 c"
  shows "rd (local_temp (procs (scatter_temp c W) r) 0) (lti c x y) =
         rd (temperature W) (rd (displs W) (int r) + ti c x y)"
proof -
  let ?ws = "map (\<lambda>yx. (lti c (snd yx) (fst yx),
                        rd (temperature W) (rd (displs W) (int r) + ti c (snd yx) (fst yx)))) (block c)"
  have e: "local_temp (procs (scatter_temp c W) r) 0 = writes ?ws (local_temp (procs W r) 0)"
    unfolding scatter_temp_buf0[OF assms(1)] pack_def root_cells[OF assms(2)]
    by (simp add: zip_map_same comp_def)
  have d: "distinct (map fst ?ws)" using distinct_local_block[of c] by (simp add: comp_def)
  have m: "(lti c x y, rd (temperature W) (rd (displs W) (int r) + ti c x y)) \<in> set ?ws"
    using assms(4-7) block_set[of y x c] by (intro in_set_mapI[where x = "(y, x)"]) auto
  have r: "0 \<le> lti c x y" "lti c x y < int (length (local_temp (procs W r) 0))"
    using lti_range[of x c y] assms(3-7) by auto
  show ?thesis unfolding e by (rule rd_writes_in[OF d m r])
qed

lemma gather_temp_frame:
  "procs (gather_temp c step W) = procs W"
  "material (gather_temp c step W) = material W"
  "displs (gather_temp c step W) = displs W"
  "sendcounts (gather_temp c step W) = sendcounts W"
  by (simp_all add: gather_temp_def)

lemma gather_writes:
  assumes "rd (sendcounts W) (int r) = 1"
  shows "unpack t (root_start W (ti c 0 0) (localCart c) r) (rd (sendcounts W) (int r)) (localCart c)
           (pack buf (lti c 0 0) 1 (gather_Temp c)) =
         writes (map (\<lambda>yx. (rd (displs W) (int r) + ti c (snd yx) (fst yx),
                            rd buf (lti c (snd yx) (fst yx)))) (block c)) t"
  unfolding unpack_def root_cells[OF assms] pack_gather_Temp by (simp add: zip_map_same)

lemma fold_id:
  assumes "\<And>x. x \<in> set xs \<Longrightarrow> f x s = s"
  shows "fold f xs s = s"
  using assms by (induction xs) auto

lemma valid_mesh2x2: "valid_cfg mesh2x2"
  by (simp add: valid_cfg_def mesh2x2_def)

lemma lgs_mesh2x2: "local_grid_size0 mesh2x2 = 2" "local_grid_size1 mesh2x2 = 2"
  by (simp_all add: local_grid_size0_def local_grid_size1_def mesh2x2_def)

lemma allocated_help:
  "allocated c (helpFunctionForDisplacement c W) = allocated c W"
  by (simp add: allocated_def help_frame)

lemma allocated_field16: "allocated mesh2x2 field16"
  unfolding field16_def allocated_help
  by (simp add: allocated_def allocate_def alloc_proc_def calloc_def lgs_mesh2x2 BORDER_def
      list_all_iff) (simp add: mesh2x2_def world_size_def)

lemma tables_field16: "tables_ready mesh2x2 field16"
  unfolding field16_def
  by (rule tables_ready_help) (simp_all add: allocate_def calloc_def)

text \<open>
  C2. With the arrays allocated and the displacement table filled, \<open>scatter_temp\<close> followed
  at once by \<open>gather_temp\<close> of an even step (the gather that follows the scatter of \<open>main\<close>
  is the one of step 0) leaves the root's \<open>temperature\<close> array as it was, cell for cell,
  whatever the field and whatever the type of its cells.
\<close>

theorem scatter_gather_roundtrip:
  assumes "valid_cfg c" "allocated c W" "tables_ready c W" "step mod 2 = 0"
  shows "temperature (gather_temp c step (scatter_temp c W)) = temperature W"
proof -
  let ?W = "scatter_temp c W"
  let ?f = "\<lambda>r t. unpack t (root_start ?W (ti c 0 0) (localCart c) r)
                        (rd (sendcounts ?W) (int r)) (localCart c)
                        (pack (local_temp (procs ?W r) (step mod 2)) (lti c 0 0) 1 (gather_Temp c))"
  have "?f r (temperature W) = temperature W" if "r \<in> set [0..<world_size c]" for r
  proof -
    have r: "r < world_size c" using that by simp
    have s1: "rd (sendcounts W) (int r) = 1" by (rule tables_at_rank(2)[OF assms(1,3) r])
    have s: "rd (sendcounts ?W) (int r) = 1" using s1 by (simp add: scatter_temp_frame)
    have len: "int (length (local_temp (procs W r) 0)) =
                 (local_grid_size0 c + 2) * (local_grid_size1 c + 2)"
      using allocated_proc[OF assms(2) r] by (simp add: alloc_proc_def)
    have "?f r (temperature W) =
          writes (map (\<lambda>yx. (rd (displs ?W) (int r) + ti c (snd yx) (fst yx),
                             rd (local_temp (procs ?W r) (step mod 2)) (lti c (snd yx) (fst yx))))
                    (block c)) (temperature W)"
      by (rule gather_writes[OF s])
    also have "\<dots> = temperature W"
    proof (rule writes_same)
      fix i v
      assume "(i, v) \<in> set (map (\<lambda>yx. (rd (displs ?W) (int r) + ti c (snd yx) (fst yx),
                             rd (local_temp (procs ?W r) (step mod 2)) (lti c (snd yx) (fst yx))))
                    (block c))"
      then obtain x y where b: "(y, x) \<in> set (block c)"
        and i: "i = rd (displs ?W) (int r) + ti c x y"
        and v: "v = rd (local_temp (procs ?W r) (step mod 2)) (lti c x y)"
        by auto
      have xy: "0 \<le> x" "x < local_grid_size0 c" "0 \<le> y" "y < local_grid_size1 c"
        using b by (simp_all add: block_set)
      show "v = rd (temperature W) i"
        unfolding v i assms(4) scatter_temp_cell[OF r s1 len xy]
        by (simp add: scatter_temp_frame)
    qed
    finally show ?thesis .
  qed
  then have "fold ?f [0..<world_size c] (temperature W) = temperature W"
    by (rule fold_id)
  then show ?thesis by (simp add: gather_temp_def scatter_temp_frame)
qed

theorem scatter_gather_roundtrip_witness:
  "valid_cfg mesh2x2 \<and> allocated mesh2x2 field16 \<and> tables_ready mesh2x2 field16 \<and>
   (0::nat) mod 2 = 0 \<and>
   temperature field16 = [1, 2, 3, 4, 5, 6, 7, 8, 9, 10, 11, 12, 13, 14, 15, 16] \<and>
   temperature (gather_temp mesh2x2 0 (scatter_temp mesh2x2 field16)) =
     [1, 2, 3, 4, 5, 6, 7, 8, 9, 10, 11, 12, 13, 14, 15, 16]"
proof -
  have t: "temperature field16 = [1, 2, 3, 4, 5, 6, 7, 8, 9, 10, 11, 12, 13, 14, 15, 16]"
    by (simp add: field16_def help_frame)
  have z: "(0::nat) mod 2 = 0" by simp
  from scatter_gather_roundtrip[OF valid_mesh2x2 allocated_field16 tables_field16 z] t
    valid_mesh2x2 allocated_field16 tables_field16
  show ?thesis by simp
qed

lemma ti_inj:
  assumes "0 \<le> x" "x < GRID_SIZE0 c" "0 \<le> x'" "x' < GRID_SIZE0 c" "ti c x y = ti c x' y'"
  shows "x = x' \<and> y = y'"
proof -
  have "y * GRID_SIZE0 c + x = y' * GRID_SIZE0 c + x'" using assms(5) by (simp add: ti_def)
  from lin_inj[OF assms(1,2,3,4) this] show ?thesis by simp
qed

lemma ti_range:
  assumes "0 \<le> x" "x < GRID_SIZE0 c" "0 \<le> y" "y < GRID_SIZE1 c"
  shows "0 \<le> ti c x y" "ti c x y < GRID_SIZE0 c * GRID_SIZE1 c"
  unfolding ti_def using lin_range[OF assms] by simp_all

lemma div_mult_le_int:
  fixes a :: int
  assumes "0 < d"
  shows "d * (a div d) \<le> a"
proof -
  have "0 \<le> a mod d" using assms by simp
  moreover have "d * (a div d) + a mod d = a" by simp
  ultimately show ?thesis by linarith
qed

lemma in_block_range:
  fixes n :: int
  assumes "0 \<le> k" "k < d" "0 \<le> x" "x < n"
  shows "0 \<le> k * n + x" "k * n + x < d * n"
proof -
  show "0 \<le> k * n + x" using assms by simp
  have "k * n + x < n * d" using assms by (intro lin_range(2)) auto
  then show "k * n + x < d * n" by (simp add: mult.commute)
qed

lemma global_x_range:
  assumes "valid_cfg c" "r < world_size c" "0 \<le> x" "x < local_grid_size0 c"
  shows "0 \<le> local_origin0 c r + x" "local_origin0 c r + x < GRID_SIZE0 c"
proof -
  have m: "in_mesh c (MPI_Cart_coords c r)" by (rule coords_in_mesh[OF assms(1,2)])
  have k: "0 \<le> fst (MPI_Cart_coords c r)" "fst (MPI_Cart_coords c r) < dims0 c"
    using m by (simp_all add: in_mesh_def)
  show "0 \<le> local_origin0 c r + x"
    unfolding local_origin0_def coords_def using in_block_range(1)[OF k assms(3,4)] .
  have "local_origin0 c r + x < dims0 c * local_grid_size0 c"
    unfolding local_origin0_def coords_def using in_block_range(2)[OF k assms(3,4)] .
  also have "\<dots> \<le> GRID_SIZE0 c"
    unfolding local_grid_size0_def using assms(1) by (intro div_mult_le_int) (simp add: valid_cfg_def)
  finally show "local_origin0 c r + x < GRID_SIZE0 c" .
qed

lemma global_y_range:
  assumes "valid_cfg c" "r < world_size c" "0 \<le> y" "y < local_grid_size1 c"
  shows "0 \<le> local_origin1 c r + y" "local_origin1 c r + y < GRID_SIZE1 c"
proof -
  have m: "in_mesh c (MPI_Cart_coords c r)" by (rule coords_in_mesh[OF assms(1,2)])
  have k: "0 \<le> snd (MPI_Cart_coords c r)" "snd (MPI_Cart_coords c r) < dims1 c"
    using m by (simp_all add: in_mesh_def)
  show "0 \<le> local_origin1 c r + y"
    unfolding local_origin1_def coords_def using in_block_range(1)[OF k assms(3,4)] .
  have "local_origin1 c r + y < dims1 c * local_grid_size1 c"
    unfolding local_origin1_def coords_def using in_block_range(2)[OF k assms(3,4)] .
  also have "\<dots> \<le> GRID_SIZE1 c"
    unfolding local_grid_size1_def using assms(1) by (intro div_mult_le_int) (simp add: valid_cfg_def)
  finally show "local_origin1 c r + y < GRID_SIZE1 c" .
qed

lemma root_cell:
  "ti c (local_origin0 c r) (local_origin1 c r) + ti c x y =
   ti c (local_origin0 c r + x) (local_origin1 c r + y)"
  by (simp add: ti_def algebra_simps)

lemma blocks_disjoint:
  assumes "valid_cfg c" "r < world_size c" "r' < world_size c"
    and "0 \<le> x" "x < local_grid_size0 c" "0 \<le> y" "y < local_grid_size1 c"
    and "0 \<le> x'" "x' < local_grid_size0 c" "0 \<le> y'" "y' < local_grid_size1 c"
    and e: "ti c (local_origin0 c r + x) (local_origin1 c r + y) =
            ti c (local_origin0 c r' + x') (local_origin1 c r' + y')"
  shows "r = r'"
proof -
  have g: "local_origin0 c r + x = local_origin0 c r' + x' \<and>
           local_origin1 c r + y = local_origin1 c r' + y'"
    using ti_inj[OF global_x_range[OF assms(1,2,4,5)] global_x_range[OF assms(1,3,8,9)] e] .
  have "fst (MPI_Cart_coords c r) * local_grid_size0 c + x =
        fst (MPI_Cart_coords c r') * local_grid_size0 c + x'"
    using g by (simp add: local_origin0_def coords_def)
  from lin_inj[OF assms(4,5,8,9) this]
  have a: "fst (MPI_Cart_coords c r) = fst (MPI_Cart_coords c r')" by simp
  have "snd (MPI_Cart_coords c r) * local_grid_size1 c + y =
        snd (MPI_Cart_coords c r') * local_grid_size1 c + y'"
    using g by (simp add: local_origin1_def coords_def)
  from lin_inj[OF assms(6,7,10,11) this]
  have b: "snd (MPI_Cart_coords c r) = snd (MPI_Cart_coords c r')" by simp
  have "MPI_Cart_coords c r = MPI_Cart_coords c r'" using a b by (simp add: prod_eq_iff)
  then have "MPI_Cart_rank c (MPI_Cart_coords c r) = MPI_Cart_rank c (MPI_Cart_coords c r')"
    by simp
  then show ?thesis using assms(1) by (simp add: rank_coords valid_cfg_def)
qed

lemma fold_writes_other:
  assumes "\<And>r. r \<in> set rs \<Longrightarrow> i \<notin> fst ` set (ws r)"
  shows "rd (fold (\<lambda>r t. writes (ws r) t) rs t) i = rd t i"
  using assms by (induction rs arbitrary: t) (simp_all add: rd_writes_notin)

lemma length_fold_writes [simp]:
  "length (fold (\<lambda>r t. writes (ws r) t) rs t) = length t"
  by (induction rs arbitrary: t) simp_all

lemma fold_writes_at:
  assumes "r < n"
    and "\<And>r'. r' < n \<Longrightarrow> r' \<noteq> r \<Longrightarrow> i \<notin> fst ` set (ws r')"
    and "distinct (map fst (ws r))" "(i, v) \<in> set (ws r)" "0 \<le> i" "i < int (length t)"
  shows "rd (fold (\<lambda>r t. writes (ws r) t) [0..<n] t) i = v"
proof -
  have split: "[0..<n] = [0..<r] @ r # [Suc r..<n]"
    using assms(1) by (metis le_add2 le_add_same_cancel2 less_imp_add_positive upt_add_eq_append upt_conv_Cons)
  let ?t1 = "fold (\<lambda>r t. writes (ws r) t) [0..<r] t"
  have "rd (fold (\<lambda>r t. writes (ws r) t) [0..<n] t) i =
        rd (fold (\<lambda>r t. writes (ws r) t) [Suc r..<n] (writes (ws r) ?t1)) i"
    unfolding split by simp
  also have "\<dots> = rd (writes (ws r) ?t1) i"
    by (rule fold_writes_other) (use assms(2) in auto)
  also have "\<dots> = v"
    by (rule rd_writes_in[OF assms(3,4,5)]) (use assms(6) in simp)
  finally show ?thesis .
qed

lemma gather_temp_eq:
  assumes "valid_cfg c" "tables_ready c W"
  shows "temperature (gather_temp c step W) =
           fold (\<lambda>r t. writes (map (\<lambda>yx. (ti c (local_origin0 c r + snd yx) (local_origin1 c r + fst yx),
                                          rd (local_temp (procs W r) (step mod 2)) (lti c (snd yx) (fst yx))))
                               (block c)) t)
             [0..<world_size c] (temperature W)"
proof -
  have "fold (\<lambda>r t. unpack t (root_start W (ti c 0 0) (localCart c) r)
                        (rd (sendcounts W) (int r)) (localCart c)
                        (pack (local_temp (procs W r) (step mod 2)) (lti c 0 0) 1 (gather_Temp c)))
           [0..<world_size c] (temperature W) =
        fold (\<lambda>r t. writes (map (\<lambda>yx. (ti c (local_origin0 c r + snd yx) (local_origin1 c r + fst yx),
                                          rd (local_temp (procs W r) (step mod 2)) (lti c (snd yx) (fst yx))))
                               (block c)) t)
             [0..<world_size c] (temperature W)"
  proof (rule fold_cong[OF refl refl])
    fix r assume "r \<in> set [0..<world_size c]"
    then have r: "r < world_size c" by simp
    note t = tables_at_rank[OF assms r]
    show "(\<lambda>t. unpack t (root_start W (ti c 0 0) (localCart c) r)
                        (rd (sendcounts W) (int r)) (localCart c)
                        (pack (local_temp (procs W r) (step mod 2)) (lti c 0 0) 1 (gather_Temp c))) =
          (\<lambda>t. writes (map (\<lambda>yx. (ti c (local_origin0 c r + snd yx) (local_origin1 c r + fst yx),
                                          rd (local_temp (procs W r) (step mod 2)) (lti c (snd yx) (fst yx))))
                               (block c)) t)"
      unfolding gather_writes[OF t(2)] t(1) root_cell ..
  qed
  then show ?thesis by (simp add: gather_temp_def)
qed

lemma gather_temp_cell:
  assumes "valid_cfg c" "allocated c W" "tables_ready c W" "r < world_size c"
    and "0 \<le> x" "x < local_grid_size0 c" "0 \<le> y" "y < local_grid_size1 c"
  shows "rd (temperature (gather_temp c step W))
            (ti c (local_origin0 c r + x) (local_origin1 c r + y)) =
         rd (local_temp (procs W r) (step mod 2)) (lti c x y)"
proof -
  let ?ws = "\<lambda>r. map (\<lambda>yx. (ti c (local_origin0 c r + snd yx) (local_origin1 c r + fst yx),
                            rd (local_temp (procs W r) (step mod 2)) (lti c (snd yx) (fst yx))))
                     (block c)"
  let ?i = "ti c (local_origin0 c r + x) (local_origin1 c r + y)"
  have other: "?i \<notin> fst ` set (?ws r')" if r': "r' < world_size c" "r' \<noteq> r" for r'
  proof
    assume "?i \<in> fst ` set (?ws r')"
    then obtain x' y' where b: "(y', x') \<in> set (block c)"
      and e: "?i = ti c (local_origin0 c r' + x') (local_origin1 c r' + y')"
      by auto
    have xy': "0 \<le> x'" "x' < local_grid_size0 c" "0 \<le> y'" "y' < local_grid_size1 c"
      using b by (simp_all add: block_set)
    from blocks_disjoint[OF assms(1,4) r'(1) assms(5-8) xy' e] r'(2) show False by simp
  qed
  have d: "distinct (map fst (?ws r))"
  proof -
    have "inj_on (\<lambda>yx. ti c (local_origin0 c r + snd yx) (local_origin1 c r + fst yx)) (set (block c))"
    proof (rule inj_onI)
      fix a b assume a: "a \<in> set (block c)" and b: "b \<in> set (block c)"
        and e: "ti c (local_origin0 c r + snd a) (local_origin1 c r + fst a) =
                ti c (local_origin0 c r + snd b) (local_origin1 c r + fst b)"
      have xa: "0 \<le> snd a" "snd a < local_grid_size0 c" "0 \<le> snd b" "snd b < local_grid_size0 c"
        using a b block_set[of "fst a" "snd a" c] block_set[of "fst b" "snd b" c] by auto
      from ti_inj[OF global_x_range[OF assms(1,4) xa(1,2)] global_x_range[OF assms(1,4) xa(3,4)] e]
      show "a = b" by (simp add: prod_eq_iff)
    qed
    then show ?thesis using distinct_block by (simp add: distinct_map comp_def)
  qed
  have m: "(?i, rd (local_temp (procs W r) (step mod 2)) (lti c x y)) \<in> set (?ws r)"
    using assms(5-8) block_set[of y x c] by (intro in_set_mapI[where x = "(y, x)"]) auto
  have rg: "0 \<le> ?i" "?i < int (length (temperature W))"
    using ti_range[OF global_x_range[OF assms(1,4,5,6)] global_y_range[OF assms(1,4,7,8)]]
      assms(2) by (simp_all add: allocated_def)
  show ?thesis
    unfolding gather_temp_eq[OF assms(1,3)]
    by (rule fold_writes_at[where ws = ?ws, OF assms(4) other d m rg])
qed

section \<open>Initialisation and start-up\<close>

lemma fold_keeps:
  assumes "\<And>x s. g (f x s) = g s"
  shows "g (fold f xs s) = g s"
  by (induction xs arbitrary: s) (simp_all add: assms)

lemma init_local_cells:
  "fold (\<lambda>xy. init_local_cell c (fst xy) (snd xy)) cs p =
     p\<lparr>local_temp := (local_temp p)
          (1 := writes (map (\<lambda>xy. (lti c (fst xy) (snd xy), 10)) cs) (local_temp p 1),
           0 := writes (map (\<lambda>xy. (lti c (fst xy) (snd xy), 10)) cs) (local_temp p 0))\<rparr>"
proof (induction cs arbitrary: p)
  case Nil
  then show ?case by simp
next
  case (Cons a cs)
  show ?case
    unfolding fold_simps Cons.IH
    by (rule proc.equality) (simp_all add: init_local_cell_def Let_def fun_eq_iff)
qed

lemma init_local_temp_eq:
  "init_local_temp c p =
     p\<lparr>local_temp := (local_temp p)
          (1 := writes (map (\<lambda>xy. (lti c (fst xy) (snd xy), 10))
                         (List.product [- 1..local_grid_size0 c] [- 1..local_grid_size1 c]))
                  (local_temp p 1),
           0 := writes (map (\<lambda>xy. (lti c (fst xy) (snd xy), 10))
                         (List.product [- 1..local_grid_size0 c] [- 1..local_grid_size1 c]))
                  (local_temp p 0))\<rparr>"
  unfolding init_local_temp_def fold_fold_product
  by (simp add: init_local_cells BORDER_def)

lemma init_local_temp_frame:
  "local_material (init_local_temp c p) = local_material p"
  "length (local_temp (init_local_temp c p) b) = length (local_temp p b)"
  by (simp_all add: init_local_temp_eq)

lemma alloc_proc_init_local: "alloc_proc c (init_local_temp c p) = alloc_proc c p"
  by (simp add: alloc_proc_def init_local_temp_frame)

lemma init_local_temp_cell:
  assumes "alloc_proc c p" "b < 2"
    and "- 1 \<le> x" "x \<le> local_grid_size0 c" "- 1 \<le> y" "y \<le> local_grid_size1 c"
  shows "rd (local_temp (init_local_temp c p) b) (lti c x y) = 10"
proof -
  let ?cs = "List.product [- 1..local_grid_size0 c] [- 1..local_grid_size1 c]"
  let ?ws = "map (\<lambda>xy. (lti c (fst xy) (snd xy), 10::real)) ?cs"
  have d: "distinct (map fst ?ws)"
    using distinct_lti_cells[of ?cs c] by (auto simp: comp_def distinct_product)
  have m: "(lti c x y, 10) \<in> set ?ws"
    using assms(3-6) by (intro in_set_mapI[where x = "(x, y)"]) auto
  have b: "b = 0 \<or> b = 1" using assms(2) by auto
  have r: "0 \<le> lti c x y" "lti c x y < int (length (local_temp p b))"
    using lti_range[OF assms(3-6)] assms(1) b by (auto simp: alloc_proc_def)
  have "rd (writes ?ws (local_temp p b)) (lti c x y) = 10"
    by (rule rd_writes_in[OF d m r])
  then show ?thesis using b by (auto simp: init_local_temp_eq)
qed

lemma fill_frame:
  "procs (fill_material c m x y W) = procs W"
  "displs (fill_material c m x y W) = displs W"
  "sendcounts (fill_material c m x y W) = sendcounts W"
  "temperature (fill_material c m x y W) = temperature W"
  "length (material (fill_material c m x y W)) = length (material W)"
  "procs (fill_temperature c t x y W) = procs W"
  "displs (fill_temperature c t x y W) = displs W"
  "sendcounts (fill_temperature c t x y W) = sendcounts W"
  "material (fill_temperature c t x y W) = material W"
  "length (temperature (fill_temperature c t x y W)) = length (temperature W)"
  by (simp_all add: fill_material_def fill_temperature_def)

lemma fold2_keeps:
  assumes "\<And>x y s. g (f x y s) = g s"
  shows "g (fold (\<lambda>x. fold (\<lambda>y. f x y) ys) xs s) = g s"
  by (intro fold_keeps assms)

lemma fill_loops_frame:
  "procs (fold (\<lambda>x. fold (\<lambda>y W. fill_material c m x y W) ys) xs W) = procs W"
  "displs (fold (\<lambda>x. fold (\<lambda>y W. fill_material c m x y W) ys) xs W) = displs W"
  "sendcounts (fold (\<lambda>x. fold (\<lambda>y W. fill_material c m x y W) ys) xs W) = sendcounts W"
  "length (material (fold (\<lambda>x. fold (\<lambda>y W. fill_material c m x y W) ys) xs W)) =
     length (material W)"
  "length (temperature (fold (\<lambda>x. fold (\<lambda>y W. fill_material c m x y W) ys) xs W)) =
     length (temperature W)"
  "procs (fold (\<lambda>x. fold (\<lambda>y W. fill_material c m x y (fill_temperature c t x y W)) ys) xs W) =
     procs W"
  "displs (fold (\<lambda>x. fold (\<lambda>y W. fill_material c m x y (fill_temperature c t x y W)) ys) xs W) =
     displs W"
  "sendcounts (fold (\<lambda>x. fold (\<lambda>y W. fill_material c m x y (fill_temperature c t x y W)) ys) xs W) =
     sendcounts W"
  "length (material (fold (\<lambda>x. fold (\<lambda>y W. fill_material c m x y (fill_temperature c t x y W)) ys) xs W)) =
     length (material W)"
  "length (temperature (fold (\<lambda>x. fold (\<lambda>y W. fill_material c m x y (fill_temperature c t x y W)) ys) xs W)) =
     length (temperature W)"
  "procs (fold (\<lambda>x. fold (\<lambda>y W. fill_temperature c t x y (fill_material c m x y W)) ys) xs W) =
     procs W"
  "displs (fold (\<lambda>x. fold (\<lambda>y W. fill_temperature c t x y (fill_material c m x y W)) ys) xs W) =
     displs W"
  "sendcounts (fold (\<lambda>x. fold (\<lambda>y W. fill_temperature c t x y (fill_material c m x y W)) ys) xs W) =
     sendcounts W"
  "length (material (fold (\<lambda>x. fold (\<lambda>y W. fill_temperature c t x y (fill_material c m x y W)) ys) xs W)) =
     length (material W)"
  "length (temperature (fold (\<lambda>x. fold (\<lambda>y W. fill_temperature c t x y (fill_material c m x y W)) ys) xs W)) =
     length (temperature W)"
  by (rule fold2_keeps, simp add: fill_frame)+

lemma init_temp_material_frame:
  "procs (init_temp_material c W) = procs W"
  "displs (init_temp_material c W) = displs W"
  "sendcounts (init_temp_material c W) = sendcounts W"
  "length (material (init_temp_material c W)) = length (material W)"
  "length (temperature (init_temp_material c W)) = length (temperature W)"
  unfolding init_temp_material_def Let_def
  by (simp_all only: fill_loops_frame)

lemma scatter_material_frame:
  "temperature (scatter_material c W) = temperature W"
  "material (scatter_material c W) = material W"
  "displs (scatter_material c W) = displs (helpFunctionForDisplacement c W)"
  "sendcounts (scatter_material c W) = sendcounts (helpFunctionForDisplacement c W)"
  "local_temp (procs (scatter_material c W) r) = local_temp (procs W r)"
  "length (local_material (procs (scatter_material c W) r)) = length (local_material (procs W r))"
  by (simp_all add: scatter_material_def Let_def on_all_def help_frame unpack_def)

lemma on_all_frame:
  "temperature (on_all c f W) = temperature W"
  "material (on_all c f W) = material W"
  "displs (on_all c f W) = displs W"
  "sendcounts (on_all c f W) = sendcounts W"
  "r < world_size c \<Longrightarrow> procs (on_all c f W) r = f r (procs W r)"
  "\<not> r < world_size c \<Longrightarrow> procs (on_all c f W) r = procs W r"
  by (simp_all add: on_all_def)

lemma allocated_allocate:
  assumes "valid_cfg c"
  shows "allocated c (allocate c)"
proof -
  have n: "0 \<le> local_grid_size0 c" "0 \<le> local_grid_size1 c" using lgs_nonneg[OF assms] .
  have g: "0 \<le> GRID_SIZE0 c" "0 \<le> GRID_SIZE1 c" using assms by (simp_all add: valid_cfg_def)
  show ?thesis
    using n g
    by (simp add: allocated_def allocate_def alloc_proc_def calloc_def BORDER_def list_all_iff)
qed

lemma allocated_on_all:
  assumes "allocated c W" "\<And>r p. alloc_proc c p \<Longrightarrow> alloc_proc c (f r p)"
  shows "allocated c (on_all c f W)"
  using assms by (simp add: allocated_def on_all_def list_all_iff)

lemma allocated_init_temp_material:
  "allocated c (init_temp_material c W) = allocated c W"
  by (simp add: allocated_def init_temp_material_frame)

lemma allocated_scatter_material:
  "allocated c (scatter_material c W) = allocated c W"
  by (simp add: allocated_def alloc_proc_def scatter_material_frame help_frame)

lemma allocated_scatter_temp:
  "allocated c (scatter_temp c W) = allocated c W"
  by (simp add: allocated_def alloc_proc_def scatter_temp_frame)

lemma allocated_gather_temp:
  assumes "valid_cfg c" "tables_ready c W"
  shows "allocated c (gather_temp c step W) = allocated c W"
  by (simp add: allocated_def gather_temp_frame gather_temp_eq[OF assms])

lemma keeps_layout_init_temp_material:
  assumes "valid_cfg c"
  shows "keeps_layout c (init_temp_material c)"
  using allocated_allocate[OF assms]
  by (simp add: keeps_layout_def init_temp_material_frame allocated_def)

lemma keeps_layout_uniform_fields:
  assumes "valid_cfg c"
  shows "keeps_layout c (uniform_fields c t m)"
  using allocated_allocate[OF assms] assms
  by (simp add: keeps_layout_def uniform_fields_def allocated_def valid_cfg_def)

lemma allocated_init:
  assumes "valid_cfg c" "keeps_layout c init"
  shows "allocated c (init (allocate c))"
  using allocated_allocate[OF assms(1)] assms(2)
  by (simp add: keeps_layout_def allocated_def)

lemma allocated_startup:
  assumes "valid_cfg c" "keeps_layout c init"
  shows "allocated c (startup c init)"
  unfolding startup_def allocated_scatter_temp allocated_scatter_material
  by (rule allocated_on_all) (simp_all add: allocated_init[OF assms] alloc_proc_init_local)

lemma tables_ready_cong:
  "displs W' = displs W \<Longrightarrow> sendcounts W' = sendcounts W \<Longrightarrow>
   tables_ready c W' = tables_ready c W"
  by (simp add: tables_ready_def)

lemma tables_ready_scatter_material:
  assumes "length (displs W) = world_size c" "length (sendcounts W) = world_size c"
  shows "tables_ready c (scatter_material c W)"
  using tables_ready_help[OF assms]
  by (simp add: tables_ready_cong[OF scatter_material_frame(3,4)])

lemma tables_ready_startup:
  assumes "keeps_layout c init"
  shows "tables_ready c (startup c init)"
  unfolding startup_def tables_ready_cong[OF scatter_temp_frame(3,4)]
  by (rule tables_ready_scatter_material)
     (use assms in \<open>simp_all add: on_all_frame keeps_layout_def\<close>)

lemma startup_local_temp:
  assumes "keeps_layout c init" "r < world_size c"
  shows "local_temp (procs (startup c init) r) (Suc 0) =
           local_temp (init_local_temp c (procs (allocate c) r)) (Suc 0)"
    and "ghost c x y \<Longrightarrow>
         rd (local_temp (procs (startup c init) r) 0) (lti c x y) =
         rd (local_temp (init_local_temp c (procs (allocate c) r)) 0) (lti c x y)"
proof -
  have p: "procs (init (allocate c)) = procs (allocate c)"
    using assms(1) by (simp add: keeps_layout_def)
  show "local_temp (procs (startup c init) r) (Suc 0) =
           local_temp (init_local_temp c (procs (allocate c) r)) (Suc 0)"
    using assms(2)
    by (simp add: startup_def scatter_temp_frame scatter_material_frame on_all_frame p)
  assume g: "ghost c x y"
  then have "rd (local_temp (procs (startup c init) r) 0) (lti c x y) =
             rd (local_temp (procs (scatter_material c (on_all c (\<lambda>r. init_local_temp c)
                   (init (allocate c)))) r) 0) (lti c x y)"
    unfolding startup_def by (intro scatter_temp_ghost) (auto simp: ghost_def interior_def)
  then show "rd (local_temp (procs (startup c init) r) 0) (lti c x y) =
         rd (local_temp (init_local_temp c (procs (allocate c) r)) 0) (lti c x y)"
    using assms(2) by (simp add: scatter_material_frame on_all_frame p)
qed

lemma startup_buffer1:
  assumes "valid_cfg c" "keeps_layout c init" "r < world_size c"
    and "- 1 \<le> x" "x \<le> local_grid_size0 c" "- 1 \<le> y" "y \<le> local_grid_size1 c"
  shows "rd (local_temp (procs (startup c init) r) (Suc 0)) (lti c x y) = 10"
proof -
  have a: "alloc_proc c (procs (allocate c) r)"
    by (rule allocated_proc[OF allocated_allocate[OF assms(1)] assms(3)])
  show ?thesis
    using startup_local_temp(1)[OF assms(2,3)] init_local_temp_cell[OF a _ assms(4-7), of 1]
    by simp
qed

lemma startup_ghost:
  assumes "valid_cfg c" "keeps_layout c init" "r < world_size c" "ghost c x y"
  shows "rd (local_temp (procs (startup c init) r) 0) (lti c x y) = 10"
proof -
  have a: "alloc_proc c (procs (allocate c) r)"
    by (rule allocated_proc[OF allocated_allocate[OF assms(1)] assms(3)])
  have w: "- 1 \<le> x" "x \<le> local_grid_size0 c" "- 1 \<le> y" "y \<le> local_grid_size1 c"
    using assms(4) by (auto simp: ghost_def)
  show ?thesis
    using startup_local_temp(2)[OF assms(2,3,4)] init_local_temp_cell[OF a _ w, of 0] by simp
qed

text \<open>
  C10. On every rank \<open>scatter_temp\<close> stores into interior cells of \<open>local_temp[0]\<close> only:
  \<open>local_temp[1]\<close> and the ghost cells of \<open>local_temp[0]\<close> keep their values (the function has
  no step argument). After the start-up of \<open>main\<close> every cell of \<open>local_temp[1]\<close> and every
  ghost cell of \<open>local_temp[0]\<close> therefore still holds the 10.0 of \<open>init_local_temp\<close>.
\<close>

theorem scatter_temp_frame_effect:
  assumes "valid_cfg c" "r < world_size c"
  shows "local_temp (procs (scatter_temp c W) r) 1 = local_temp (procs W r) 1 \<and>
         (\<forall>x y. ghost c x y \<longrightarrow>
            rd (local_temp (procs (scatter_temp c W) r) 0) (lti c x y) =
            rd (local_temp (procs W r) 0) (lti c x y)) \<and>
         (\<forall>x y. interior c x y \<or> ghost c x y \<longrightarrow>
            rd (local_temp (procs (startup c (init_temp_material c)) r) 1) (lti c x y) = 10) \<and>
         (\<forall>x y. ghost c x y \<longrightarrow>
            rd (local_temp (procs (startup c (init_temp_material c)) r) 0) (lti c x y) = 10)"
proof (intro conjI allI impI)
  show "local_temp (procs (scatter_temp c W) r) 1 = local_temp (procs W r) 1"
    by (simp add: scatter_temp_frame)
next
  fix x y assume "ghost c x y"
  then show "rd (local_temp (procs (scatter_temp c W) r) 0) (lti c x y) =
             rd (local_temp (procs W r) 0) (lti c x y)"
    by (intro scatter_temp_ghost) (auto simp: ghost_def interior_def)
next
  note k = keeps_layout_init_temp_material[OF assms(1)]
  {
    fix x y assume "interior c x y \<or> ghost c x y"
    then have w: "- 1 \<le> x" "x \<le> local_grid_size0 c" "- 1 \<le> y" "y \<le> local_grid_size1 c"
      by (auto simp: ghost_def interior_def)
    show "rd (local_temp (procs (startup c (init_temp_material c)) r) 1) (lti c x y) = 10"
      using startup_buffer1[OF assms(1) k assms(2) w] by simp
  }
  {
    fix x y assume g: "ghost c x y"
    show "rd (local_temp (procs (startup c (init_temp_material c)) r) 0) (lti c x y) = 10"
      by (rule startup_ghost[OF assms(1) k assms(2) g])
  }
qed

theorem scatter_temp_frame_effect_witness:
  "valid_cfg mesh2x2 \<and> 3 < world_size mesh2x2 \<and>
   ghost mesh2x2 (- 1) 0 \<and> interior mesh2x2 1 1 \<and>
   local_temp (procs (scatter_temp mesh2x2 field16) 3) 1 = local_temp (procs field16 3) 1 \<and>
   rd (local_temp (procs (scatter_temp mesh2x2 field16) 3) 0) (lti mesh2x2 (- 1) 0) =
     rd (local_temp (procs field16 3) 0) (lti mesh2x2 (- 1) 0) \<and>
   rd (local_temp (procs (startup mesh2x2 (init_temp_material mesh2x2)) 3) 1) (lti mesh2x2 1 1) = 10 \<and>
   rd (local_temp (procs (startup mesh2x2 (init_temp_material mesh2x2)) 3) 0) (lti mesh2x2 (- 1) 0) = 10"
proof -
  have r: "3 < world_size mesh2x2" by (simp add: world_size_def mesh2x2_def)
  have g: "ghost mesh2x2 (- 1) 0" by (simp add: ghost_def interior_def lgs_mesh2x2)
  have i: "interior mesh2x2 1 1" by (simp add: interior_def lgs_mesh2x2)
  note t = scatter_temp_frame_effect[OF valid_mesh2x2 r, of field16]
  show ?thesis using t g i r valid_mesh2x2 by blast
qed

section \<open>The border exchange\<close>

lemma neighbour_defs:
  "north c r = peer c (fst (MPI_Cart_coords c r), snd (MPI_Cart_coords c r) - 1)"
  "south c r = peer c (fst (MPI_Cart_coords c r), snd (MPI_Cart_coords c r) + 1)"
  "west c r = peer c (fst (MPI_Cart_coords c r) - 1, snd (MPI_Cart_coords c r))"
  "east c r = peer c (fst (MPI_Cart_coords c r) + 1, snd (MPI_Cart_coords c r))"
  by (simp_all add: north_def south_def west_def east_def MPI_Cart_shift_def split_beta)

lemma peer_Some:
  assumes "peer c xy = Some n"
  shows "in_mesh c xy" "n = MPI_Cart_rank c xy" "n < world_size c" "MPI_Cart_coords c n = xy"
proof -
  show m: "in_mesh c xy" using assms by (simp add: peer_def split: if_splits)
  show n: "n = MPI_Cart_rank c xy" using assms by (simp add: peer_def split: if_splits)
  show "n < world_size c" unfolding n by (rule rank_less[OF m])
  show "MPI_Cart_coords c n = xy" unfolding n by (rule coords_rank[OF m])
qed

lemma peer_eq_rank:
  assumes "valid_cfg c" "r < world_size c"
  shows "peer c xy = Some r \<longleftrightarrow> xy = MPI_Cart_coords c r"
proof
  assume "peer c xy = Some r"
  from peer_Some(4)[OF this] show "xy = MPI_Cart_coords c r" by simp
next
  assume e: "xy = MPI_Cart_coords c r"
  have "in_mesh c xy" unfolding e by (rule coords_in_mesh[OF assms])
  moreover have "MPI_Cart_rank c xy = r"
    unfolding e using assms(1) by (simp add: rank_coords valid_cfg_def)
  ultimately show "peer c xy = Some r" by (simp add: peer_def)
qed

lemma north_back:
  assumes "valid_cfg c" "r < world_size c" "north c r = Some n"
  shows "n < world_size c" "south c n = Some r" "north c n \<noteq> Some r" "west c n \<noteq> Some r"
    "east c n \<noteq> Some r"
proof -
  note p = peer_Some[OF assms(3)[unfolded neighbour_defs]]
  show "n < world_size c" by (rule p(3))
  show "south c n = Some r" "north c n \<noteq> Some r" "west c n \<noteq> Some r" "east c n \<noteq> Some r"
    unfolding neighbour_defs peer_eq_rank[OF assms(1,2)] p(4) by (simp_all add: prod_eq_iff)
qed

lemma south_back:
  assumes "valid_cfg c" "r < world_size c" "south c r = Some n"
  shows "n < world_size c" "north c n = Some r" "south c n \<noteq> Some r" "west c n \<noteq> Some r"
    "east c n \<noteq> Some r"
proof -
  note p = peer_Some[OF assms(3)[unfolded neighbour_defs]]
  show "n < world_size c" by (rule p(3))
  show "north c n = Some r" "south c n \<noteq> Some r" "west c n \<noteq> Some r" "east c n \<noteq> Some r"
    unfolding neighbour_defs peer_eq_rank[OF assms(1,2)] p(4) by (simp_all add: prod_eq_iff)
qed

lemma west_back:
  assumes "valid_cfg c" "r < world_size c" "west c r = Some n"
  shows "n < world_size c" "east c n = Some r" "north c n \<noteq> Some r" "south c n \<noteq> Some r"
    "west c n \<noteq> Some r"
proof -
  note p = peer_Some[OF assms(3)[unfolded neighbour_defs]]
  show "n < world_size c" by (rule p(3))
  show "east c n = Some r" "north c n \<noteq> Some r" "south c n \<noteq> Some r" "west c n \<noteq> Some r"
    unfolding neighbour_defs peer_eq_rank[OF assms(1,2)] p(4) by (simp_all add: prod_eq_iff)
qed

lemma east_back:
  assumes "valid_cfg c" "r < world_size c" "east c r = Some n"
  shows "n < world_size c" "west c n = Some r" "north c n \<noteq> Some r" "south c n \<noteq> Some r"
    "east c n \<noteq> Some r"
proof -
  note p = peer_Some[OF assms(3)[unfolded neighbour_defs]]
  show "n < world_size c" by (rule p(3))
  show "west c n = Some r" "north c n \<noteq> Some r" "south c n \<noteq> Some r" "east c n \<noteq> Some r"
    unfolding neighbour_defs peer_eq_rank[OF assms(1,2)] p(4) by (simp_all add: prod_eq_iff)
qed

lemma neighbours_distinct:
  assumes "valid_cfg c" "r < world_size c"
  shows "north c r = Some n \<Longrightarrow> south c r \<noteq> Some n"
    "north c r = Some n \<Longrightarrow> west c r \<noteq> Some n"
    "north c r = Some n \<Longrightarrow> east c r \<noteq> Some n"
    "south c r = Some n \<Longrightarrow> west c r \<noteq> Some n"
    "south c r = Some n \<Longrightarrow> east c r \<noteq> Some n"
    "west c r = Some n \<Longrightarrow> east c r \<noteq> Some n"
proof -
  have a: "xy = xy'" if "peer c xy = Some n" "peer c xy' = Some n" for xy xy'
    using peer_Some(4)[OF that(1)] peer_Some(4)[OF that(2)] by simp
  show "north c r = Some n \<Longrightarrow> south c r \<noteq> Some n"
    "north c r = Some n \<Longrightarrow> west c r \<noteq> Some n"
    "north c r = Some n \<Longrightarrow> east c r \<noteq> Some n"
    "south c r = Some n \<Longrightarrow> west c r \<noteq> Some n"
    "south c r = Some n \<Longrightarrow> east c r \<noteq> Some n"
    "west c r = Some n \<Longrightarrow> east c r \<noteq> Some n"
    unfolding neighbour_defs by (auto dest: a)
qed

lemma after_recv_other: "src \<noteq> Some s \<Longrightarrow> after_recv src ib s = ib s"
  by (cases src) (auto simp: after_recv_def)

lemma send_from_keeps:
  "fst (send_from b start ty dest pe) = fst pe"
  "inbox (snd (send_from b start ty dest pe)) = inbox (snd pe)"
  by (simp_all add: send_from_def MPI_Send_def split: option.splits)

lemma recv_into_ok:
  assumes "\<And>s. src = Some s \<Longrightarrow> inbox (snd pe) s \<noteq> []"
  obtains pe' where "recv_into b start ty src pe = Some pe'"
    and "fst pe' = (fst pe)\<lparr>local_temp := (local_temp (fst pe))
            (b := recv_buf (local_temp (fst pe) b) start ty src (inbox (snd pe)))\<rparr>"
    and "inbox (snd pe') = after_recv src (inbox (snd pe))"
proof (cases src)
  case None
  show ?thesis
    by (rule that[of pe]) (simp_all add: None recv_into_def MPI_Recv_def recv_buf_def after_recv_def)
next
  case (Some s)
  then obtain m ms where m: "inbox (snd pe) s = m # ms"
    using assms[of s] by (cases "inbox (snd pe) s") auto
  show ?thesis
    by (rule that[of "((fst pe)\<lparr>local_temp := (local_temp (fst pe))
            (b := unpack (local_temp (fst pe) b) start 1 ty m)\<rparr>,
            (snd pe)\<lparr>inbox := (inbox (snd pe))(s := ms)\<rparr>)"])
       (simp_all add: Some m recv_into_def MPI_Recv_def recv_buf_def after_recv_def)
qed

lemma border_sends_eq:
  "border_sends c s step p d =
     (if north c s = Some d
      then [pack (local_temp p ((step + 1) mod 2)) (lti c 0 0) 1 (border_row c)] else []) @
     (if south c s = Some d
      then [pack (local_temp p ((step + 1) mod 2)) (lti c 0 (local_grid_size1 c)) 1 (border_row c)]
      else []) @
     (if west c s = Some d
      then [pack (local_temp p ((step + 1) mod 2)) (lti c 0 0) 1 (border_col c)] else []) @
     (if east c s = Some d
      then [pack (local_temp p ((step + 1) mod 2)) (lti c (local_grid_size0 c - 1) 0) 1 (border_col c)]
      else [])"
  by (cases "north c s"; cases "south c s"; cases "west c s"; cases "east c s")
     (simp_all add: border_sends_def send_from_def MPI_Send_def Let_def)

lemma arriving_from:
  assumes "valid_cfg c" "r < world_size c"
  shows "north c r = Some n \<Longrightarrow> arriving c step W r n =
           [pack (local_temp (procs W n) ((step + 1) mod 2)) (lti c 0 (local_grid_size1 c)) 1
              (border_row c)]"
    and "south c r = Some n \<Longrightarrow> arriving c step W r n =
           [pack (local_temp (procs W n) ((step + 1) mod 2)) (lti c 0 0) 1 (border_row c)]"
    and "west c r = Some n \<Longrightarrow> arriving c step W r n =
           [pack (local_temp (procs W n) ((step + 1) mod 2)) (lti c (local_grid_size0 c - 1) 0) 1
              (border_col c)]"
    and "east c r = Some n \<Longrightarrow> arriving c step W r n =
           [pack (local_temp (procs W n) ((step + 1) mod 2)) (lti c 0 0) 1 (border_col c)]"
proof -
  show "north c r = Some n \<Longrightarrow> arriving c step W r n =
           [pack (local_temp (procs W n) ((step + 1) mod 2)) (lti c 0 (local_grid_size1 c)) 1
              (border_row c)]"
    using north_back[OF assms, of n] by (simp add: arriving_def border_sends_eq)
  show "south c r = Some n \<Longrightarrow> arriving c step W r n =
           [pack (local_temp (procs W n) ((step + 1) mod 2)) (lti c 0 0) 1 (border_row c)]"
    using south_back[OF assms, of n] by (simp add: arriving_def border_sends_eq)
  show "west c r = Some n \<Longrightarrow> arriving c step W r n =
           [pack (local_temp (procs W n) ((step + 1) mod 2)) (lti c (local_grid_size0 c - 1) 0) 1
              (border_col c)]"
    using west_back[OF assms, of n] by (simp add: arriving_def border_sends_eq)
  show "east c r = Some n \<Longrightarrow> arriving c step W r n =
           [pack (local_temp (procs W n) ((step + 1) mod 2)) (lti c 0 0) 1 (border_col c)]"
    using east_back[OF assms, of n] by (simp add: arriving_def border_sends_eq)
qed

lemma unpack_pack_row:
  "unpack buf (lti c 0 y0) 1 (border_row c) (pack src (lti c 0 y1) 1 (border_row c)) =
   row_copy c buf y0 src y1"
  by (simp add: unpack_def pack_def cells_border_row row_copy_def zip_map_same comp_def)

lemma unpack_pack_col:
  "unpack buf (lti c x0 0) 1 (border_col c) (pack src (lti c x1 0) 1 (border_col c)) =
   col_copy c buf x0 src x1"
  by (simp add: unpack_def pack_def cells_border_col col_copy_def zip_map_same comp_def)

lemma border_exchange_at_eq:
  assumes "valid_cfg c" "r < world_size c"
  shows "map_option fst (border_exchange_at c step W r) =
           Some ((procs W r)\<lparr>local_temp := (local_temp (procs W r))
                   (step mod 2 := halo_buffer c step W r)\<rparr>)"
proof -
  let ?ib = "arriving c step W r"
  let ?p = "procs W r"
  let ?i = "step mod 2" and ?o = "(step + 1) mod 2"
  note d = neighbours_distinct[OF assms]
  note a = arriving_from[OF assms, of _ step W]
  define pe1 where "pe1 = send_from ?o (lti c 0 0) (border_row c) (north c r)
      (?p, \<lparr>inbox = ?ib, outbox = (\<lambda>d. [])\<rparr>)"
  have pe1: "fst pe1 = ?p" "inbox (snd pe1) = ?ib" by (simp_all add: pe1_def send_from_keeps)
  obtain pe2 where pe2: "recv_into ?i (lti c 0 (- 1)) (border_row c) (north c r) pe1 = Some pe2"
    "fst pe2 = (fst pe1)\<lparr>local_temp := (local_temp (fst pe1))
        (?i := recv_buf (local_temp (fst pe1) ?i) (lti c 0 (- 1)) (border_row c) (north c r)
                 (inbox (snd pe1)))\<rparr>"
    "inbox (snd pe2) = after_recv (north c r) (inbox (snd pe1))"
    by (rule recv_into_ok[of "north c r" pe1]) (simp add: pe1 a(1))
  have ib2: "inbox (snd pe2) s = ?ib s" if "south c r = Some s \<or> west c r = Some s \<or> east c r = Some s" for s
    unfolding pe2(3) pe1 using that d by (intro after_recv_other) auto
  obtain pe3 where pe3: "recv_into ?i (lti c 0 (local_grid_size1 c)) (border_row c) (south c r) pe2 = Some pe3"
    "fst pe3 = (fst pe2)\<lparr>local_temp := (local_temp (fst pe2))
        (?i := recv_buf (local_temp (fst pe2) ?i) (lti c 0 (local_grid_size1 c)) (border_row c) (south c r)
                 (inbox (snd pe2)))\<rparr>"
    "inbox (snd pe3) = after_recv (south c r) (inbox (snd pe2))"
    by (rule recv_into_ok[of "south c r" pe2]) (simp add: ib2 a(2))
  have ib3: "inbox (snd pe3) s = ?ib s" if "west c r = Some s \<or> east c r = Some s" for s
  proof -
    have "inbox (snd pe3) s = inbox (snd pe2) s"
      unfolding pe3(3) using that d by (intro after_recv_other) auto
    then show ?thesis using ib2[of s] that by simp
  qed
  define pe4 where "pe4 = send_from ?o (lti c 0 0) (border_col c) (west c r)
      (send_from ?o (lti c 0 (local_grid_size1 c)) (border_row c) (south c r) pe3)"
  have pe4: "fst pe4 = fst pe3" "inbox (snd pe4) = inbox (snd pe3)"
    by (simp_all add: pe4_def send_from_keeps)
  obtain pe5 where pe5: "recv_into ?i (lti c (- 1) 0) (border_col c) (west c r) pe4 = Some pe5"
    "fst pe5 = (fst pe4)\<lparr>local_temp := (local_temp (fst pe4))
        (?i := recv_buf (local_temp (fst pe4) ?i) (lti c (- 1) 0) (border_col c) (west c r)
                 (inbox (snd pe4)))\<rparr>"
    "inbox (snd pe5) = after_recv (west c r) (inbox (snd pe4))"
    by (rule recv_into_ok[of "west c r" pe4]) (simp add: pe4 ib3 a(3))
  have ib5: "inbox (snd pe5) s = ?ib s" if "east c r = Some s" for s
  proof -
    have "inbox (snd pe5) s = inbox (snd pe4) s"
      unfolding pe5(3) using that d by (intro after_recv_other) auto
    then show ?thesis using ib3[of s] that by (simp add: pe4)
  qed
  obtain pe6 where pe6: "recv_into ?i (lti c (local_grid_size0 c) 0) (border_col c) (east c r) pe5 = Some pe6"
    "fst pe6 = (fst pe5)\<lparr>local_temp := (local_temp (fst pe5))
        (?i := recv_buf (local_temp (fst pe5) ?i) (lti c (local_grid_size0 c) 0) (border_col c) (east c r)
                 (inbox (snd pe5)))\<rparr>"
    "inbox (snd pe6) = after_recv (east c r) (inbox (snd pe5))"
    by (rule recv_into_ok[of "east c r" pe5]) (simp add: ib5 a(4))
  have run: "border_exchange_at c step W r =
     Some (send_from ?o (lti c (local_grid_size0 c - 1) 0) (border_col c) (east c r) pe6)"
    unfolding border_exchange_at_def border_exchange_rank_def Let_def
    by (simp only: pe1_def[symmetric] pe2(1) pe3(1) pe4_def[symmetric] pe5(1) pe6(1)
        Option.bind.simps)
  have bN: "recv_buf (local_temp ?p ?i) (lti c 0 (- 1)) (border_row c) (north c r) ?ib =
        (case north c r of None \<Rightarrow> local_temp ?p ?i
         | Some n \<Rightarrow> row_copy c (local_temp ?p ?i) (- 1) (local_temp (procs W n) ?o) (local_grid_size1 c))"
    by (cases "north c r") (simp_all add: recv_buf_def a(1) unpack_pack_row)
  have bS: "recv_buf b (lti c 0 (local_grid_size1 c)) (border_row c) (south c r) (inbox (snd pe2)) =
        (case south c r of None \<Rightarrow> b
         | Some n \<Rightarrow> row_copy c b (local_grid_size1 c) (local_temp (procs W n) ?o) 0)" for b
    by (cases "south c r") (simp_all add: recv_buf_def ib2 a(2) unpack_pack_row)
  have bW: "recv_buf b (lti c (- 1) 0) (border_col c) (west c r) (inbox (snd pe4)) =
        (case west c r of None \<Rightarrow> b
         | Some n \<Rightarrow> col_copy c b (- 1) (local_temp (procs W n) ?o) (local_grid_size0 c - 1))" for b
    by (cases "west c r") (simp_all add: recv_buf_def pe4 ib3 a(3) unpack_pack_col)
  have bE: "recv_buf b (lti c (local_grid_size0 c) 0) (border_col c) (east c r) (inbox (snd pe5)) =
        (case east c r of None \<Rightarrow> b
         | Some n \<Rightarrow> col_copy c b (local_grid_size0 c) (local_temp (procs W n) ?o) 0)" for b
    by (cases "east c r") (simp_all add: recv_buf_def ib5 a(4) unpack_pack_col)
  define B1 where "B1 = (case north c r of None \<Rightarrow> local_temp ?p ?i
         | Some n \<Rightarrow> row_copy c (local_temp ?p ?i) (- 1) (local_temp (procs W n) ?o) (local_grid_size1 c))"
  define B2 where "B2 = (case south c r of None \<Rightarrow> B1
         | Some n \<Rightarrow> row_copy c B1 (local_grid_size1 c) (local_temp (procs W n) ?o) 0)"
  define B3 where "B3 = (case west c r of None \<Rightarrow> B2
         | Some n \<Rightarrow> col_copy c B2 (- 1) (local_temp (procs W n) ?o) (local_grid_size0 c - 1))"
  define B4 where "B4 = (case east c r of None \<Rightarrow> B3
         | Some n \<Rightarrow> col_copy c B3 (local_grid_size0 c) (local_temp (procs W n) ?o) 0)"
  have f2: "fst pe2 = ?p\<lparr>local_temp := (local_temp ?p)(?i := B1)\<rparr>"
    unfolding pe2(2) pe1 bN B1_def ..
  have f3: "fst pe3 = ?p\<lparr>local_temp := (local_temp ?p)(?i := B2)\<rparr>"
    unfolding pe3(2) bS B2_def f2 by (simp split: option.split)
  have f5: "fst pe5 = ?p\<lparr>local_temp := (local_temp ?p)(?i := B3)\<rparr>"
    unfolding pe5(2) bW B3_def pe4(1) f3 by (simp split: option.split)
  have f6: "fst pe6 = ?p\<lparr>local_temp := (local_temp ?p)(?i := B4)\<rparr>"
    unfolding pe6(2) bE B4_def f5 by (simp split: option.split)
  have "halo_buffer c step W r = B4"
    unfolding halo_buffer_def Let_def B4_def B3_def B2_def B1_def ..
  then have "fst pe6 = ?p\<lparr>local_temp := (local_temp ?p)(?i := halo_buffer c step W r)\<rparr>"
    using f6 by simp
  then show ?thesis unfolding run by (simp add: send_from_keeps)
qed

lemma border_exchange_eq:
  assumes "valid_cfg c"
  shows "border_exchange c step W =
     Some (on_all c (\<lambda>r p. p\<lparr>local_temp := (local_temp p)(step mod 2 := halo_buffer c step W r)\<rparr>) W)"
proof -
  have ok: "border_exchange_at c step W r \<noteq> None" if "r < world_size c" for r
    using border_exchange_at_eq[OF assms that, of step W] by auto
  have f: "fst (the (border_exchange_at c step W r)) =
           (procs W r)\<lparr>local_temp := (local_temp (procs W r))(step mod 2 := halo_buffer c step W r)\<rparr>"
    if "r < world_size c" for r
    using border_exchange_at_eq[OF assms that, of step W] by (auto simp: map_option_case split: option.splits)
  have "on_all c (\<lambda>r p. fst (the (border_exchange_at c step W r))) W =
        on_all c (\<lambda>r p. p\<lparr>local_temp := (local_temp p)(step mod 2 := halo_buffer c step W r)\<rparr>) W"
    by (simp add: on_all_def f cong: if_cong)
  then show ?thesis using ok by (simp add: border_exchange_def list_all_iff)
qed

lemma length_row_copy [simp]: "length (row_copy c buf y0 src y1) = length buf"
  by (simp add: row_copy_def)

lemma length_col_copy [simp]: "length (col_copy c buf x0 src x1) = length buf"
  by (simp add: col_copy_def)

lemma rd_row_copy:
  assumes "int (length buf) = (local_grid_size0 c + 2) * (local_grid_size1 c + 2)"
    and "- 1 \<le> y0" "y0 \<le> local_grid_size1 c" "- 1 \<le> x" "x \<le> local_grid_size0 c"
  shows "rd (row_copy c buf y0 src y1) (lti c x y) =
         (if y = y0 \<and> 0 \<le> x \<and> x < local_grid_size0 c then rd src (lti c x y1)
          else rd buf (lti c x y))"
proof (cases "y = y0 \<and> 0 \<le> x \<and> x < local_grid_size0 c")
  case True
  let ?ws = "map (\<lambda>x. (lti c x y0, rd src (lti c x y1))) [0..local_grid_size0 c - 1]"
  have "inj_on (\<lambda>x. lti c x y0) (set [0..local_grid_size0 c - 1])"
    by (rule inj_onI) (auto dest: lti_inj[rotated 4])
  then have d: "distinct (map fst ?ws)" by (simp add: comp_def distinct_map)
  have m: "(lti c x y0, rd src (lti c x y1)) \<in> set ?ws"
    using True by (intro in_set_mapI[where x = x]) auto
  have r: "0 \<le> lti c x y0" "lti c x y0 < int (length buf)"
    using lti_range[OF assms(4,5,2,3)] assms(1) by auto
  show ?thesis using rd_writes_in[OF d m r] True by (simp add: row_copy_def)
next
  case False
  have "lti c x y \<notin> fst ` set (map (\<lambda>x. (lti c x y0, rd src (lti c x y1))) [0..local_grid_size0 c - 1])"
  proof
    assume "lti c x y \<in> fst ` set (map (\<lambda>x. (lti c x y0, rd src (lti c x y1))) [0..local_grid_size0 c - 1])"
    then obtain x' where x': "0 \<le> x'" "x' \<le> local_grid_size0 c - 1" "lti c x y = lti c x' y0"
      by auto
    from lti_inj[OF assms(4,5) _ _ x'(3)] x'(1,2) have "x = x' \<and> y = y0" by auto
    with x' False show False by auto
  qed
  then have "rd (row_copy c buf y0 src y1) (lti c x y) = rd buf (lti c x y)"
    by (simp add: row_copy_def rd_writes_notin)
  then show ?thesis unfolding if_not_P[OF False] .
qed

lemma rd_col_copy:
  assumes "int (length buf) = (local_grid_size0 c + 2) * (local_grid_size1 c + 2)"
    and "- 1 \<le> x0" "x0 \<le> local_grid_size0 c" "- 1 \<le> x" "x \<le> local_grid_size0 c"
  shows "rd (col_copy c buf x0 src x1) (lti c x y) =
         (if x = x0 \<and> 0 \<le> y \<and> y < local_grid_size1 c then rd src (lti c x1 y)
          else rd buf (lti c x y))"
proof (cases "x = x0 \<and> 0 \<le> y \<and> y < local_grid_size1 c")
  case True
  let ?ws = "map (\<lambda>y. (lti c x0 y, rd src (lti c x1 y))) [0..local_grid_size1 c - 1]"
  have "inj_on (\<lambda>y. lti c x0 y) (set [0..local_grid_size1 c - 1])"
    by (rule inj_onI) (use assms(2,3) in \<open>auto dest: lti_inj[rotated 4]\<close>)
  then have d: "distinct (map fst ?ws)" by (simp add: comp_def distinct_map)
  have m: "(lti c x0 y, rd src (lti c x1 y)) \<in> set ?ws"
    using True by (intro in_set_mapI[where x = y]) auto
  have r: "0 \<le> lti c x0 y" "lti c x0 y < int (length buf)"
    using lti_range[OF assms(2,3), of y] True assms(1) by auto
  show ?thesis using rd_writes_in[OF d m r] True by (simp add: col_copy_def)
next
  case False
  have "lti c x y \<notin> fst ` set (map (\<lambda>y. (lti c x0 y, rd src (lti c x1 y))) [0..local_grid_size1 c - 1])"
  proof
    assume "lti c x y \<in> fst ` set (map (\<lambda>y. (lti c x0 y, rd src (lti c x1 y))) [0..local_grid_size1 c - 1])"
    then obtain y' where y': "0 \<le> y'" "y' \<le> local_grid_size1 c - 1" "lti c x y = lti c x0 y'"
      by auto
    from lti_inj[OF assms(4,5,2,3) y'(3)] have "x = x0 \<and> y = y'" by auto
    with y' False show False by auto
  qed
  then have "rd (col_copy c buf x0 src x1) (lti c x y) = rd buf (lti c x y)"
    by (simp add: col_copy_def rd_writes_notin)
  then show ?thesis unfolding if_not_P[OF False] .
qed

lemma length_halo_buffer:
  "length (halo_buffer c step W r) = length (local_temp (procs W r) (step mod 2))"
  by (simp add: halo_buffer_def Let_def split: option.split)

lemma rd_halo_buffer:
  assumes "valid_cfg c"
    and "int (length (local_temp (procs W r) (step mod 2))) =
           (local_grid_size0 c + 2) * (local_grid_size1 c + 2)"
    and "- 1 \<le> x" "x \<le> local_grid_size0 c"
  shows "rd (halo_buffer c step W r) (lti c x y) =
     (if x = local_grid_size0 c \<and> 0 \<le> y \<and> y < local_grid_size1 c \<and> east c r \<noteq> None
      then rd (local_temp (procs W (the (east c r))) ((step + 1) mod 2)) (lti c 0 y)
      else if x = - 1 \<and> 0 \<le> y \<and> y < local_grid_size1 c \<and> west c r \<noteq> None
      then rd (local_temp (procs W (the (west c r))) ((step + 1) mod 2)) (lti c (local_grid_size0 c - 1) y)
      else if y = local_grid_size1 c \<and> 0 \<le> x \<and> x < local_grid_size0 c \<and> south c r \<noteq> None
      then rd (local_temp (procs W (the (south c r))) ((step + 1) mod 2)) (lti c x 0)
      else if y = - 1 \<and> 0 \<le> x \<and> x < local_grid_size0 c \<and> north c r \<noteq> None
      then rd (local_temp (procs W (the (north c r))) ((step + 1) mod 2)) (lti c x (local_grid_size1 c))
      else rd (local_temp (procs W r) (step mod 2)) (lti c x y))"
proof -
  note n = lgs_nonneg[OF assms(1)]
  let ?o = "(step + 1) mod 2"
  let ?outb = "\<lambda>n. local_temp (procs W n) ?o"
  define B0 where "B0 = local_temp (procs W r) (step mod 2)"
  define B1 where "B1 = (case north c r of None \<Rightarrow> B0
         | Some n \<Rightarrow> row_copy c B0 (- 1) (?outb n) (local_grid_size1 c))"
  define B2 where "B2 = (case south c r of None \<Rightarrow> B1
         | Some n \<Rightarrow> row_copy c B1 (local_grid_size1 c) (?outb n) 0)"
  define B3 where "B3 = (case west c r of None \<Rightarrow> B2
         | Some n \<Rightarrow> col_copy c B2 (- 1) (?outb n) (local_grid_size0 c - 1))"
  define B4 where "B4 = (case east c r of None \<Rightarrow> B3
         | Some n \<Rightarrow> col_copy c B3 (local_grid_size0 c) (?outb n) 0)"
  have l0: "int (length B0) = (local_grid_size0 c + 2) * (local_grid_size1 c + 2)"
    using assms(2) by (simp add: B0_def)
  have l1: "int (length B1) = (local_grid_size0 c + 2) * (local_grid_size1 c + 2)"
    using l0 by (simp add: B1_def split: option.split)
  have l2: "int (length B2) = (local_grid_size0 c + 2) * (local_grid_size1 c + 2)"
    using l1 by (simp add: B2_def split: option.split)
  have l3: "int (length B3) = (local_grid_size0 c + 2) * (local_grid_size1 c + 2)"
    using l2 by (simp add: B3_def split: option.split)
  have r1: "rd B1 (lti c x y) =
      (if y = - 1 \<and> 0 \<le> x \<and> x < local_grid_size0 c \<and> north c r \<noteq> None
       then rd (?outb (the (north c r))) (lti c x (local_grid_size1 c))
       else rd B0 (lti c x y))"
  proof (cases "north c r")
    case None
    then show ?thesis by (simp add: B1_def)
  next
    case (Some a)
    have "rd (row_copy c B0 (- 1) (?outb a) (local_grid_size1 c)) (lti c x y) =
         (if y = - 1 \<and> 0 \<le> x \<and> x < local_grid_size0 c
          then rd (?outb a) (lti c x (local_grid_size1 c)) else rd B0 (lti c x y))"
      by (rule rd_row_copy[OF l0 _ _ assms(3,4)]) (use n in simp_all)
    then show ?thesis by (simp add: B1_def Some)
  qed
  have r2: "rd B2 (lti c x y) =
      (if y = local_grid_size1 c \<and> 0 \<le> x \<and> x < local_grid_size0 c \<and> south c r \<noteq> None
       then rd (?outb (the (south c r))) (lti c x 0)
       else rd B1 (lti c x y))"
  proof (cases "south c r")
    case None
    then show ?thesis by (simp add: B2_def)
  next
    case (Some a)
    have "rd (row_copy c B1 (local_grid_size1 c) (?outb a) 0) (lti c x y) =
         (if y = local_grid_size1 c \<and> 0 \<le> x \<and> x < local_grid_size0 c
          then rd (?outb a) (lti c x 0) else rd B1 (lti c x y))"
      by (rule rd_row_copy[OF l1 _ _ assms(3,4)]) (use n in simp_all)
    then show ?thesis by (simp add: B2_def Some)
  qed
  have r3: "rd B3 (lti c x y) =
      (if x = - 1 \<and> 0 \<le> y \<and> y < local_grid_size1 c \<and> west c r \<noteq> None
       then rd (?outb (the (west c r))) (lti c (local_grid_size0 c - 1) y)
       else rd B2 (lti c x y))"
  proof (cases "west c r")
    case None
    then show ?thesis by (simp add: B3_def)
  next
    case (Some a)
    have "rd (col_copy c B2 (- 1) (?outb a) (local_grid_size0 c - 1)) (lti c x y) =
         (if x = - 1 \<and> 0 \<le> y \<and> y < local_grid_size1 c
          then rd (?outb a) (lti c (local_grid_size0 c - 1) y) else rd B2 (lti c x y))"
      by (rule rd_col_copy[OF l2 _ _ assms(3,4)]) (use n in simp_all)
    then show ?thesis by (simp add: B3_def Some)
  qed
  have r4: "rd B4 (lti c x y) =
      (if x = local_grid_size0 c \<and> 0 \<le> y \<and> y < local_grid_size1 c \<and> east c r \<noteq> None
       then rd (?outb (the (east c r))) (lti c 0 y)
       else rd B3 (lti c x y))"
  proof (cases "east c r")
    case None
    then show ?thesis by (simp add: B4_def)
  next
    case (Some a)
    have "rd (col_copy c B3 (local_grid_size0 c) (?outb a) 0) (lti c x y) =
         (if x = local_grid_size0 c \<and> 0 \<le> y \<and> y < local_grid_size1 c
          then rd (?outb a) (lti c 0 y) else rd B3 (lti c x y))"
      by (rule rd_col_copy[OF l3 _ _ assms(3,4)]) (use n in simp_all)
    then show ?thesis by (simp add: B4_def Some)
  qed
  have hb: "halo_buffer c step W r = B4"
    unfolding halo_buffer_def Let_def B4_def B3_def B2_def B1_def B0_def ..
  show ?thesis unfolding hb r4 r3 r2 r1 B0_def ..
qed

lemma valid_mesh8: "valid_cfg mesh8"
  by (simp add: valid_cfg_def mesh8_def)

lemma lgs_mesh8: "local_grid_size0 mesh8 = 4" "local_grid_size1 mesh8 = 4"
  by (simp_all add: local_grid_size0_def local_grid_size1_def mesh8_def)

lemma size_mesh8: "world_size mesh8 = 4"
  by (simp add: world_size_def mesh8_def)

lemma coords_mesh8:
  "MPI_Cart_coords mesh8 0 = (0, 0)" "MPI_Cart_coords mesh8 (Suc 0) = (0, 1)"
  "MPI_Cart_coords mesh8 2 = (1, 0)" "MPI_Cart_coords mesh8 3 = (1, 1)"
  by (simp_all add: MPI_Cart_coords_def mesh8_def)

lemma neighbours_mesh8:
  "north mesh8 0 = None" "west mesh8 0 = None" "south mesh8 0 = Some 1" "east mesh8 0 = Some 2"
  "north mesh8 (Suc 0) = Some 0"
  by (simp_all add: neighbour_defs coords_mesh8 peer_def in_mesh_def MPI_Cart_rank_def)
     (simp_all add: mesh8_def)

lemma startup_interior:
  assumes "valid_cfg c" "keeps_layout c init" "r < world_size c"
    and "0 \<le> x" "x < local_grid_size0 c" "0 \<le> y" "y < local_grid_size1 c"
  shows "rd (local_temp (procs (startup c init) r) 0) (lti c x y) =
         rd (temperature (init (allocate c))) (ti c (local_origin0 c r + x) (local_origin1 c r + y))"
proof -
  let ?W = "scatter_material c (on_all c (\<lambda>r. init_local_temp c) (init (allocate c)))"
  have al: "allocated c ?W"
    unfolding allocated_scatter_material
    by (rule allocated_on_all) (simp_all add: allocated_init[OF assms(1,2)] alloc_proc_init_local)
  have tr: "tables_ready c ?W"
    by (rule tables_ready_scatter_material)
       (use assms(2) in \<open>simp_all add: on_all_frame keeps_layout_def\<close>)
  note t = tables_at_rank[OF assms(1) tr assms(3)]
  have len: "int (length (local_temp (procs ?W r) 0)) = (local_grid_size0 c + 2) * (local_grid_size1 c + 2)"
    using allocated_proc[OF al assms(3)] by (simp add: alloc_proc_def)
  have "rd (local_temp (procs (scatter_temp c ?W) r) 0) (lti c x y) =
        rd (temperature ?W) (rd (displs ?W) (int r) + ti c x y)"
    by (rule scatter_temp_cell[OF assms(3) t(2) len assms(4-7)])
  then show ?thesis
    unfolding t(1) root_cell by (simp add: startup_def scatter_material_frame on_all_frame)
qed

lemma rd_replicate: "0 \<le> i \<Longrightarrow> i < int n \<Longrightarrow> rd (replicate n v) i = v"
  by (simp add: rd_def)

lemma startup_uniform_interior:
  assumes "valid_cfg c" "r < world_size c"
    and "0 \<le> x" "x < local_grid_size0 c" "0 \<le> y" "y < local_grid_size1 c"
  shows "rd (local_temp (procs (startup c (uniform_fields c t m)) r) 0) (lti c x y) = t"
proof -
  note g = ti_range[OF global_x_range[OF assms(1,2,3,4)] global_y_range[OF assms(1,2,5,6)]]
  show ?thesis
    unfolding startup_interior[OF assms(1) keeps_layout_uniform_fields[OF assms(1)] assms(2-6)]
    using g by (simp add: uniform_fields_def rd_replicate)
qed

lemma border_exchange_result:
  assumes "valid_cfg c" "r < world_size c"
  shows "local_temp (procs (the (border_exchange c step W)) r) (step mod 2) = halo_buffer c step W r"
    and "local_temp (procs (the (border_exchange c step W)) r) ((step + 1) mod 2) =
         local_temp (procs W r) ((step + 1) mod 2)"
    and "local_material (procs (the (border_exchange c step W)) r) = local_material (procs W r)"
  using assms(2) parity_neq[of step]
  by (simp_all add: border_exchange_eq[OF assms(1)] on_all_frame)

lemma border_exchange_frame:
  assumes "valid_cfg c"
  shows "temperature (the (border_exchange c step W)) = temperature W"
    "material (the (border_exchange c step W)) = material W"
    "displs (the (border_exchange c step W)) = displs W"
    "sendcounts (the (border_exchange c step W)) = sendcounts W"
  by (simp_all add: border_exchange_eq[OF assms] on_all_frame)

lemma alloc_proc_cong:
  assumes "\<And>b. length (local_temp p' b) = length (local_temp p b)"
    "length (local_material p') = length (local_material p)"
  shows "alloc_proc c p' = alloc_proc c p"
  by (simp add: alloc_proc_def assms)

lemma allocated_border_exchange:
  assumes "valid_cfg c" "allocated c W"
  shows "allocated c (the (border_exchange c step W))"
proof -
  have "alloc_proc c (procs (the (border_exchange c step W)) r) = alloc_proc c (procs W r)"
    if "r < world_size c" for r
  proof (rule alloc_proc_cong)
    fix b
    show "length (local_temp (procs (the (border_exchange c step W)) r) b) =
          length (local_temp (procs W r) b)"
      using that by (simp add: border_exchange_eq[OF assms(1)] on_all_frame length_halo_buffer)
    show "length (local_material (procs (the (border_exchange c step W)) r)) =
          length (local_material (procs W r))"
      using that by (simp add: border_exchange_eq[OF assms(1)] on_all_frame)
  qed
  then show ?thesis
    using assms(2) by (simp add: allocated_def border_exchange_frame[OF assms(1)] list_all_iff)
qed

text \<open>
  C5. A send or a receive whose peer is the "no neighbour" sentinel returns at once and
  leaves the buffer and the endpoint as they are. On a mesh with the arrays allocated
  \<open>border_exchange\<close> completes on all ranks; it leaves the buffer \<open>out\<close> of every rank
  unchanged, and on a rank without a neighbour to the north (south, west, east) every cell
  of the top ghost row (bottom ghost row, left ghost column, right ghost column) of its
  buffer \<open>in\<close>, corners included, keeps its value.
\<close>

theorem absent_neighbour_noop:
  assumes "valid_cfg c" "allocated c W" "r < world_size c"
  shows "MPI_Send buf start count ty None e = e \<and>
         MPI_Recv buf start count ty None e = Some (buf, e) \<and>
         (\<exists>W'. border_exchange c step W = Some W' \<and>
            local_temp (procs W' r) ((step + 1) mod 2) = local_temp (procs W r) ((step + 1) mod 2) \<and>
            (north c r = None \<longrightarrow>
               (\<forall>x. - 1 \<le> x \<and> x \<le> local_grid_size0 c \<longrightarrow>
                  rd (local_temp (procs W' r) (step mod 2)) (lti c x (- 1)) =
                  rd (local_temp (procs W r) (step mod 2)) (lti c x (- 1)))) \<and>
            (south c r = None \<longrightarrow>
               (\<forall>x. - 1 \<le> x \<and> x \<le> local_grid_size0 c \<longrightarrow>
                  rd (local_temp (procs W' r) (step mod 2)) (lti c x (local_grid_size1 c)) =
                  rd (local_temp (procs W r) (step mod 2)) (lti c x (local_grid_size1 c)))) \<and>
            (west c r = None \<longrightarrow>
               (\<forall>y. - 1 \<le> y \<and> y \<le> local_grid_size1 c \<longrightarrow>
                  rd (local_temp (procs W' r) (step mod 2)) (lti c (- 1) y) =
                  rd (local_temp (procs W r) (step mod 2)) (lti c (- 1) y))) \<and>
            (east c r = None \<longrightarrow>
               (\<forall>y. - 1 \<le> y \<and> y \<le> local_grid_size1 c \<longrightarrow>
                  rd (local_temp (procs W' r) (step mod 2)) (lti c (local_grid_size0 c) y) =
                  rd (local_temp (procs W r) (step mod 2)) (lti c (local_grid_size0 c) y))))"
proof -
  note n = lgs_nonneg[OF assms(1)]
  have len: "int (length (local_temp (procs W r) (step mod 2))) =
               (local_grid_size0 c + 2) * (local_grid_size1 c + 2)"
    by (rule alloc_proc_length[OF allocated_proc[OF assms(2,3)]])
  let ?W = "the (border_exchange c step W)"
  have s: "border_exchange c step W = Some ?W" by (simp add: border_exchange_eq[OF assms(1)])
  note r = border_exchange_result[OF assms(1,3), of step W]
  have N: "rd (local_temp (procs ?W r) (step mod 2)) (lti c x (- 1)) =
           rd (local_temp (procs W r) (step mod 2)) (lti c x (- 1))"
    if "north c r = None" "- 1 \<le> x \<and> x \<le> local_grid_size0 c" for x
    unfolding r(1) using that n by (simp add: rd_halo_buffer[OF assms(1) len])
  have S: "rd (local_temp (procs ?W r) (step mod 2)) (lti c x (local_grid_size1 c)) =
           rd (local_temp (procs W r) (step mod 2)) (lti c x (local_grid_size1 c))"
    if "south c r = None" "- 1 \<le> x \<and> x \<le> local_grid_size0 c" for x
    unfolding r(1) using that n by (simp add: rd_halo_buffer[OF assms(1) len])
  have Wt: "rd (local_temp (procs ?W r) (step mod 2)) (lti c (- 1) y) =
           rd (local_temp (procs W r) (step mod 2)) (lti c (- 1) y)"
    if "west c r = None" "- 1 \<le> y \<and> y \<le> local_grid_size1 c" for y
    unfolding r(1) using that n by (simp add: rd_halo_buffer[OF assms(1) len])
  have E: "rd (local_temp (procs ?W r) (step mod 2)) (lti c (local_grid_size0 c) y) =
           rd (local_temp (procs W r) (step mod 2)) (lti c (local_grid_size0 c) y)"
    if "east c r = None" "- 1 \<le> y \<and> y \<le> local_grid_size1 c" for y
    unfolding r(1) using that n by (simp add: rd_halo_buffer[OF assms(1) len])
  show ?thesis
    apply (intro conjI exI[where x = "?W"] impI allI)
    subgoal by (simp add: MPI_Send_def)
    subgoal by (simp add: MPI_Recv_def)
    subgoal by (rule s)
    subgoal by (rule r(2))
    subgoal premises p for x by (rule N[OF p])
    subgoal premises p for x by (rule S[OF p])
    subgoal premises p for y by (rule Wt[OF p])
    subgoal premises p for y by (rule E[OF p])
    done
qed

theorem absent_neighbour_noop_witness:
  "valid_cfg mesh8 \<and> allocated mesh8 (scenario8 (1 / 10)) \<and> 0 < world_size mesh8 \<and>
   north mesh8 0 = None \<and> west mesh8 0 = None \<and>
   border_exchange mesh8 0 (scenario8 (1 / 10)) \<noteq> None \<and>
   rd (local_temp (procs (the (border_exchange mesh8 0 (scenario8 (1 / 10)))) 0) 0) (lti mesh8 0 (- 1)) =
     rd (local_temp (procs (scenario8 (1 / 10)) 0) 0) (lti mesh8 0 (- 1)) \<and>
   rd (local_temp (procs (the (border_exchange mesh8 0 (scenario8 (1 / 10)))) 0) 0) (lti mesh8 (- 1) 0) =
     rd (local_temp (procs (scenario8 (1 / 10)) 0) 0) (lti mesh8 (- 1) 0)"
proof -
  have a: "allocated mesh8 (scenario8 (1 / 10))"
    unfolding scenario8_def
    by (rule allocated_startup[OF valid_mesh8 keeps_layout_uniform_fields[OF valid_mesh8]])
  have z: "0 < world_size mesh8" by (simp add: size_mesh8)
  note t = absent_neighbour_noop[OF valid_mesh8 a z,
        where step = 0 and buf = "[]::real list" and start = 0 and count = 1 and ty = MPI_FLOAT
          and e = "\<lparr>inbox = (\<lambda>s. []), outbox = (\<lambda>d. [])\<rparr>"]
  from t[THEN conjunct2, THEN conjunct2] obtain W' where
    W': "border_exchange mesh8 0 (scenario8 (1 / 10)) = Some W'"
    and N: "north mesh8 0 = None \<longrightarrow>
               (\<forall>x. - 1 \<le> x \<and> x \<le> local_grid_size0 mesh8 \<longrightarrow>
                  rd (local_temp (procs W' 0) (0 mod 2)) (lti mesh8 x (- 1)) =
                  rd (local_temp (procs (scenario8 (1 / 10)) 0) (0 mod 2)) (lti mesh8 x (- 1)))"
    and Wt: "west mesh8 0 = None \<longrightarrow>
               (\<forall>y. - 1 \<le> y \<and> y \<le> local_grid_size1 mesh8 \<longrightarrow>
                  rd (local_temp (procs W' 0) (0 mod 2)) (lti mesh8 (- 1) y) =
                  rd (local_temp (procs (scenario8 (1 / 10)) 0) (0 mod 2)) (lti mesh8 (- 1) y))"
    by (elim exE conjE)
  have "rd (local_temp (procs W' 0) 0) (lti mesh8 0 (- 1)) =
        rd (local_temp (procs (scenario8 (1 / 10)) 0) 0) (lti mesh8 0 (- 1))"
    using N by (simp add: neighbours_mesh8 lgs_mesh8)
  moreover have "rd (local_temp (procs W' 0) 0) (lti mesh8 (- 1) 0) =
        rd (local_temp (procs (scenario8 (1 / 10)) 0) 0) (lti mesh8 (- 1) 0)"
    using Wt by (simp add: neighbours_mesh8 lgs_mesh8)
  ultimately show ?thesis
    using valid_mesh8 a z W' by (simp add: neighbours_mesh8)
qed

lemma north_ghost_row:
  assumes "valid_cfg c" "allocated c W" "r < world_size c" "north c r = Some n"
    and "0 \<le> x" "x < local_grid_size0 c"
  shows "rd (local_temp (procs (the (border_exchange c step W)) r) (step mod 2)) (lti c x (- 1)) =
         rd (local_temp (procs W n) ((step + 1) mod 2)) (lti c x (local_grid_size1 c))"
proof -
  note n = lgs_nonneg[OF assms(1)]
  have len: "int (length (local_temp (procs W r) (step mod 2))) =
               (local_grid_size0 c + 2) * (local_grid_size1 c + 2)"
    by (rule alloc_proc_length[OF allocated_proc[OF assms(2,3)]])
  show ?thesis
    unfolding border_exchange_result(1)[OF assms(1,3)]
    using assms(4-6) n by (simp add: rd_halo_buffer[OF assms(1) len])
qed

text \<open>
  C1. What \<open>border_exchange\<close> leaves in a top ghost row is the row \<open>local_grid_size[1]\<close> (the
  bottom ghost row) of the buffer \<open>out\<close> of the north neighbour (\<open>north_ghost_row\<close> above),
  not the bottom interior row of its buffer \<open>in\<close>. In the first exchange of a run that starts
  from a uniform field of 20.0 on the 2 by 2 mesh, rank 1, whose north neighbour is rank 0,
  ends with 10.0 in its top ghost row, while the bottom interior row of the current buffer
  of rank 0 holds 20.0.
\<close>

theorem north_ghost_row_is_stale:
  "north mesh8 1 = Some 0 \<and>
   border_exchange mesh8 0 (scenario8 (1 / 10)) \<noteq> None \<and>
   rd (local_temp (procs (the (border_exchange mesh8 0 (scenario8 (1 / 10)))) 1) 0) (lti mesh8 0 (- 1)) = 10 \<and>
   rd (local_temp (procs (the (border_exchange mesh8 0 (scenario8 (1 / 10)))) 0) 0)
      (lti mesh8 0 (local_grid_size1 mesh8 - 1)) = 20"
proof -
  let ?W = "scenario8 (1 / 10)"
  note k = keeps_layout_uniform_fields[OF valid_mesh8, of 20 "1 / 10"]
  have a: "allocated mesh8 ?W"
    unfolding scenario8_def by (rule allocated_startup[OF valid_mesh8 k])
  have r: "(1::nat) < world_size mesh8" "(0::nat) < world_size mesh8" by (simp_all add: size_mesh8)
  have nb: "north mesh8 1 = Some 0" by (simp add: neighbours_mesh8)
  have "rd (local_temp (procs (the (border_exchange mesh8 0 ?W)) 1) (0 mod 2)) (lti mesh8 0 (- 1)) =
        rd (local_temp (procs ?W 0) ((0 + 1) mod 2)) (lti mesh8 0 (local_grid_size1 mesh8))"
    by (rule north_ghost_row[OF valid_mesh8 a r(1) nb]) (simp_all add: lgs_mesh8)
  also have "\<dots> = 10"
    using startup_buffer1[OF valid_mesh8 k r(2), of 0 4] by (simp add: scenario8_def lgs_mesh8)
  finally have g: "rd (local_temp (procs (the (border_exchange mesh8 0 ?W)) 1) 0) (lti mesh8 0 (- 1)) = 10"
    by simp
  have len: "int (length (local_temp (procs ?W 0) (0 mod 2))) =
               (local_grid_size0 mesh8 + 2) * (local_grid_size1 mesh8 + 2)"
    by (rule alloc_proc_length[OF allocated_proc[OF a r(2)]])
  have "rd (local_temp (procs (the (border_exchange mesh8 0 ?W)) 0) (0 mod 2)) (lti mesh8 0 3) =
        rd (local_temp (procs ?W 0) (0 mod 2)) (lti mesh8 0 3)"
    unfolding border_exchange_result(1)[OF valid_mesh8 r(2)]
    by (simp add: rd_halo_buffer[OF valid_mesh8 len] lgs_mesh8)
  also have "\<dots> = 20"
    using startup_uniform_interior[OF valid_mesh8 r(2), of 0 3 20 "1 / 10"]
    by (simp add: scenario8_def lgs_mesh8)
  finally have i: "rd (local_temp (procs (the (border_exchange mesh8 0 ?W)) 0) 0)
      (lti mesh8 0 (local_grid_size1 mesh8 - 1)) = 20"
    by (simp add: lgs_mesh8)
  show ?thesis using nb g i by (simp add: border_exchange_eq[OF valid_mesh8])
qed

section \<open>The initial material\<close>

lemma material_fills:
  assumes "\<And>x y W. material (f x y W) = wr (material W) (mi c x y) m"
  shows "material (fold (\<lambda>xy. f (fst xy) (snd xy)) cs W) =
         writes (map (\<lambda>xy. (mi c (fst xy) (snd xy), m)) cs) (material W)"
  by (induction cs arbitrary: W) (simp_all add: assms)

lemma material_fill_loops:
  assumes "\<And>x y W. material (f x y W) = wr (material W) (mi c x y) m"
  shows "material (fold (\<lambda>x. fold (\<lambda>y. f x y) ys) xs W) =
         writes (map (\<lambda>xy. (mi c (fst xy) (snd xy), m)) (List.product xs ys)) (material W)"
  unfolding fold_fold_product by (rule material_fills[OF assms])

lemma mi_eq: "mi c x y = y * GRID_SIZE0 c + x"
  by (simp add: mi_def BORDER_def)

lemma rd_region:
  assumes "a \<ge> 0" "b < GRID_SIZE0 c" "0 \<le> x" "x < GRID_SIZE0 c"
    and "0 \<le> mi c x y" "mi c x y < int (length buf)"
  shows "rd (writes (map (\<lambda>xy. (mi c (fst xy) (snd xy), m)) (List.product [a..b] [a'..b'])) buf)
            (mi c x y) =
         (if a \<le> x \<and> x \<le> b \<and> a' \<le> y \<and> y \<le> b' then m else rd buf (mi c x y))"
proof -
  let ?cs = "List.product [a..b] [a'..b']"
  let ?ws = "map (\<lambda>xy. (mi c (fst xy) (snd xy), m)) ?cs"
  have inj: "x1 = x2 \<and> y1 = y2"
    if "0 \<le> x1" "x1 < GRID_SIZE0 c" "0 \<le> x2" "x2 < GRID_SIZE0 c" "mi c x1 y1 = mi c x2 y2"
    for x1 y1 x2 y2
  proof -
    have "y1 * GRID_SIZE0 c + x1 = y2 * GRID_SIZE0 c + x2" using that(5) by (simp add: mi_eq)
    from lin_inj[OF that(1,2,3,4) this] show ?thesis by simp
  qed
  show ?thesis
  proof (cases "a \<le> x \<and> x \<le> b \<and> a' \<le> y \<and> y \<le> b'")
    case True
    have "inj_on (\<lambda>xy. mi c (fst xy) (snd xy)) (set ?cs)"
      by (rule inj_onI) (use assms(1,2) in \<open>auto dest!: inj[rotated 4]\<close>)
    then have d: "distinct (map fst ?ws)" by (simp add: comp_def distinct_map distinct_product)
    have m: "(mi c x y, m) \<in> set ?ws"
      using True by (intro in_set_mapI[where x = "(x, y)"]) auto
    show ?thesis using rd_writes_in[OF d m assms(5,6)] True by simp
  next
    case False
    have "mi c x y \<notin> fst ` set ?ws"
    proof
      assume "mi c x y \<in> fst ` set ?ws"
      then obtain x' y' where x': "a \<le> x'" "x' \<le> b" "a' \<le> y'" "y' \<le> b'" "mi c x y = mi c x' y'"
        by auto
      from inj[OF assms(3,4) _ _ x'(5)] x'(1,2) assms(1,2) have "x = x' \<and> y = y'" by auto
      with x' False show False by auto
    qed
    then have "rd (writes ?ws buf) (mi c x y) = rd buf (mi c x y)" by (rule rd_writes_notin)
    then show ?thesis unfolding if_not_P[OF False] .
  qed
qed

lemma scale_values: "dt / h * h = dt" "dt / (h * h) = 1"
  by (simp_all add: dt_def h_def)

lemma material_loop_m:
  "material (fold (\<lambda>x. fold (\<lambda>y W. fill_material c m x y W) ys) xs W) =
     writes (map (\<lambda>xy. (mi c (fst xy) (snd xy), m)) (List.product xs ys)) (material W)"
  by (rule material_fill_loops) (simp add: fill_material_def)

lemma material_loop_tm:
  "material (fold (\<lambda>x. fold (\<lambda>y W. fill_material c m x y (fill_temperature c t x y W)) ys) xs W) =
     writes (map (\<lambda>xy. (mi c (fst xy) (snd xy), m)) (List.product xs ys)) (material W)"
  by (rule material_fill_loops) (simp add: fill_material_def fill_temperature_def)

lemma material_loop_mt:
  "material (fold (\<lambda>x. fold (\<lambda>y W. fill_temperature c t x y (fill_material c m x y W)) ys) xs W) =
     writes (map (\<lambda>xy. (mi c (fst xy) (snd xy), m)) (List.product xs ys)) (material W)"
  by (rule material_fill_loops) (simp add: fill_material_def fill_temperature_def)

lemma init_material_cell:
  assumes "int (length (material W)) = 256 * 256" "0 \<le> x" "x < 256" "0 \<le> y" "y < 256"
  shows "rd (material (init_temp_material (heat_cfg d0 d1) W)) (mi (heat_cfg d0 d1) x y) =
     (if 64 \<le> x \<and> x \<le> 192 \<and> 112 \<le> y \<and> y \<le> 144 then ALUMINIUM * (dt / (h * h))
      else if 32 \<le> x \<and> x \<le> 95 \<and> 160 \<le> y \<and> y \<le> 223 then TIN * (dt / (h * h))
      else if 160 \<le> x \<and> x \<le> 223 \<and> 32 \<le> y \<and> y \<le> 95 then COPPER * (dt / (h * h))
      else MERCURY * (dt / h * h))"
proof -
  let ?c = "heat_cfg d0 d1"
  define mer where "mer = MERCURY * (dt / h * h)"
  define cop where "cop = COPPER * (dt / (h * h))"
  define tin where "tin = TIN * (dt / (h * h))"
  define alu where "alu = ALUMINIUM * (dt / (h * h))"
  let ?R = "\<lambda>m a b a' b'. map (\<lambda>xy. (mi ?c (fst xy) (snd xy), m::real)) (List.product [a..b] [a'..b'])"
  have G: "GRID_SIZE0 ?c = 256" "GRID_SIZE1 ?c = 256" by (simp_all add: heat_cfg_def)
  have mat: "material (init_temp_material ?c W) =
     writes (?R alu 64 192 112 144) (writes (?R tin 32 95 160 223) (writes (?R cop 160 223 32 95)
       (writes (?R mer 0 255 0 255) (writes (?R mer 0 255 0 255) (material W)))))"
    unfolding init_temp_material_def Let_def material_loop_mt material_loop_tm material_loop_m
      mer_def[symmetric] cop_def[symmetric] tin_def[symmetric] alu_def[symmetric] G BORDER_def
    by (simp del: upto_rec_numeral)
  have r: "0 \<le> mi ?c x y" "mi ?c x y < 256 * 256"
    using lin_range[of x 256 y 256] assms(2-5) by (simp_all add: mi_eq G)
  have x: "x < GRID_SIZE0 ?c" using assms(3) by (simp add: G)
  have b: "(0::int) \<le> 64" "(192::int) < GRID_SIZE0 ?c" "(0::int) \<le> 32" "(95::int) < GRID_SIZE0 ?c"
    "(0::int) \<le> 160" "(223::int) < GRID_SIZE0 ?c" "(0::int) \<le> 0" "(255::int) < GRID_SIZE0 ?c"
    by (simp_all add: G)
  have len: "mi ?c x y < int (length (writes ws (material W)))" for ws
    using r(2) assms(1) by simp
  have len2: "mi ?c x y < int (length (writes ws (writes ws' (material W))))" for ws ws'
    using r(2) assms(1) by simp
  have len3: "mi ?c x y < int (length (writes ws (writes ws' (writes ws'' (material W)))))" for ws ws' ws''
    using r(2) assms(1) by simp
  have len4: "mi ?c x y < int (length (writes ws (writes ws' (writes ws'' (writes ws''' (material W))))))"
    for ws ws' ws'' ws'''
    using r(2) assms(1) by simp
  have "rd (material (init_temp_material ?c W)) (mi ?c x y) =
     (if 64 \<le> x \<and> x \<le> 192 \<and> 112 \<le> y \<and> y \<le> 144 then alu
      else if 32 \<le> x \<and> x \<le> 95 \<and> 160 \<le> y \<and> y \<le> 223 then tin
      else if 160 \<le> x \<and> x \<le> 223 \<and> 32 \<le> y \<and> y \<le> 95 then cop
      else if 0 \<le> x \<and> x \<le> 255 \<and> 0 \<le> y \<and> y \<le> 255 then mer
      else rd (writes (?R mer 0 255 0 255) (material W)) (mi ?c x y))"
    unfolding mat
      rd_region[OF b(1,2) assms(2) x r(1) len4]
      rd_region[OF b(3,4) assms(2) x r(1) len3]
      rd_region[OF b(5,6) assms(2) x r(1) len2]
      rd_region[OF b(7,8) assms(2) x r(1) len] ..
  then show ?thesis
    using assms(2-5) by (simp add: mer_def cop_def tin_def alu_def del: times_divide_eq_left)
qed

text \<open>
  C9. In the program as it is configured (a 256 by 256 grid) \<open>init_temp_material\<close> leaves
  \<open>ALUMINIUM * (dt / (h * h))\<close> in the heating element, \<open>TIN * (dt / (h * h))\<close> and
  \<open>COPPER * (dt / (h * h))\<close> in the two blocks, and \<open>MERCURY * (dt / h * h)\<close> everywhere
  else. Read left to right \<open>dt / h * h\<close> is \<open>dt\<close>, while \<open>dt / (h * h)\<close> is 1 for the \<open>h\<close> and
  \<open>dt\<close> of the source, so the background is not scaled by \<open>dt / (h * h)\<close> as the blocks are.
\<close>

theorem init_material_scaling:
  assumes "int (length (material W)) = 256 * 256" "0 \<le> x" "x < 256" "0 \<le> y" "y < 256"
  shows "rd (material (init_temp_material (heat_cfg d0 d1) W)) (mi (heat_cfg d0 d1) x y) =
     (if 64 \<le> x \<and> x \<le> 192 \<and> 112 \<le> y \<and> y \<le> 144 then ALUMINIUM * (dt / (h * h))
      else if 32 \<le> x \<and> x \<le> 95 \<and> 160 \<le> y \<and> y \<le> 223 then TIN * (dt / (h * h))
      else if 160 \<le> x \<and> x \<le> 223 \<and> 32 \<le> y \<and> y \<le> 95 then COPPER * (dt / (h * h))
      else MERCURY * (dt / h * h)) \<and>
     dt / h * h = dt \<and> dt / (h * h) = 1 \<and>
     MERCURY * (dt / h * h) \<noteq> MERCURY * (dt / (h * h))"
proof -
  have "MERCURY * (dt / h * h) \<noteq> MERCURY * (dt / (h * h))"
    unfolding scale_values by (simp add: MERCURY_def dt_def)
  then show ?thesis
    using init_material_cell[OF assms] scale_values by blast
qed

theorem init_material_scaling_witness:
  "int (length (material (allocate (heat_cfg 2 2)))) = 256 * 256 \<and>
   rd (material (init_temp_material (heat_cfg 2 2) (allocate (heat_cfg 2 2)))) (mi (heat_cfg 2 2) 0 0) =
     MERCURY * dt \<and>
   rd (material (init_temp_material (heat_cfg 2 2) (allocate (heat_cfg 2 2)))) (mi (heat_cfg 2 2) 160 32) =
     COPPER * (dt / (h * h)) \<and>
   MERCURY * dt \<noteq> MERCURY * (dt / (h * h))"
proof -
  have l: "int (length (material (allocate (heat_cfg 2 2)))) = 256 * 256"
    by (simp add: allocate_def calloc_def heat_cfg_def BORDER_def)
  have z: "(0::int) \<le> 0" "(0::int) < 256" "(0::int) \<le> 160" "(160::int) < 256"
    "(0::int) \<le> 32" "(32::int) < 256" by simp_all
  note a = init_material_scaling[OF l z(1,2,1,2), of 2 2]
  note b = init_material_scaling[OF l z(3,4,5,6), of 2 2]
  have e: "rd (material (init_temp_material (heat_cfg 2 2) (allocate (heat_cfg 2 2))))
             (mi (heat_cfg 2 2) 0 0) = MERCURY * (dt / h * h)"
    using a[THEN conjunct1] by simp
  have 1: "rd (material (init_temp_material (heat_cfg 2 2) (allocate (heat_cfg 2 2))))
             (mi (heat_cfg 2 2) 0 0) = MERCURY * dt"
    using e unfolding scale_values(1) .
  have 2: "rd (material (init_temp_material (heat_cfg 2 2) (allocate (heat_cfg 2 2))))
             (mi (heat_cfg 2 2) 160 32) = COPPER * (dt / (h * h))"
    using b[THEN conjunct1] by simp
  have 3: "MERCURY * dt \<noteq> MERCURY * (dt / (h * h))"
    using a[THEN conjunct2, THEN conjunct2, THEN conjunct2] unfolding scale_values(1) .
  show ?thesis using l 1 2 3 by blast
qed

section \<open>One iteration of the loop of main\<close>

lemma map_add_upto: "map (\<lambda>y. k + y) [0..b] = [k..k + b]"
proof (cases "0 \<le> b")
  case True
  then show ?thesis
  proof (induction b rule: int_ge_induct)
    case base
    then show ?case by simp
  next
    case (step i)
    have "[0..i + 1] = [0..i] @ [i + 1]" using step(1) by (simp add: upto_rec2)
    moreover have "[k..k + (i + 1)] = [k..k + i] @ [k + i + 1]"
      using step(1) upto_rec2[of k "k + (i + 1)"] by (simp add: algebra_simps)
    ultimately show ?case using step by simp
  qed
next
  case False
  then show ?thesis by simp
qed

lemma product_snoc: "List.product (xs @ [a]) ys = List.product xs ys @ map (Pair a) ys"
  by (induction xs) auto

lemma row_major_indices:
  assumes "0 \<le> a" "0 \<le> b"
  shows "map (\<lambda>ij. fst ij * b + snd ij) (List.product [0..a - 1] [0..b - 1]) = [0..a * b - 1]"
  using assms(1)
proof (induction a rule: int_ge_induct)
  case base
  then show ?case by simp
next
  case (step i)
  have u: "[0..i + 1 - 1] = [0..i - 1] @ [i]" using step(1) upto_rec2[of 0 i] by simp
  have "map (\<lambda>ij. fst ij * b + snd ij) (List.product [0..i + 1 - 1] [0..b - 1]) =
        [0..i * b - 1] @ map (\<lambda>y. i * b + y) [0..b - 1]"
    unfolding u product_snoc by (simp add: step(2) comp_def)
  also have "\<dots> = [0..i * b - 1] @ [i * b..i * b + (b - 1)]" by (simp only: map_add_upto)
  also have "\<dots> = [0..(i + 1) * b - 1]"
  proof -
    have "0 \<le> i * b" using step(1) assms(2) by simp
    then have "[0..i * b + (b - 1)] = [0..i * b - 1] @ [i * b..i * b + (b - 1)]"
      using assms(2) upto_split1[of 0 "i * b" "i * b + (b - 1)"]
      by (cases "b = 0") (auto simp: upto_rec1[of "i * b" "i * b"])
    then show ?thesis by (simp add: algebra_simps)
  qed
  finally show ?case .
qed

lemma local_block_indices:
  assumes "valid_cfg c"
  shows "map (\<lambda>yx. lmi c (snd yx) (fst yx)) (block c) =
         [0..local_grid_size1 c * local_grid_size0 c - 1]"
  using row_major_indices[OF lgs_nonneg(2)[OF assms] lgs_nonneg(1)[OF assms]]
  by (simp add: block_def lmi_def BORDER_def)

lemma cells_local_material:
  assumes "valid_cfg c"
  shows "cells_of (lmi c 0 0) (local_grid_size1 c * local_grid_size0 c) MPI_FLOAT =
         map (\<lambda>yx. lmi c (snd yx) (fst yx)) (block c)"
proof -
  have "cells_of (lmi c 0 0) (local_grid_size1 c * local_grid_size0 c) MPI_FLOAT =
        map (\<lambda>k. 0 + k) [0..local_grid_size1 c * local_grid_size0 c - 1]"
    by (simp add: cells_of_def MPI_FLOAT_def lmi_def BORDER_def comp_def concat_map_singleton)
  then show ?thesis unfolding local_block_indices[OF assms] by simp
qed

lemma scatter_material_cell:
  assumes "valid_cfg c" "allocated c W" "r < world_size c"
    and "0 \<le> x" "x < local_grid_size0 c" "0 \<le> y" "y < local_grid_size1 c"
  shows "rd (local_material (procs (scatter_material c W) r)) (lmi c x y) =
         rd (material W) (ti c (local_origin0 c r + x) (local_origin1 c r + y))"
proof -
  let ?H = "helpFunctionForDisplacement c W"
  have tr: "tables_ready c ?H"
    by (rule tables_ready_help) (use assms(2) in \<open>simp_all add: allocated_def\<close>)
  note t = tables_at_rank[OF assms(1) tr assms(3)]
  have m0: "mi c 0 0 = ti c 0 0" by (simp add: mi_def ti_def BORDER_def)
  let ?ws = "map (\<lambda>yx. (lmi c (snd yx) (fst yx),
                rd (material W) (ti c (local_origin0 c r + snd yx) (local_origin1 c r + fst yx))))
                (block c)"
  have e: "local_material (procs (scatter_material c W) r) =
           writes ?ws (local_material (procs W r))"
    using assms(3)
    unfolding scatter_material_def Let_def on_all_frame
    by (simp add: on_all_frame help_frame unpack_def pack_def cells_local_material[OF assms(1)]
        m0 root_cells[OF t(2)] t(1) root_cell zip_map_same comp_def)
  have d: "distinct (map fst ?ws)"
    using local_block_indices[OF assms(1)] by (simp add: comp_def)
  have m: "(lmi c x y, rd (material W) (ti c (local_origin0 c r + x) (local_origin1 c r + y))) \<in> set ?ws"
    using assms(4-7) block_set[of y x c] by (intro in_set_mapI[where x = "(y, x)"]) auto
  have r: "0 \<le> lmi c x y" "lmi c x y < int (length (local_material (procs W r)))"
    using lmi_range[OF assms(4-7)] allocated_proc[OF assms(2,3)] by (auto simp: alloc_proc_def)
  show ?thesis unfolding e by (rule rd_writes_in[OF d m r])
qed

lemma external_heat_cell_frame:
  "local_temp (external_heat_cell c r step x y p) ((step + 1) mod 2) =
     local_temp p ((step + 1) mod 2)"
  "local_material (external_heat_cell c r step x y p) = local_material p"
  "length (local_temp (external_heat_cell c r step x y p) b) = length (local_temp p b)"
  using parity_neq[of step] by (simp_all add: external_heat_cell_def)

lemma external_heat_frame:
  "local_temp (external_heat c r step p) ((step + 1) mod 2) = local_temp p ((step + 1) mod 2)"
  "local_material (external_heat c r step p) = local_material p"
  "length (local_temp (external_heat c r step p) b) = length (local_temp p b)"
  unfolding external_heat_def
  by (rule fold2_keeps, rule external_heat_cell_frame)+

lemma fold2_id:
  assumes "\<And>x y. x \<in> set xs \<Longrightarrow> y \<in> set ys \<Longrightarrow> f x y s = s"
  shows "fold (\<lambda>x. fold (\<lambda>y. f x y) ys) xs s = s"
  by (intro fold_id assms)

lemma external_heat_outside:
  assumes "\<And>x y. GRID_SIZE0 c div 4 \<le> x \<Longrightarrow> x \<le> 3 * GRID_SIZE0 c div 4 \<Longrightarrow>
             GRID_SIZE1 c div 2 - GRID_SIZE1 c div 16 \<le> y \<Longrightarrow>
             y \<le> GRID_SIZE1 c div 2 + GRID_SIZE1 c div 16 \<Longrightarrow> \<not> inside c r x y"
  shows "external_heat c r step p = p"
  unfolding external_heat_def
  by (rule fold2_id) (simp add: external_heat_cell_def assms)

lemma alloc_proc_external_heat: "alloc_proc c (external_heat c r step p) = alloc_proc c p"
  by (rule alloc_proc_cong) (simp_all add: external_heat_frame)

lemma alloc_proc_ftcs_solver: "alloc_proc c (ftcs_solver c step p) = alloc_proc c p"
  by (rule alloc_proc_cong) (simp_all add: ftcs_solver_length ftcs_solver_material_unchanged)

lemma exchange_and_update_eq:
  assumes "valid_cfg c"
  shows "exchange_and_update c step W =
         Some (on_all c (\<lambda>r. ftcs_solver c step) (the (border_exchange c step W)))"
  by (simp add: exchange_and_update_def border_exchange_eq[OF assms])

lemma exchange_and_update_frame:
  assumes "valid_cfg c"
  shows "temperature (the (exchange_and_update c step W)) = temperature W"
    "material (the (exchange_and_update c step W)) = material W"
    "displs (the (exchange_and_update c step W)) = displs W"
    "sendcounts (the (exchange_and_update c step W)) = sendcounts W"
  by (simp_all add: exchange_and_update_eq[OF assms] on_all_frame border_exchange_frame[OF assms])

lemma allocated_exchange_and_update:
  assumes "valid_cfg c" "allocated c W"
  shows "allocated c (the (exchange_and_update c step W))"
  unfolding exchange_and_update_eq[OF assms(1)] option.sel
  by (rule allocated_on_all[OF allocated_border_exchange[OF assms]])
     (simp add: alloc_proc_ftcs_solver)

lemma exchange_and_update_in:
  assumes "valid_cfg c" "r < world_size c"
  shows "local_temp (procs (the (exchange_and_update c step W)) r) (step mod 2) =
         halo_buffer c step W r"
  using assms(2)
  by (simp add: exchange_and_update_eq[OF assms(1)] on_all_frame ftcs_solver_in_unchanged
      border_exchange_result[OF assms])

lemma exchange_and_update_out:
  assumes "valid_cfg c" "allocated c W" "r < world_size c"
    and "0 \<le> x" "x < local_grid_size0 c" "0 \<le> y" "y < local_grid_size1 c"
  shows "rd (local_temp (procs (the (exchange_and_update c step W)) r) ((step + 1) mod 2)) (lti c x y) =
         ftcs_value c (halo_buffer c step W r) (local_material (procs W r)) (x, y)"
proof -
  let ?B = "the (border_exchange c step W)"
  have len: "int (length (local_temp (procs ?B r) ((step + 1) mod 2))) =
               (local_grid_size0 c + 2) * (local_grid_size1 c + 2)"
    unfolding border_exchange_result(2)[OF assms(1,3)]
    by (rule alloc_proc_length[OF allocated_proc[OF assms(2,3)]])
  have p: "procs (the (exchange_and_update c step W)) r = ftcs_solver c step (procs ?B r)"
    using assms(3) by (simp add: exchange_and_update_eq[OF assms(1)] on_all_frame)
  show ?thesis
    unfolding p ftcs_solver_interior[OF len assms(4-7)] border_exchange_result[OF assms(1,3)] ..
qed

lemma global_cell_owner:
  assumes "valid_cfg c" "0 < local_grid_size0 c" "0 < local_grid_size1 c"
    and "0 \<le> gx" "gx < dims0 c * local_grid_size0 c" "0 \<le> gy" "gy < dims1 c * local_grid_size1 c"
  obtains r x y where "r < world_size c"
    "0 \<le> x" "x < local_grid_size0 c" "0 \<le> y" "y < local_grid_size1 c"
    "gx = local_origin0 c r + x" "gy = local_origin1 c r + y"
proof -
  let ?cx = "gx div local_grid_size0 c" and ?cy = "gy div local_grid_size1 c"
  have cx: "0 \<le> ?cx" "?cx < dims0 c"
  proof -
    show "0 \<le> ?cx" using assms(2,4) by (simp add: pos_imp_zdiv_nonneg_iff)
    show "?cx < dims0 c"
    proof (rule ccontr)
      assume "\<not> ?cx < dims0 c"
      then have "dims0 c * local_grid_size0 c \<le> ?cx * local_grid_size0 c"
        using assms(2) by (intro mult_right_mono) auto
      also have "\<dots> \<le> gx" using div_mult_le_int[OF assms(2), of gx] by (simp add: mult.commute)
      finally show False using assms(5) by simp
    qed
  qed
  have cy: "0 \<le> ?cy" "?cy < dims1 c"
  proof -
    show "0 \<le> ?cy" using assms(3,6) by (simp add: pos_imp_zdiv_nonneg_iff)
    show "?cy < dims1 c"
    proof (rule ccontr)
      assume "\<not> ?cy < dims1 c"
      then have "dims1 c * local_grid_size1 c \<le> ?cy * local_grid_size1 c"
        using assms(3) by (intro mult_right_mono) auto
      also have "\<dots> \<le> gy" using div_mult_le_int[OF assms(3), of gy] by (simp add: mult.commute)
      finally show False using assms(7) by simp
    qed
  qed
  have m: "in_mesh c (?cx, ?cy)" using cx cy by (simp add: in_mesh_def)
  let ?r = "MPI_Cart_rank c (?cx, ?cy)"
  have co: "MPI_Cart_coords c ?r = (?cx, ?cy)" by (rule coords_rank[OF m])
  show ?thesis
  proof (rule that[of ?r "gx mod local_grid_size0 c" "gy mod local_grid_size1 c"])
    show "?r < world_size c" by (rule rank_less[OF m])
    show "0 \<le> gx mod local_grid_size0 c" "gx mod local_grid_size0 c < local_grid_size0 c"
      "0 \<le> gy mod local_grid_size1 c" "gy mod local_grid_size1 c < local_grid_size1 c"
      using assms(2,3) by simp_all
    show "gx = local_origin0 c ?r + gx mod local_grid_size0 c"
      by (simp add: local_origin0_def coords_def co)
    show "gy = local_origin1 c ?r + gy mod local_grid_size1 c"
      by (simp add: local_origin1_def coords_def co)
  qed
qed

lemma halo_buffer_cong:
  assumes "local_temp (procs W' r) (step mod 2) = local_temp (procs W r) (step mod 2)"
    and "\<And>n. local_temp (procs W' n) ((step + 1) mod 2) = local_temp (procs W n) ((step + 1) mod 2)"
  shows "halo_buffer c step W' r = halo_buffer c step W r"
  unfolding halo_buffer_def Let_def assms ..

lemma neighbour_less:
  assumes "valid_cfg c" "r < world_size c"
  shows "north c r \<noteq> None \<Longrightarrow> the (north c r) < world_size c"
    "south c r \<noteq> None \<Longrightarrow> the (south c r) < world_size c"
    "west c r \<noteq> None \<Longrightarrow> the (west c r) < world_size c"
    "east c r \<noteq> None \<Longrightarrow> the (east c r) < world_size c"
  using north_back(1)[OF assms] south_back(1)[OF assms] west_back(1)[OF assms]
    east_back(1)[OF assms] by auto

lemma halo_start:
  assumes "valid_cfg c" "keeps_layout c init" "r < world_size c"
    and "- 1 \<le> x" "x \<le> local_grid_size0 c" "- 1 \<le> y" "y \<le> local_grid_size1 c"
  shows "rd (halo_buffer c 0 (startup c init) r) (lti c x y) =
         (if interior c x y then rd (local_temp (procs (startup c init) r) 0) (lti c x y) else 10)"
proof -
  let ?W = "startup c init"
  note n = lgs_nonneg[OF assms(1)]
  have len: "int (length (local_temp (procs ?W r) (0 mod 2))) =
               (local_grid_size0 c + 2) * (local_grid_size1 c + 2)"
    by (rule alloc_proc_length[OF allocated_proc[OF allocated_startup[OF assms(1,2)] assms(3)]])
  note nb = neighbour_less[OF assms(1,3)]
  have b1: "rd (local_temp (procs ?W k) ((0 + 1) mod 2)) (lti c x' y') = 10"
    if "k < world_size c" "- 1 \<le> x'" "x' \<le> local_grid_size0 c" "- 1 \<le> y'" "y' \<le> local_grid_size1 c"
    for k x' y'
    using startup_buffer1[OF assms(1,2) that] by simp
  have b1s: "rd (local_temp (procs ?W k) (Suc 0)) (lti c x' y') = 10"
    if "k < world_size c" "- 1 \<le> x'" "x' \<le> local_grid_size0 c" "- 1 \<le> y'" "y' \<le> local_grid_size1 c"
    for k x' y'
    using startup_buffer1[OF assms(1,2) that] by simp
  have g: "rd (local_temp (procs ?W r) (0 mod 2)) (lti c x y) = 10" if "\<not> interior c x y"
    using startup_ghost[OF assms(1,2,3), of x y] that assms(4-7) by (simp add: ghost_def)
  have e: "rd (halo_buffer c 0 ?W r) (lti c x y) =
     (if x = local_grid_size0 c \<and> 0 \<le> y \<and> y < local_grid_size1 c \<and> east c r \<noteq> None
      then rd (local_temp (procs ?W (the (east c r))) ((0 + 1) mod 2)) (lti c 0 y)
      else if x = - 1 \<and> 0 \<le> y \<and> y < local_grid_size1 c \<and> west c r \<noteq> None
      then rd (local_temp (procs ?W (the (west c r))) ((0 + 1) mod 2)) (lti c (local_grid_size0 c - 1) y)
      else if y = local_grid_size1 c \<and> 0 \<le> x \<and> x < local_grid_size0 c \<and> south c r \<noteq> None
      then rd (local_temp (procs ?W (the (south c r))) ((0 + 1) mod 2)) (lti c x 0)
      else if y = - 1 \<and> 0 \<le> x \<and> x < local_grid_size0 c \<and> north c r \<noteq> None
      then rd (local_temp (procs ?W (the (north c r))) ((0 + 1) mod 2)) (lti c x (local_grid_size1 c))
      else rd (local_temp (procs ?W r) (0 mod 2)) (lti c x y))"
    by (rule rd_halo_buffer[OF assms(1) len assms(4,5)])
  show ?thesis
  proof (cases "interior c x y")
    case True
    then show ?thesis unfolding e by (simp add: interior_def)
  next
    case False
    have "rd (halo_buffer c 0 ?W r) (lti c x y) = 10"
      unfolding e using n nb g[OF False] assms(4-7) by (auto simp: b1s)
    then show ?thesis using False by simp
  qed
qed

lemma startup_material:
  assumes "valid_cfg c" "keeps_layout c init" "r < world_size c"
    and "0 \<le> x" "x < local_grid_size0 c" "0 \<le> y" "y < local_grid_size1 c"
  shows "rd (local_material (procs (startup c init) r)) (lmi c x y) =
         rd (material (init (allocate c))) (ti c (local_origin0 c r + x) (local_origin1 c r + y))"
proof -
  let ?W = "on_all c (\<lambda>r. init_local_temp c) (init (allocate c))"
  have al: "allocated c ?W"
    by (rule allocated_on_all) (simp_all add: allocated_init[OF assms(1,2)] alloc_proc_init_local)
  show ?thesis
    using scatter_material_cell[OF assms(1) al assms(3-7)]
    by (simp add: startup_def scatter_temp_frame on_all_frame)
qed

lemma startup_uniform_material:
  assumes "valid_cfg c" "r < world_size c"
    and "0 \<le> x" "x < local_grid_size0 c" "0 \<le> y" "y < local_grid_size1 c"
  shows "rd (local_material (procs (startup c (uniform_fields c t m)) r)) (lmi c x y) = m"
proof -
  note g = ti_range[OF global_x_range[OF assms(1,2,3,4)] global_y_range[OF assms(1,2,5,6)]]
  show ?thesis
    unfolding startup_material[OF assms(1) keeps_layout_uniform_fields[OF assms(1)] assms(2-6)]
    using g by (simp add: uniform_fields_def rd_replicate)
qed

lemma uniform_start_in:
  assumes "valid_cfg c" "r < world_size c"
    and "- 1 \<le> x" "x \<le> local_grid_size0 c" "- 1 \<le> y" "y \<le> local_grid_size1 c"
  shows "rd (halo_buffer c 0 (startup c (uniform_fields c t m)) r) (lti c x y) =
         (if interior c x y then t else 10)"
  unfolding halo_start[OF assms(1) keeps_layout_uniform_fields[OF assms(1)] assms(2-6)]
  using startup_uniform_interior[OF assms(1,2), of x y t m] by (simp add: interior_def)

lemma uniform_start_step:
  assumes "valid_cfg c" "r < world_size c"
    and "0 \<le> x" "x < local_grid_size0 c" "0 \<le> y" "y < local_grid_size1 c"
  shows "rd (local_temp (procs (the (exchange_and_update c 0 (startup c (uniform_fields c t m)))) r)
               ((0 + 1) mod 2)) (lti c x y) =
         t + m * ((if interior c (x + 1) y then t else 10) + (if interior c (x - 1) y then t else 10) +
                  (if interior c x (y + 1) then t else 10) + (if interior c x (y - 1) then t else 10) -
                  4 * t)"
proof -
  let ?W = "startup c (uniform_fields c t m)"
  have a: "allocated c ?W"
    by (rule allocated_startup[OF assms(1) keeps_layout_uniform_fields[OF assms(1)]])
  have i: "interior c x y" using assms(3-6) by (simp add: interior_def)
  have v: "rd (halo_buffer c 0 ?W r) (lti c x' y') = (if interior c x' y' then t else 10)"
    if "- 1 \<le> x'" "x' \<le> local_grid_size0 c" "- 1 \<le> y'" "y' \<le> local_grid_size1 c" for x' y'
    by (rule uniform_start_in[OF assms(1,2) that])
  have "ftcs_value c (halo_buffer c 0 ?W r) (local_material (procs ?W r)) (x, y) =
        t + m * ((if interior c (x + 1) y then t else 10) + (if interior c (x - 1) y then t else 10) +
                  (if interior c x (y + 1) then t else 10) + (if interior c x (y - 1) then t else 10) -
                  4 * t)"
    unfolding ftcs_value_def fst_conv snd_conv startup_uniform_material[OF assms]
    using assms(3-6) i by (simp add: v)
  then show ?thesis
    unfolding exchange_and_update_out[OF assms(1) a assms(2-6)] .
qed

lemma on_all_heat_frame:
  "local_temp (procs (on_all c (\<lambda>r. external_heat c r step) W) r) ((step + 1) mod 2) =
     local_temp (procs W r) ((step + 1) mod 2)"
  "local_material (procs (on_all c (\<lambda>r. external_heat c r step) W) r) = local_material (procs W r)"
proof -
  show "local_temp (procs (on_all c (\<lambda>r. external_heat c r step) W) r) ((step + 1) mod 2) =
     local_temp (procs W r) ((step + 1) mod 2)"
    by (cases "r < world_size c"; simp only: on_all_frame external_heat_frame simp_thms)
  show "local_material (procs (on_all c (\<lambda>r. external_heat c r step) W) r) =
     local_material (procs W r)"
    by (cases "r < world_size c"; simp only: on_all_frame external_heat_frame simp_thms)
qed

lemma heated_frame:
  "temperature (heated c step W) = temperature W"
  "material (heated c step W) = material W"
  "displs (heated c step W) = displs W"
  "sendcounts (heated c step W) = sendcounts W"
  "local_temp (procs (heated c step W) r) ((step + 1) mod 2) = local_temp (procs W r) ((step + 1) mod 2)"
  "local_material (procs (heated c step W) r) = local_material (procs W r)"
proof -
  have h: "heated c step W = on_all c (\<lambda>r. external_heat c r step) W \<or> heated c step W = W"
    by (simp add: heated_def)
  show "temperature (heated c step W) = temperature W"
    using h by (elim disjE; simp only: on_all_frame)
  show "material (heated c step W) = material W"
    using h by (elim disjE; simp only: on_all_frame)
  show "displs (heated c step W) = displs W"
    using h by (elim disjE; simp only: on_all_frame)
  show "sendcounts (heated c step W) = sendcounts W"
    using h by (elim disjE; simp only: on_all_frame)
  show "local_temp (procs (heated c step W) r) ((step + 1) mod 2) =
          local_temp (procs W r) ((step + 1) mod 2)"
    using h by (elim disjE; simp only: on_all_heat_frame)
  show "local_material (procs (heated c step W) r) = local_material (procs W r)"
    using h by (elim disjE; simp only: on_all_heat_frame)
qed

lemma allocated_heated:
  assumes "allocated c W"
  shows "allocated c (heated c step W)"
  unfolding heated_def
  by (simp add: assms allocated_on_all alloc_proc_external_heat)

lemma iteration_eq:
  assumes "valid_cfg c"
  shows "iteration c step W =
         Some (if step mod SNAPSHOT = 0
               then gather_temp c step (the (exchange_and_update c step (heated c step W)))
               else the (exchange_and_update c step (heated c step W)))"
  unfolding iteration_def Let_def heated_def[symmetric] exchange_and_update_eq[OF assms]
  by simp

lemma length_gather_temp:
  assumes "valid_cfg c" "tables_ready c W" "allocated c W"
  shows "int (length (temperature (gather_temp c step W))) = GRID_SIZE0 c * GRID_SIZE1 c"
  using allocated_gather_temp[OF assms(1,2), of step] assms(3) by (simp add: allocated_def)

lemma scenario8_layout:
  "allocated mesh8 (scenario8 m)" "tables_ready mesh8 (scenario8 m)"
  unfolding scenario8_def
  by (rule allocated_startup[OF valid_mesh8 keeps_layout_uniform_fields[OF valid_mesh8]],
      rule tables_ready_startup[OF keeps_layout_uniform_fields[OF valid_mesh8]])

lemma step_layout:
  assumes "valid_cfg c" "allocated c W" "tables_ready c W"
  shows "allocated c (the (exchange_and_update c step W))"
    "tables_ready c (the (exchange_and_update c step W))"
proof -
  show "allocated c (the (exchange_and_update c step W))"
    by (rule allocated_exchange_and_update[OF assms(1,2)])
  show "tables_ready c (the (exchange_and_update c step W))"
    unfolding tables_ready_cong[OF exchange_and_update_frame(3,4)[OF assms(1)]] by (rule assms(3))
qed

lemma mesh8_cell_owner:
  assumes "0 \<le> i" "i < 64"
  obtains r x y where "r < world_size mesh8"
    "0 \<le> x" "x < local_grid_size0 mesh8" "0 \<le> y" "y < local_grid_size1 mesh8"
    "i = ti mesh8 (local_origin0 mesh8 r + x) (local_origin1 mesh8 r + y)"
proof -
  have d: "dims0 mesh8 = 2" "dims1 mesh8 = 2"
    by (simp_all add: mesh8_def)
  have g: "0 \<le> i mod 8" "i mod 8 < dims0 mesh8 * local_grid_size0 mesh8"
    "0 \<le> i div 8" "i div 8 < dims1 mesh8 * local_grid_size1 mesh8"
    unfolding d lgs_mesh8 using assms by simp_all
  have p: "0 < local_grid_size0 mesh8" "0 < local_grid_size1 mesh8"
    by (simp_all add: lgs_mesh8)
  obtain r x y where o: "r < world_size mesh8"
    "0 \<le> x" "x < local_grid_size0 mesh8" "0 \<le> y" "y < local_grid_size1 mesh8"
    "i mod 8 = local_origin0 mesh8 r + x" "i div 8 = local_origin1 mesh8 r + y"
    by (rule global_cell_owner[OF valid_mesh8 p g]) blast
  have "i = ti mesh8 (i mod 8) (i div 8)"
    by (simp add: ti_def mesh8_def)
  then show thesis using that[OF o(1-5)] o(6,7) by simp
qed

lemma scenario8_gathered:
  "temperature (gather_temp mesh8 0 (the (exchange_and_update mesh8 0 (scenario8 m)))) =
     replicate 64 20"
proof (rule list_eq_rdI)
  let ?W = "the (exchange_and_update mesh8 0 (scenario8 m))"
  note l = step_layout[OF valid_mesh8 scenario8_layout(1)[of m] scenario8_layout(2)[of m], of 0]
  have len: "int (length (temperature (gather_temp mesh8 0 ?W))) = 64"
    using length_gather_temp[OF valid_mesh8 l(2) l(1), of 0] by (simp add: mesh8_def)
  then show "length (temperature (gather_temp mesh8 0 ?W)) = length (replicate 64 (20::real))"
    by simp
  fix i :: int
  assume i: "0 \<le> i" "i < int (length (temperature (gather_temp mesh8 0 ?W)))"
  then have i64: "i < 64" using len by simp
  obtain r x y where o: "r < world_size mesh8"
    "0 \<le> x" "x < local_grid_size0 mesh8" "0 \<le> y" "y < local_grid_size1 mesh8"
    "i = ti mesh8 (local_origin0 mesh8 r + x) (local_origin1 mesh8 r + y)"
    by (rule mesh8_cell_owner[OF i(1) i64])
  have "rd (temperature (gather_temp mesh8 0 ?W)) i =
        rd (local_temp (procs ?W r) (0 mod 2)) (lti mesh8 x y)"
    unfolding o(6) by (rule gather_temp_cell[OF valid_mesh8 l(1) l(2) o(1-5)])
  also have "\<dots> = rd (halo_buffer mesh8 0 (scenario8 m) r) (lti mesh8 x y)"
    unfolding exchange_and_update_in[OF valid_mesh8 o(1)] ..
  also have "\<dots> = 20"
    unfolding scenario8_def using uniform_start_in[OF valid_mesh8 o(1), of x y 20 m] o(2-5)
    by (simp add: interior_def)
  finally show "rd (temperature (gather_temp mesh8 0 ?W)) i = rd (replicate 64 20) i"
    using i(1) i64 by (simp add: rd_replicate)
qed

section \<open>The snapshot of an iteration\<close>

lemma exchange_and_update_material:
  assumes "valid_cfg c" "r < world_size c"
  shows "local_material (procs (the (exchange_and_update c step W)) r) = local_material (procs W r)"
  using assms(2)
  by (simp add: exchange_and_update_eq[OF assms(1)] on_all_frame ftcs_solver_material_unchanged
      border_exchange_result(3)[OF assms])

lemma heated_layout:
  assumes "allocated c W" "tables_ready c W"
  shows "allocated c (heated c step W)" "tables_ready c (heated c step W)"
proof -
  show "allocated c (heated c step W)" by (rule allocated_heated[OF assms(1)])
  show "tables_ready c (heated c step W)"
    unfolding tables_ready_cong[OF heated_frame(3,4)] by (rule assms(2))
qed

lemma iteration_snapshot:
  assumes "valid_cfg c" "step mod SNAPSHOT = 0"
  shows "iteration c step W \<noteq> None"
    "the (iteration c step W) =
       gather_temp c step (the (exchange_and_update c step (heated c step W)))"
  using assms(2) by (simp_all add: iteration_eq[OF assms(1)])

text \<open>
  Every iteration of the loop completes and keeps the sizes of the arrays and the tables
  of the root, so that the loop of \<open>main\<close> runs to its end in such a state.
\<close>

lemma iteration_layout:
  assumes "valid_cfg c" "allocated c W" "tables_ready c W"
  shows "iteration c step W \<noteq> None"
    "allocated c (the (iteration c step W))"
    "tables_ready c (the (iteration c step W))"
proof -
  note h = heated_layout[OF assms(2,3), of step]
  note l = step_layout[OF assms(1) h, of step]
  show "iteration c step W \<noteq> None"
    by (simp add: iteration_eq[OF assms(1)])
  show "allocated c (the (iteration c step W))"
    using l by (simp add: iteration_eq[OF assms(1)] allocated_gather_temp[OF assms(1) l(2)])
  show "tables_ready c (the (iteration c step W))"
    using l by (simp add: iteration_eq[OF assms(1)] tables_ready_cong[OF gather_temp_frame(3,4)])
qed

lemma iterations_layout:
  assumes "valid_cfg c" "allocated c W" "tables_ready c W"
  shows "\<exists>W'. iterations c steps W = Some W' \<and> allocated c W' \<and> tables_ready c W'"
  using assms(2,3)
proof (induction steps arbitrary: W)
  case Nil
  then show ?case by simp
next
  case (Cons s steps)
  note i = iteration_layout[OF assms(1) Cons.prems, of s]
  from i(1) obtain W1 where w: "iteration c s W = Some W1" by auto
  with i(2,3) have "allocated c W1" "tables_ready c W1" by simp_all
  from Cons.IH[OF this] show ?case by (simp add: w)
qed

lemma main_layout:
  assumes "valid_cfg c"
  shows "\<exists>W. main c = Some W \<and> allocated c W \<and> tables_ready c W"
  unfolding main_def
  by (rule iterations_layout[OF assms
        allocated_startup[OF assms keeps_layout_init_temp_material[OF assms]]
        tables_ready_startup[OF keeps_layout_init_temp_material[OF assms]]])

text \<open>
  C7. At a snapshot step \<open>s\<close> the iteration of the loop of \<open>main\<close> completes, and the cell
  of the gathered field at the global position of the interior cell \<open>(x, y)\<close> of rank \<open>r\<close>
  holds the value that cell has in \<open>local_temp[s % 2]\<close>, the buffer the update of step \<open>s\<close>
  read; the update stored its result for the cell, the stencil value of that buffer, in
  \<open>local_temp[(s + 1) % 2]\<close>.
\<close>

theorem snapshot_gathers_input_buffer:
  assumes "valid_cfg c" "allocated c W" "tables_ready c W" "s mod SNAPSHOT = 0"
    and "r < world_size c"
    and "0 \<le> x" "x < local_grid_size0 c" "0 \<le> y" "y < local_grid_size1 c"
  shows "iteration c s W \<noteq> None \<and>
         rd (temperature (the (iteration c s W)))
            (ti c (local_origin0 c r + x) (local_origin1 c r + y)) =
           rd (local_temp (procs (the (iteration c s W)) r) (s mod 2)) (lti c x y) \<and>
         rd (local_temp (procs (the (iteration c s W)) r) ((s + 1) mod 2)) (lti c x y) =
           ftcs_value c (local_temp (procs (the (iteration c s W)) r) (s mod 2))
             (local_material (procs (the (iteration c s W)) r)) (x, y)"
proof -
  let ?H = "heated c s W"
  let ?U = "the (exchange_and_update c s ?H)"
  note h = heated_layout[OF assms(2,3), of s]
  note l = step_layout[OF assms(1) h, of s]
  note i = iteration_snapshot[OF assms(1,4), of W]
  have g: "rd (temperature (gather_temp c s ?U))
            (ti c (local_origin0 c r + x) (local_origin1 c r + y)) =
           rd (local_temp (procs ?U r) (s mod 2)) (lti c x y)"
    by (rule gather_temp_cell[OF assms(1) l assms(5-9)])
  have u: "rd (local_temp (procs ?U r) ((s + 1) mod 2)) (lti c x y) =
           ftcs_value c (local_temp (procs ?U r) (s mod 2)) (local_material (procs ?U r)) (x, y)"
    unfolding exchange_and_update_out[OF assms(1) h(1) assms(5-9)]
      exchange_and_update_in[OF assms(1,5)] exchange_and_update_material[OF assms(1,5)] ..
  show ?thesis
    unfolding i(2) gather_temp_frame using i(1) g u by simp
qed

theorem snapshot_gathers_input_buffer_witness:
  "valid_cfg mesh8 \<and> allocated mesh8 (scenario8 (1 / 8)) \<and> tables_ready mesh8 (scenario8 (1 / 8)) \<and>
   0 mod SNAPSHOT = 0 \<and> 0 < world_size mesh8 \<and>
   iteration mesh8 0 (scenario8 (1 / 8)) \<noteq> None \<and>
   rd (temperature (the (iteration mesh8 0 (scenario8 (1 / 8)))))
      (ti mesh8 (local_origin0 mesh8 0 + 0) (local_origin1 mesh8 0 + 0)) =
     rd (local_temp (procs (the (iteration mesh8 0 (scenario8 (1 / 8)))) 0) (0 mod 2)) (lti mesh8 0 0) \<and>
   rd (local_temp (procs (the (iteration mesh8 0 (scenario8 (1 / 8)))) 0) ((0 + 1) mod 2)) (lti mesh8 0 0) =
     ftcs_value mesh8 (local_temp (procs (the (iteration mesh8 0 (scenario8 (1 / 8)))) 0) (0 mod 2))
       (local_material (procs (the (iteration mesh8 0 (scenario8 (1 / 8)))) 0)) (0, 0)"
proof -
  have s: "0 mod SNAPSHOT = 0" by simp
  have r: "0 < world_size mesh8" by (simp add: size_mesh8)
  have i: "(0::int) \<le> 0" "0 < local_grid_size0 mesh8" "0 < local_grid_size1 mesh8"
    by (simp_all add: lgs_mesh8)
  note a = scenario8_layout[of "1 / 8"]
  from snapshot_gathers_input_buffer[OF valid_mesh8 a s r i(1) i(2) i(1) i(3)]
    valid_mesh8 a s r
  show ?thesis by blast
qed

text \<open>
  In the scenario with the material constant \<open>1 / 8\<close> the first iteration of the loop, a
  snapshot step, leaves \<open>35 / 2\<close> in the cell \<open>(0, 0)\<close> of the buffer of rank 0 that the update
  wrote, and 20 in the cell of the gathered field at that position.
\<close>

theorem snapshot_misses_update:
  "0 mod SNAPSHOT = 0 \<and>
   iteration mesh8 0 (scenario8 (1 / 8)) \<noteq> None \<and>
   ti mesh8 (local_origin0 mesh8 0 + 0) (local_origin1 mesh8 0 + 0) = 0 \<and>
   rd (temperature (the (iteration mesh8 0 (scenario8 (1 / 8))))) 0 = 20 \<and>
   rd (local_temp (procs (the (iteration mesh8 0 (scenario8 (1 / 8)))) 0) ((0 + 1) mod 2))
      (lti mesh8 0 0) = 35 / 2"
proof -
  let ?W = "scenario8 (1 / 8)"
  let ?H = "heated mesh8 0 ?W"
  let ?U = "the (exchange_and_update mesh8 0 ?H)"
  have s: "0 mod SNAPSHOT = 0" by simp
  have r: "0 < world_size mesh8" by (simp add: size_mesh8)
  have i0: "(0::int) \<le> 0" "0 < local_grid_size0 mesh8" "0 < local_grid_size1 mesh8"
    by (simp_all add: lgs_mesh8)
  note a = scenario8_layout[of "1 / 8"]
  note h = heated_layout[OF a, of 0]
  note l = step_layout[OF valid_mesh8 h, of 0]
  note it = iteration_snapshot[OF valid_mesh8 s, of ?W]
  have o: "local_origin0 mesh8 0 = 0" "local_origin1 mesh8 0 = 0"
    by (simp_all add: local_origin0_def local_origin1_def coords_def coords_mesh8)
  have t: "ti mesh8 (local_origin0 mesh8 0 + 0) (local_origin1 mesh8 0 + 0) = 0"
    by (simp add: o ti_def)
  have out: "external_heat mesh8 0 0 p = p" for p
    by (rule external_heat_outside)
       (simp add: inside_def o lgs_mesh8, simp add: mesh8_def)
  have p0: "procs ?H 0 = procs ?W 0"
    using r by (simp add: heated_def on_all_frame out)
  have hb: "halo_buffer mesh8 0 ?H 0 = halo_buffer mesh8 0 ?W 0"
    by (rule halo_buffer_cong) (simp only: p0, rule heated_frame(5))
  have v: "ftcs_value mesh8 (halo_buffer mesh8 0 ?W 0) (local_material (procs ?W 0)) (0, 0) = 35 / 2"
    unfolding exchange_and_update_out[OF valid_mesh8 a(1) r i0(1) i0(2) i0(1) i0(3), of 0, symmetric]
    unfolding scenario8_def uniform_start_step[OF valid_mesh8 r i0(1) i0(2) i0(1) i0(3)]
    by (simp add: interior_def lgs_mesh8)
  have b: "rd (local_temp (procs ?U 0) ((0 + 1) mod 2)) (lti mesh8 0 0) = 35 / 2"
    unfolding exchange_and_update_out[OF valid_mesh8 h(1) r i0(1) i0(2) i0(1) i0(3)] hb p0
    by (rule v)
  have "rd (temperature (gather_temp mesh8 0 ?U))
          (ti mesh8 (local_origin0 mesh8 0 + 0) (local_origin1 mesh8 0 + 0)) =
        rd (local_temp (procs ?U 0) (0 mod 2)) (lti mesh8 0 0)"
    by (rule gather_temp_cell[OF valid_mesh8 l r i0(1) i0(2) i0(1) i0(3)])
  also have "\<dots> = rd (halo_buffer mesh8 0 ?W 0) (lti mesh8 0 0)"
    unfolding exchange_and_update_in[OF valid_mesh8 r] hb ..
  also have "\<dots> = 20"
    unfolding scenario8_def using uniform_start_in[OF valid_mesh8 r, of 0 0 20 "1 / 8"]
    by (simp add: interior_def lgs_mesh8)
  finally have g: "rd (temperature (gather_temp mesh8 0 ?U)) 0 = 20"
    unfolding t .
  show ?thesis
    unfolding it(2) gather_temp_frame using s it(1) t g b by blast
qed

section \<open>One step from a uniform field\<close>

lemma exchange_and_update_procs:
  assumes "valid_cfg c" "r < world_size c"
  shows "procs (the (exchange_and_update c step W)) r =
         ftcs_solver c step (procs (the (border_exchange c step W)) r)"
  using assms(2) by (simp add: exchange_and_update_eq[OF assms(1)] on_all_frame)

lemma scenario8_exchanged:
  assumes "r < world_size mesh8"
  shows "alloc_proc mesh8 (procs (the (border_exchange mesh8 0 (scenario8 m))) r)"
    and "- 1 \<le> x \<Longrightarrow> x \<le> 4 \<Longrightarrow> - 1 \<le> y \<Longrightarrow> y \<le> 4 \<Longrightarrow>
         rd (local_temp (procs (the (border_exchange mesh8 0 (scenario8 m))) r) (0 mod 2))
            (lti mesh8 x y) = (if 0 \<le> x \<and> x < 4 \<and> 0 \<le> y \<and> y < 4 then 20 else 10)"
    and "0 \<le> x \<Longrightarrow> x < 4 \<Longrightarrow> 0 \<le> y \<Longrightarrow> y < 4 \<Longrightarrow>
         rd (local_material (procs (the (border_exchange mesh8 0 (scenario8 m))) r)) (lmi mesh8 x y) = m"
proof -
  show "alloc_proc mesh8 (procs (the (border_exchange mesh8 0 (scenario8 m))) r)"
    by (rule allocated_proc[OF allocated_border_exchange[OF valid_mesh8 scenario8_layout(1)] assms])
  show "rd (local_temp (procs (the (border_exchange mesh8 0 (scenario8 m))) r) (0 mod 2))
            (lti mesh8 x y) = (if 0 \<le> x \<and> x < 4 \<and> 0 \<le> y \<and> y < 4 then 20 else 10)"
    if "- 1 \<le> x" "x \<le> 4" "- 1 \<le> y" "y \<le> 4"
    unfolding border_exchange_result(1)[OF valid_mesh8 assms] scenario8_def
    using uniform_start_in[OF valid_mesh8 assms, of x y 20 m] that
    by (simp add: interior_def lgs_mesh8)
  show "rd (local_material (procs (the (border_exchange mesh8 0 (scenario8 m))) r)) (lmi mesh8 x y) = m"
    if "0 \<le> x" "x < 4" "0 \<le> y" "y < 4"
    unfolding border_exchange_result(3)[OF valid_mesh8 assms] scenario8_def
    using startup_uniform_material[OF valid_mesh8 assms, of x y 20 m] that
    by (simp add: lgs_mesh8)
qed

lemma FLT_MAX_numerals:
  "\<bar>0\<bar> \<le> FLT_MAX" "\<bar>20\<bar> \<le> FLT_MAX" "\<bar>30\<bar> \<le> FLT_MAX" "\<bar>40\<bar> \<le> FLT_MAX"
  "\<bar>50\<bar> \<le> FLT_MAX" "\<bar>60\<bar> \<le> FLT_MAX" "\<bar>80\<bar> \<le> FLT_MAX" "\<bar>35 / 2\<bar> \<le> FLT_MAX"
  "\<bar>5 / 2\<bar> \<le> FLT_MAX"
  by (simp_all add: FLT_MAX_def)

lemma scenario8_inner_partial_results:
  assumes "r < world_size mesh8" "1 \<le> x" "x \<le> 2" "1 \<le> y" "y \<le> 2"
  shows "ftcs_partial_results mesh8
           (local_temp (procs (the (border_exchange mesh8 0 (scenario8 m))) r) (0 mod 2))
           (local_material (procs (the (border_exchange mesh8 0 (scenario8 m))) r)) (x, y) =
         [40, 60, 80, 80, 0, 0, 20]"
  unfolding ftcs_partial_results_def Let_def fst_conv snd_conv
  using assms(2-5)
  by (simp only: scenario8_exchanged(2,3)[OF assms(1)]) simp

lemma scenario8_corner_partial_results:
  assumes "0 < world_size mesh8"
  shows "ftcs_partial_results mesh8
           (local_temp (procs (the (border_exchange mesh8 0 (scenario8 (1 / 8)))) 0) (0 mod 2))
           (local_material (procs (the (border_exchange mesh8 0 (scenario8 (1 / 8)))) 0)) (0, 0) =
         [30, 50, 60, 80, - 20, - (5 / 2), 35 / 2]"
proof -
  have e: "rd (local_temp (procs (the (border_exchange mesh8 0 (scenario8 (1 / 8)))) 0) 0)
            (lti mesh8 x' y') = (if 0 \<le> x' \<and> x' < 4 \<and> 0 \<le> y' \<and> y' < 4 then 20 else 10)"
    if "- 1 \<le> x'" "x' \<le> 4" "- 1 \<le> y'" "y' \<le> 4" for x' y'
    using scenario8_exchanged(2)[OF assms(1) that, of "1 / 8"] by simp
  note k = scenario8_exchanged(3)[OF assms(1), of _ _ "1 / 8"]
  show ?thesis
    unfolding ftcs_partial_results_def Let_def fst_conv snd_conv by (simp add: e k)
qed

lemma scenario8_step_float:
  assumes "r < world_size mesh8"
    and "0 \<le> x" "x < 4" "0 \<le> y" "y < 4"
    and "set (ftcs_partial_results mesh8
           (local_temp (procs (the (border_exchange mesh8 0 (scenario8 m))) r) (0 mod 2))
           (local_material (procs (the (border_exchange mesh8 0 (scenario8 m))) r)) (x, y)) \<subseteq>
         {v. \<bar>v\<bar> \<le> FLT_MAX}"
  shows "rd (local_temp (ftcs_solver_float mesh8 0
               (to_float (procs (the (border_exchange mesh8 0 (scenario8 m))) r))) ((0 + 1) mod 2))
            (lti mesh8 x y) =
         Finite (rd (local_temp (procs (the (exchange_and_update mesh8 0 (scenario8 m))) r)
                       ((0 + 1) mod 2)) (lti mesh8 x y))"
proof -
  have i: "0 \<le> x" "x < local_grid_size0 mesh8" "0 \<le> y" "y < local_grid_size1 mesh8"
    using assms(2-5) by (simp_all add: lgs_mesh8)
  show ?thesis
    unfolding exchange_and_update_procs[OF valid_mesh8 assms(1)]
    by (rule ftcs_solver_float_finite[OF scenario8_exchanged(1)[OF assms(1)] i assms(6)])
qed

text \<open>
  C4. In the scenario, one step (\<open>border_exchange\<close>, then \<open>ftcs_solver\<close> on every rank)
  completes; for every finite material constant \<open>m\<close> it leaves 20 in every cell of every
  rank whose four neighbours are cells the rank owns (local coordinates 1 and 2), also
  when the stencil is evaluated in C \<open>float\<close> arithmetic; and \<open>gather_temp(0)\<close>, which reads
  the buffer the update read, assembles a field of 64 cells that all hold 20.
\<close>

theorem uniform_scenario_step:
  assumes "r < world_size mesh8" "1 \<le> x" "x \<le> 2" "1 \<le> y" "y \<le> 2"
  shows "exchange_and_update mesh8 0 (scenario8 m) \<noteq> None \<and>
         rd (local_temp (procs (the (exchange_and_update mesh8 0 (scenario8 m))) r) ((0 + 1) mod 2))
            (lti mesh8 x y) = 20 \<and>
         rd (local_temp (ftcs_solver_float mesh8 0
               (to_float (procs (the (border_exchange mesh8 0 (scenario8 m))) r))) ((0 + 1) mod 2))
            (lti mesh8 x y) = Finite 20 \<and>
         temperature (gather_temp mesh8 0 (the (exchange_and_update mesh8 0 (scenario8 m)))) =
           replicate 64 20"
proof -
  have a: "exchange_and_update mesh8 0 (scenario8 m) \<noteq> None"
    by (simp add: exchange_and_update_eq[OF valid_mesh8])
  have i: "0 \<le> x" "x < local_grid_size0 mesh8" "0 \<le> y" "y < local_grid_size1 mesh8"
    using assms(2-5) by (simp_all add: lgs_mesh8)
  have j: "0 \<le> x" "x < 4" "0 \<le> y" "y < 4"
    using assms(2-5) by simp_all
  have b: "rd (local_temp (procs (the (exchange_and_update mesh8 0 (scenario8 m))) r) ((0 + 1) mod 2))
            (lti mesh8 x y) = 20"
    unfolding scenario8_def uniform_start_step[OF valid_mesh8 assms(1) i]
    using assms(2-5) by (simp add: interior_def lgs_mesh8)
  have p: "set (ftcs_partial_results mesh8
           (local_temp (procs (the (border_exchange mesh8 0 (scenario8 m))) r) (0 mod 2))
           (local_material (procs (the (border_exchange mesh8 0 (scenario8 m))) r)) (x, y)) \<subseteq>
         {v. \<bar>v\<bar> \<le> FLT_MAX}"
    unfolding scenario8_inner_partial_results[OF assms] using FLT_MAX_numerals by simp
  have f: "rd (local_temp (ftcs_solver_float mesh8 0
               (to_float (procs (the (border_exchange mesh8 0 (scenario8 m))) r))) ((0 + 1) mod 2))
            (lti mesh8 x y) = Finite 20"
    unfolding scenario8_step_float[OF assms(1) j p] b ..
  show ?thesis using a b f scenario8_gathered by blast
qed

theorem uniform_scenario_step_witness:
  "3 < world_size mesh8 \<and>
   exchange_and_update mesh8 0 (scenario8 (1 / 8)) \<noteq> None \<and>
   rd (local_temp (procs (the (exchange_and_update mesh8 0 (scenario8 (1 / 8)))) 3) ((0 + 1) mod 2))
      (lti mesh8 1 2) = 20 \<and>
   rd (local_temp (ftcs_solver_float mesh8 0
         (to_float (procs (the (border_exchange mesh8 0 (scenario8 (1 / 8)))) 3))) ((0 + 1) mod 2))
      (lti mesh8 1 2) = Finite 20 \<and>
   temperature (gather_temp mesh8 0 (the (exchange_and_update mesh8 0 (scenario8 (1 / 8))))) =
     replicate 64 20"
proof -
  have r: "3 < world_size mesh8" by (simp add: size_mesh8)
  from uniform_scenario_step[OF r, of 1 2 "1 / 8"] r show ?thesis by simp
qed

text \<open>
  In the scenario with the material constant \<open>1 / 8\<close>, the step takes the cell \<open>(0, 0)\<close> of
  rank 0, at the corner of the grid, from 20 to \<open>35 / 2\<close>, in C \<open>float\<close> arithmetic too:
  rank 0 has no neighbour to the north and to the west, and the ghost cells on these sides
  hold the 10 that \<open>init_local_temp\<close> stored.
\<close>

theorem uniform_scenario_edge_cell:
  "world_size mesh8 = 4 \<and> local_grid_size0 mesh8 = 4 \<and> local_grid_size1 mesh8 = 4 \<and>
   north mesh8 0 = None \<and> west mesh8 0 = None \<and>
   rd (local_temp (procs (scenario8 (1 / 8)) 0) 0) (lti mesh8 0 0) = 20 \<and>
   exchange_and_update mesh8 0 (scenario8 (1 / 8)) \<noteq> None \<and>
   rd (local_temp (procs (the (exchange_and_update mesh8 0 (scenario8 (1 / 8)))) 0) ((0 + 1) mod 2))
      (lti mesh8 0 0) = 35 / 2 \<and>
   rd (local_temp (ftcs_solver_float mesh8 0
         (to_float (procs (the (border_exchange mesh8 0 (scenario8 (1 / 8)))) 0))) ((0 + 1) mod 2))
      (lti mesh8 0 0) = Finite (35 / 2)"
proof -
  have r: "0 < world_size mesh8" by (simp add: size_mesh8)
  have a: "exchange_and_update mesh8 0 (scenario8 (1 / 8)) \<noteq> None"
    by (simp add: exchange_and_update_eq[OF valid_mesh8])
  have i0: "(0::int) \<le> 0" "0 < local_grid_size0 mesh8" "0 < local_grid_size1 mesh8"
    by (simp_all add: lgs_mesh8)
  have s: "rd (local_temp (procs (scenario8 (1 / 8)) 0) 0) (lti mesh8 0 0) = 20"
    unfolding scenario8_def
    by (rule startup_uniform_interior[OF valid_mesh8 r i0(1) i0(2) i0(1) i0(3)])
  have j: "(0::int) \<le> 0" "(0::int) < 4"
    by simp_all
  have b: "rd (local_temp (procs (the (exchange_and_update mesh8 0 (scenario8 (1 / 8)))) 0) ((0 + 1) mod 2))
      (lti mesh8 0 0) = 35 / 2"
    unfolding scenario8_def uniform_start_step[OF valid_mesh8 r i0(1) i0(2) i0(1) i0(3)]
    by (simp add: interior_def lgs_mesh8)
  have p0: "set (ftcs_partial_results mesh8
           (local_temp (procs (the (border_exchange mesh8 0 (scenario8 (1 / 8)))) 0) (0 mod 2))
           (local_material (procs (the (border_exchange mesh8 0 (scenario8 (1 / 8)))) 0)) (0, 0)) \<subseteq>
         {v. \<bar>v\<bar> \<le> FLT_MAX}"
    unfolding scenario8_corner_partial_results[OF r] by (simp add: FLT_MAX_def)
  have f0: "rd (local_temp (ftcs_solver_float mesh8 0
         (to_float (procs (the (border_exchange mesh8 0 (scenario8 (1 / 8)))) 0))) ((0 + 1) mod 2))
      (lti mesh8 0 0) = Finite (35 / 2)"
    unfolding scenario8_step_float[OF r j(1) j(2) j(1) j(2) p0] b ..
  show ?thesis using a s b f0 by (simp add: size_mesh8 lgs_mesh8 neighbours_mesh8)
qed

end
